(* ===== verification/Market_Prelude.thy ===== *)
theory Market_Prelude
  imports Main "HOL-Library.Word"
begin

text \<open>
  What every component shares: the machine integers of the runtime, the shape of a
  dispatch result, sums over storage maps, the reachable states of a step relation, and
  three interfaces as locales.  \<open>transition_system\<close> is an inductive invariant of a step
  relation; \<open>progress_system\<close> is a step relation that runs down; \<open>device_machine\<close> is a
  simulation of a step relation by an abstract machine that runs once per device.
\<close>

section \<open>Machine integers\<close>

text \<open>The runtime fixes \<open>Balance = u128\<close>, \<open>Moment = u64\<close>, \<open>Weight = u64\<close>; a \<open>ParaId\<close> is
  a newtype of \<open>u32\<close>.  Their \<open>+\<close> wraps, as in a release build.\<close>

type_synonym balance = "128 word"
type_synonym moment = "64 word"
type_synonym para_id = "32 word"
type_synonym weight = "64 word"
type_synonym bytes = "8 word list"

text \<open>A sum of two times that does not fit comes out below its summands.\<close>

lemma wraps_below:
  fixes x y :: moment
  assumes "2 ^ 64 \<le> unat x + unat y"
  shows "x + y < x"
proof -
  have "unat (x + y) = unat x + unat y - 2 ^ 64"
    using assms unsigned_less [of x, where ?'a = nat] unsigned_less [of y, where ?'a = nat]
    by (simp add: unat_word_ariths mod_if)
  also have "\<dots> < unat x"
    using assms unsigned_less [of y, where ?'a = nat] by simp
  finally show ?thesis by (simp add: word_less_nat_alt)
qed

section \<open>Dispatch results\<close>

text \<open>An error is one of the pallet's own \<open>Error\<close> variants or an error value that code
  outside this repository returned, kept opaque as its name.  A handler returns its
  \<open>DispatchResult\<close> together with the storage it leaves behind: a dispatch of this
  FRAME version does not roll storage back on an error.\<close>

datatype 'e dispatch_error = Module 'e | HostError string

type_synonym ('e, 's) outcome = "('e dispatch_error + unit) \<times> 's"

abbreviation ok :: "'s \<Rightarrow> ('e, 's) outcome" where
  "ok s \<equiv> (Inr (), s)"

abbreviation fail :: "'e \<Rightarrow> 's \<Rightarrow> ('e, 's) outcome" where
  "fail e s \<equiv> (Inl (Module e), s)"

abbreviation host_fail :: "string \<Rightarrow> 's \<Rightarrow> ('e, 's) outcome" where
  "host_fail e s \<equiv> (Inl (HostError e), s)"

section \<open>Collections of facts\<close>

named_theorems op_defs \<open>unfoldings of the operations of the pallets\<close>
named_theorems frame_facts \<open>what an operation leaves unchanged\<close>

lemmas result_splits = option.splits sum.splits prod.splits if_splits

section \<open>Sums over storage maps\<close>

definition map_total :: "('k \<rightharpoonup> 'v) \<Rightarrow> ('v \<Rightarrow> nat) \<Rightarrow> nat" where
  "map_total m f = (\<Sum>k\<in>dom m. f (the (m k)))"

lemma map_total_empty [simp]: "map_total Map.empty f = 0"
  by (simp add: map_total_def)

lemma map_total_cong_on:
  assumes "\<And>k. k \<in> A \<Longrightarrow> m k = m' k"
  shows "(\<Sum>k\<in>A. f (the (m k))) = (\<Sum>k\<in>A. f (the (m' k)))"
  using assms by (intro sum.cong) auto

lemma map_total_insert:
  assumes "finite (dom m)" "m k = None"
  shows "map_total (m(k \<mapsto> v)) f = map_total m f + f v"
proof -
  have k: "k \<notin> dom m" using assms(2) by auto
  have "(\<Sum>j\<in>dom m. f (the ((m(k \<mapsto> v)) j))) = (\<Sum>j\<in>dom m. f (the (m j)))"
    using k by (intro sum.cong) auto
  with assms(1) k show ?thesis
    by (simp add: map_total_def sum.insert)
qed

lemma map_total_delete:
  assumes "finite (dom m)" "m k = Some v"
  shows "map_total m f = map_total (m(k := None)) f + f v"
proof -
  have "m = (m(k := None))(k \<mapsto> v)" using assms(2) by auto
  moreover have "finite (dom (m(k := None)))" using assms(1) by simp
  ultimately show ?thesis
    using map_total_insert [of "m(k := None)" k v f] by simp
qed

lemma map_total_member:
  assumes "finite (dom m)" "m k = Some v"
  shows "f v \<le> map_total m f"
  using map_total_delete [OF assms, of f] by simp

lemma map_total_update:
  assumes "finite (dom m)"
  shows "map_total (m(k \<mapsto> v)) f + (case m k of None \<Rightarrow> 0 | Some u \<Rightarrow> f u) = map_total m f + f v"
proof -
  have "map_total (m(k \<mapsto> v)) f = map_total (m(k := None)) f + f v"
    using map_total_delete [of "m(k \<mapsto> v)" k v f] assms by simp
  moreover have "map_total m f = map_total (m(k := None)) f + (case m k of None \<Rightarrow> 0 | Some u \<Rightarrow> f u)"
    using map_total_delete [OF assms, of k _ f] by (cases "m k") (simp_all add: fun_upd_idem)
  ultimately show ?thesis by simp
qed

text \<open>A sum of which one summand changes.\<close>

lemma sum_change:
  fixes f g :: "'k \<Rightarrow> nat"
  assumes "finite A" "a \<in> A" "\<And>x. x \<in> A \<Longrightarrow> x \<noteq> a \<Longrightarrow> g x = f x"
  shows "sum g A + f a = sum f A + g a"
proof -
  have "sum g (A - {a}) = sum f (A - {a})" using assms(3) by (intro sum.cong) auto
  then show ?thesis by (simp add: sum.remove [OF assms(1,2)])
qed

section \<open>Reachable states\<close>

inductive reachable :: "('s \<Rightarrow> bool) \<Rightarrow> ('s \<Rightarrow> 'l \<Rightarrow> 's \<Rightarrow> bool) \<Rightarrow> 's \<Rightarrow> bool"
  for init :: "'s \<Rightarrow> bool" and step :: "'s \<Rightarrow> 'l \<Rightarrow> 's \<Rightarrow> bool"
where
  reachable_init: "init s \<Longrightarrow> reachable init step s"
| reachable_step: "reachable init step s \<Longrightarrow> step s l t \<Longrightarrow> reachable init step t"

text \<open>An inductive invariant holds in every reachable state.\<close>

locale transition_system =
  fixes init :: "'s \<Rightarrow> bool"
    and step :: "'s \<Rightarrow> 'l \<Rightarrow> 's \<Rightarrow> bool"
    and inv :: "'s \<Rightarrow> bool"
  assumes inv_init: "init s \<Longrightarrow> inv s"
    and inv_step: "inv s \<Longrightarrow> step s l t \<Longrightarrow> inv t"
begin

lemma inv_reachable: "reachable init step s \<Longrightarrow> inv s"
  by (induction rule: reachable.induct) (auto intro: inv_init inv_step)

lemma inv_steps: "(\<lambda>x y. \<exists>l. step x l y)\<^sup>*\<^sup>* s t \<Longrightarrow> inv s \<Longrightarrow> inv t"
  by (induction rule: rtranclp_induct) (auto intro: inv_step)

end

text \<open>A step relation whose every step lowers a measure while an invariant lasts: runs are bounded
  by the measure, and from every state some run comes to rest.\<close>

locale progress_system =
  fixes step :: "'s \<Rightarrow> 's \<Rightarrow> bool"
    and inv :: "'s \<Rightarrow> bool"
    and load :: "'s \<Rightarrow> nat"
  assumes inv_step: "inv s \<Longrightarrow> step s t \<Longrightarrow> inv t"
    and load_falls: "inv s \<Longrightarrow> step s t \<Longrightarrow> load t < load s"
begin

lemma run_bound: "(step ^^ n) s t \<Longrightarrow> inv s \<Longrightarrow> inv t \<and> n + load t \<le> load s"
proof (induction n arbitrary: t)
  case (Suc n)
  then obtain u where u: "(step ^^ n) s u" "step u t" by auto
  with Suc have "inv u" "n + load u \<le> load s" by auto
  with u(2) inv_step [of u t] load_falls [of u t] show ?case by simp
qed simp

lemma comes_to_rest: "inv s \<Longrightarrow> \<exists>t. step\<^sup>*\<^sup>* s t \<and> inv t \<and> (\<forall>u. \<not> step t u)"
proof (induction "load s" arbitrary: s rule: less_induct)
  case less
  show ?case
  proof (cases "\<exists>u. step s u")
    case True
    then obtain u where u: "step s u" by blast
    from less.hyps [OF load_falls [OF less.prems u] inv_step [OF less.prems u]] u
    show ?thesis by (meson converse_rtranclp_into_rtranclp)
  qed (use less.prems in blast)
qed

end

text \<open>A step relation whose every step moves the abstract view of each device along an
  abstract machine, any number of times.  What that machine preserves, the concrete
  system preserves for every device.\<close>

locale device_machine =
  fixes init :: "'s \<Rightarrow> bool"
    and step :: "'s \<Rightarrow> 'l \<Rightarrow> 's \<Rightarrow> bool"
    and view :: "'s \<Rightarrow> 'a \<Rightarrow> 'v"
    and start :: "'v \<Rightarrow> bool"
    and life :: "'v \<Rightarrow> 'v \<Rightarrow> bool"
  assumes view_init: "init s \<Longrightarrow> start (view s d)"
    and view_step: "step s l t \<Longrightarrow> life\<^sup>*\<^sup>* (view s d) (view t d)"
begin

lemma view_reachable:
  "reachable init step s \<Longrightarrow> \<exists>v0. start v0 \<and> life\<^sup>*\<^sup>* v0 (view s d)"
proof (induction rule: reachable.induct)
  case (reachable_init s)
  then show ?case by (meson rtranclp.rtrancl_refl view_init)
next
  case (reachable_step s l t)
  then show ?case by (meson rtranclp_trans view_step)
qed

lemma life_invariant:
  assumes "reachable init step s"
    and start: "\<And>v. start v \<Longrightarrow> P v"
    and life: "\<And>v w. P v \<Longrightarrow> life v w \<Longrightarrow> P w"
  shows "P (view s d)"
proof -
  obtain v0 where "start v0" "life\<^sup>*\<^sup>* v0 (view s d)"
    using view_reachable [OF assms(1)] by blast
  from this(2,1) show ?thesis
    by (induction rule: rtranclp_induct) (auto intro: start life)
qed

end

end
