(* ===== verification/Template_Pallet.thy ===== *)
theory Template_Pallet
  imports Market_Prelude
begin

text \<open>
  The template pallet (\<open>pallets/template/src/lib.rs\<close>): one optional \<open>u32\<close> in storage, a
  call that sets it and a call that increments it with \<open>checked_add\<close>.  The origin check of
  frame_system is the argument \<open>signer\<close>.
\<close>

section \<open>State, events, errors\<close>

datatype 'a template_event = SomethingStored "32 word" 'a

datatype template_error = NoneValue | StorageOverflow

record 'a template =
  something :: "32 word option"
  t_events :: "'a template_event list"

definition checked_add_u32 :: "32 word \<Rightarrow> 32 word \<Rightarrow> 32 word option" where
  "checked_add_u32 x y = (if unat x + unat y < 2 ^ 32 then Some (x + y) else None)"

section \<open>Calls\<close>

definition do_something ::
  "('o \<Rightarrow> string + 'a) \<Rightarrow> 'a template \<Rightarrow> 'o \<Rightarrow> 32 word \<Rightarrow> (template_error, 'a template) outcome" where
  "do_something signer s origin x =
     (case signer origin of
        Inl e \<Rightarrow> host_fail e s
      | Inr who \<Rightarrow> ok (s\<lparr>something := Some x, t_events := t_events s @ [SomethingStored x who]\<rparr>))"

definition cause_error ::
  "('o \<Rightarrow> string + 'a) \<Rightarrow> 'a template \<Rightarrow> 'o \<Rightarrow> (template_error, 'a template) outcome" where
  "cause_error signer s origin =
     (case signer origin of
        Inl e \<Rightarrow> host_fail e s
      | Inr _ \<Rightarrow>
          (case something s of
             None \<Rightarrow> fail NoneValue s
           | Some old \<Rightarrow>
               (case checked_add_u32 old 1 of
                  None \<Rightarrow> fail StorageOverflow s
                | Some new \<Rightarrow> ok (s\<lparr>something := Some new\<rparr>))))"

fun cause_error_times ::
  "('o \<Rightarrow> string + 'a) \<Rightarrow> 'a template \<Rightarrow> 'o list \<Rightarrow> 'a template" where
  "cause_error_times signer s [] = s"
| "cause_error_times signer s (origin # rest) =
     cause_error_times signer (snd (cause_error signer s origin)) rest"

section \<open>Lemmas\<close>

lemma checked_add_one:
  "checked_add_u32 x 1 = (if unat x = 2 ^ 32 - 1 then None else Some (x + 1))"
  using unsigned_less [of x, where ?'a = nat] by (auto simp: checked_add_u32_def)

lemma unat_max_u32: "unat (x :: 32 word) = 4294967295 \<longleftrightarrow> x = - 1"
proof -
  have "unat (- 1 :: 32 word) = 4294967295"
    by (simp add: unsigned_minus_1_eq_mask mask_eq_exp_minus_1)
  then show ?thesis by (metis word_unat_eq_iff)
qed

lemma unat_plus_one: "unat (x :: 32 word) < 2 ^ 32 - 1 \<Longrightarrow> unat (x + 1) = unat x + 1"
  by (simp add: unat_word_ariths)

lemma cause_error_value:
  assumes "signer origin = Inr who" "something s = Some x"
  shows "\<exists>y. something (snd (cause_error signer s origin)) = Some y
           \<and> unat y = min (unat x + 1) (2 ^ 32 - 1)"
proof (cases "unat x = 2 ^ 32 - 1")
  case True
  with assms show ?thesis by (simp add: cause_error_def checked_add_one)
next
  case False
  moreover have "unat x < 2 ^ 32" using unsigned_less [of x, where ?'a = nat] by simp
  ultimately have "unat x < 2 ^ 32 - 1" by linarith
  with assms False show ?thesis
    by (simp add: cause_error_def checked_add_one unat_plus_one)
qed

section \<open>Properties\<close>

datatype template_Call = template_call_do_something "32 word" | template_call_cause_error

fun template_dispatch ::
  "('o \<Rightarrow> string + 'a) \<Rightarrow> 'a template \<Rightarrow> 'o \<Rightarrow> template_Call \<Rightarrow> (template_error, 'a template) outcome" where
  "template_dispatch signer s origin (template_call_do_something x) = do_something signer s origin x"
| "template_dispatch signer s origin template_call_cause_error = cause_error signer s origin"

text \<open>A failed \<open>cause_error\<close> changes nothing.  It is \<open>NoneValue\<close> exactly when no value was
  ever stored and \<open>StorageOverflow\<close> exactly when the stored value is the largest 32-bit
  number.\<close>

theorem template_error_changes_nothing:
  assumes "cause_error signer s origin = (Inl e, s')"
  shows "s' = s \<and> (e = Module NoneValue \<longleftrightarrow> (\<exists>who. signer origin = Inr who) \<and> something s = None)
    \<and> (e = Module StorageOverflow \<longleftrightarrow>
         (\<exists>who. signer origin = Inr who) \<and> something s = Some (- 1))"
  using assms
  by (auto simp: cause_error_def checked_add_one unat_max_u32 split: result_splits)

theorem template_error_changes_nothing_witness:
  "\<exists>e s'. cause_error (\<lambda>og :: 8 word. Inr og) \<lparr>something = Some (- 1), t_events = []\<rparr> 4 = (Inl e, s')
     \<and> e = Module StorageOverflow \<and> something s' = Some (- 1)"
proof -
  obtain e s' where r: "cause_error (\<lambda>og :: 8 word. Inr og) \<lparr>something = Some (- 1), t_events = []\<rparr> 4 = (Inl e, s')"
    by (simp add: cause_error_def checked_add_one unat_max_u32)
  from r template_error_changes_nothing [OF r] show ?thesis by auto
qed

text \<open>Any number of signed \<open>cause_error\<close> calls adds that number to the stored value, and stops
  at the largest 32-bit number: the counter saturates and never wraps.\<close>

theorem cause_error_saturates:
  assumes "\<forall>origin \<in> set origins. \<exists>who. signer origin = Inr who"
    and "something s = Some x"
  shows "\<exists>y. something (cause_error_times signer s origins) = Some y
           \<and> unat y = min (unat x + length origins) (2 ^ 32 - 1)"
  using assms
proof (induction origins arbitrary: s x)
  case Nil
  then show ?case using unsigned_less [of x, where ?'a = nat] by simp
next
  case (Cons origin rest)
  from Cons.prems(1) obtain who where "signer origin = Inr who" by auto
  from cause_error_value [where signer = signer, OF this Cons.prems(2)] obtain y where
    y: "something (snd (cause_error signer s origin)) = Some y"
       "unat y = min (unat x + 1) (2 ^ 32 - 1)" by blast
  with Cons.IH [OF _ y(1)] Cons.prems(1) show ?case by auto
qed

theorem cause_error_saturates_witness:
  "\<exists>y. something (cause_error_times (\<lambda>og :: 8 word. Inr og) \<lparr>something = Some 4294967294, t_events = []\<rparr>
       [1, 2, 3]) = Some y \<and> unat y = 4294967295"
  using cause_error_saturates [of "[1, 2, 3]" "\<lambda>og :: 8 word. Inr og"
      "\<lparr>something = Some 4294967294, t_events = []\<rparr>" 4294967294]
  by (auto simp del: cause_error_times.simps)

end
