(* ===== verification/Runtime_Constants.thy ===== *)
theory Runtime_Constants
  imports Market_Prelude
begin

text \<open>
  The constants of the runtime (\<open>runtime/src/lib.rs\<close>): its version, time and balance units,
  block weights, the fee polynomial, and the table of pallets that \<open>construct_runtime!\<close>
  builds.  What comes from the framework is an argument: \<open>WEIGHT_PER_SECOND\<close>,
  \<open>ExtrinsicBaseWeight\<close> and \<open>BlockExecutionWeight\<close> as weights, \<open>Perbill::from_percent(p) * w\<close>
  as a function \<open>part\<close>, and \<open>Perbill::from_rational\<close>, in parts per billion, as a function
  \<open>from_rational\<close>.
\<close>

section \<open>Version, time and balance units\<close>

record runtime_version =
  spec_name :: string
  impl_name :: string
  authoring_version :: "32 word"
  spec_version :: "32 word"
  impl_version :: "32 word"
  transaction_version :: "32 word"

definition VERSION :: runtime_version where
  "VERSION = \<lparr>spec_name = ''template-parachain'', impl_name = ''template-parachain'',
     authoring_version = 1, spec_version = 1, impl_version = 0, transaction_version = 1\<rparr>"

type_synonym block_number = "32 word"

definition MILLISECS_PER_BLOCK :: moment where "MILLISECS_PER_BLOCK = 12000"
definition SLOT_DURATION :: moment where "SLOT_DURATION = MILLISECS_PER_BLOCK"
definition MINUTES :: block_number where "MINUTES = 60000 div ucast MILLISECS_PER_BLOCK"
definition HOURS :: block_number where "HOURS = MINUTES * 60"
definition DAYS :: block_number where "DAYS = HOURS * 24"
definition MinimumPeriod :: moment where "MinimumPeriod = SLOT_DURATION div 2"
definition Period :: block_number where "Period = 6 * HOURS"
definition Offset :: block_number where "Offset = 0"
definition SessionLength :: block_number where "SessionLength = 6 * HOURS"

definition UNIT :: balance where "UNIT = 1000000000000"
definition MILLIUNIT :: balance where "MILLIUNIT = 1000000000"
definition MICROUNIT :: balance where "MICROUNIT = 1000000"
definition EXISTENTIAL_DEPOSIT :: balance where "EXISTENTIAL_DEPOSIT = MILLIUNIT"
definition TransactionByteFee :: balance where "TransactionByteFee = 10 * MICROUNIT"

definition MinCandidates :: nat where "MinCandidates = 5"
definition MaxCandidates :: nat where "MaxCandidates = 1000"
definition MaxInvulnerables :: nat where "MaxInvulnerables = 100"
definition MaxAuthorities :: nat where "MaxAuthorities = 100000"

lemmas unit_defs = MILLISECS_PER_BLOCK_def SLOT_DURATION_def MINUTES_def HOURS_def DAYS_def
  MinimumPeriod_def Period_def Offset_def SessionLength_def UNIT_def MILLIUNIT_def MICROUNIT_def
  EXISTENTIAL_DEPOSIT_def TransactionByteFee_def

section \<open>Block weights\<close>

record class_weights =
  base_extrinsic :: weight
  max_total :: "weight option"
  reserved :: "weight option"

record block_weights =
  base_block :: weight
  normal :: class_weights
  operational :: class_weights
  mandatory :: class_weights
  avg_block_initialization :: nat

definition AVERAGE_ON_INITIALIZE_RATIO :: nat where "AVERAGE_ON_INITIALIZE_RATIO = 5"
definition NORMAL_DISPATCH_RATIO :: nat where "NORMAL_DISPATCH_RATIO = 75"

definition MAXIMUM_BLOCK_WEIGHT :: "weight \<Rightarrow> weight" where
  "MAXIMUM_BLOCK_WEIGHT weight_per_second = weight_per_second div 2"

text \<open>The builder starts from the framework's default classes, an argument.\<close>

definition RuntimeBlockWeights ::
  "(nat \<Rightarrow> weight \<Rightarrow> weight) \<Rightarrow> weight \<Rightarrow> weight \<Rightarrow> weight \<Rightarrow> block_weights \<Rightarrow> block_weights" where
  "RuntimeBlockWeights part wps block_execution extrinsic_base d =
     (let maximum = MAXIMUM_BLOCK_WEIGHT wps;
          with_base = (\<lambda>c. c\<lparr>base_extrinsic := extrinsic_base\<rparr>)
      in \<lparr>base_block = block_execution,
          normal = (with_base (normal d))\<lparr>max_total := Some (part NORMAL_DISPATCH_RATIO maximum)\<rparr>,
          operational = (with_base (operational d))
            \<lparr>max_total := Some maximum,
             reserved := Some (maximum - part NORMAL_DISPATCH_RATIO maximum)\<rparr>,
          mandatory = with_base (mandatory d),
          avg_block_initialization = AVERAGE_ON_INITIALIZE_RATIO\<rparr>)"

definition ReservedXcmpWeight :: "weight \<Rightarrow> weight" where
  "ReservedXcmpWeight wps = MAXIMUM_BLOCK_WEIGHT wps div 4"

definition ReservedDmpWeight :: "weight \<Rightarrow> weight" where
  "ReservedDmpWeight wps = MAXIMUM_BLOCK_WEIGHT wps div 4"

definition MaxDownwardMessageWeight :: "weight \<Rightarrow> weight" where
  "MaxDownwardMessageWeight wps = MAXIMUM_BLOCK_WEIGHT wps div 10"

section \<open>The fee polynomial\<close>

record coefficient =
  degree :: nat
  negative :: bool
  coeff_frac :: "32 word"
  coeff_integer :: balance

definition weight_to_fee_polynomial ::
  "(balance \<Rightarrow> balance \<Rightarrow> 32 word) \<Rightarrow> weight \<Rightarrow> coefficient list" where
  "weight_to_fee_polynomial from_rational extrinsic_base =
     (let p = MILLIUNIT div 10;
          q = 100 * ucast extrinsic_base
      in [\<lparr>degree = 1, negative = False, coeff_frac = from_rational (p mod q) q,
           coeff_integer = p div q\<rparr>])"

text \<open>What a polynomial of that form charges for a weight, before any rounding of the whole: the
  integer part of each term plus its fraction in parts per billion.\<close>

definition term_fee :: "coefficient \<Rightarrow> nat \<Rightarrow> nat" where
  "term_fee c w = unat (coeff_integer c) * w ^ degree c
     + unat (coeff_frac c) * w ^ degree c div 1000000000"

section \<open>The pallets of the runtime\<close>

datatype pallet =
  System | ParachainSystem | TimestampPallet | ParachainInfo
| Balances | TransactionPayment
| Authorship | CollatorSelection | Session | Aura | AuraExt
| XcmpQueue | PolkadotXcm | CumulusXcm | DmpQueue
| TemplatePallet | XchangePallet | XchangeService | Spambot

fun pallet_index :: "pallet \<Rightarrow> 8 word" where
  "pallet_index System = 0"
| "pallet_index ParachainSystem = 1"
| "pallet_index TimestampPallet = 2"
| "pallet_index ParachainInfo = 3"
| "pallet_index Balances = 10"
| "pallet_index TransactionPayment = 11"
| "pallet_index Authorship = 20"
| "pallet_index CollatorSelection = 21"
| "pallet_index Session = 22"
| "pallet_index Aura = 23"
| "pallet_index AuraExt = 24"
| "pallet_index XcmpQueue = 30"
| "pallet_index PolkadotXcm = 31"
| "pallet_index CumulusXcm = 32"
| "pallet_index DmpQueue = 33"
| "pallet_index TemplatePallet = 91"
| "pallet_index XchangePallet = 92"
| "pallet_index XchangeService = 93"
| "pallet_index Spambot = 94"

text \<open>The parts each pallet contributes: calls, a genesis configuration, events.\<close>

definition has_call :: "pallet \<Rightarrow> bool" where
  "has_call p \<longleftrightarrow> p \<in> {System, ParachainSystem, TimestampPallet, Balances, Authorship, CollatorSelection,
     Session, XcmpQueue, PolkadotXcm, DmpQueue, TemplatePallet, XchangePallet, XchangeService, Spambot}"

definition has_config :: "pallet \<Rightarrow> bool" where
  "has_config p \<longleftrightarrow> p \<in> {System, ParachainSystem, ParachainInfo, Balances, CollatorSelection, Session,
     Aura, AuraExt}"

definition has_event :: "pallet \<Rightarrow> bool" where
  "has_event p \<longleftrightarrow> p \<in> {System, ParachainSystem, Balances, CollatorSelection, Session, XcmpQueue,
     PolkadotXcm, CumulusXcm, DmpQueue, TemplatePallet, XchangePallet, XchangeService, Spambot}"

definition all_pallets :: "pallet list" where
  "all_pallets = [System, ParachainSystem, TimestampPallet, ParachainInfo, Balances, TransactionPayment,
     Authorship, CollatorSelection, Session, Aura, AuraExt, XcmpQueue, PolkadotXcm, CumulusXcm, DmpQueue,
     TemplatePallet, XchangePallet, XchangeService, Spambot]"

text \<open>How a call, whose encoding starts with the index of its pallet, finds it.\<close>

definition pallet_of_index :: "8 word \<Rightarrow> pallet option" where
  "pallet_of_index i = find (\<lambda>p. pallet_index p = i \<and> has_call p) all_pallets"

section \<open>Inherents\<close>

text \<open>\<open>CheckInherents\<close>: both \<open>expect\<close>s panic, here \<open>None\<close>.  Reading the relay chain's slot from a
  proof, creating the timestamp inherent from a slot and its duration in seconds, and checking
  a block against it are the framework's.\<close>

definition check_inherents ::
  "('p \<Rightarrow> 'slot option) \<Rightarrow> ('slot \<Rightarrow> nat \<Rightarrow> 'i option) \<Rightarrow> ('i \<Rightarrow> 'b \<Rightarrow> 'r) \<Rightarrow> 'b \<Rightarrow> 'p \<Rightarrow> 'r option" where
  "check_inherents read_slot inherent_from_slot check_extrinsics block relay_state_proof =
     (case read_slot relay_state_proof of
        None \<Rightarrow> None
      | Some relay_chain_slot \<Rightarrow>
     (case inherent_from_slot relay_chain_slot 6 of
        None \<Rightarrow> None
      | Some inherent_data \<Rightarrow> Some (check_extrinsics inherent_data block)))"

section \<open>Properties\<close>

text \<open>The block weights are consistent: normal extrinsics and the part reserved for operational
  ones add up to exactly the maximum of a block, which operational extrinsics may fill; every
  class charges the same base; and the weight reserved for sibling and relay messages is at
  most half of a block.\<close>

theorem block_weights_add_up:
  assumes "part 75 (wps div 2) \<le> wps div 2"
    and "RuntimeBlockWeights part wps block_execution base d = w"
  shows "\<exists>n r. max_total (normal w) = Some n \<and> reserved (operational w) = Some r
    \<and> max_total (operational w) = Some (wps div 2) \<and> unat n + unat r = unat (wps div 2)
    \<and> base_extrinsic (normal w) = base \<and> base_extrinsic (operational w) = base
    \<and> base_extrinsic (mandatory w) = base
    \<and> 2 * (unat (ReservedXcmpWeight wps) + unat (ReservedDmpWeight wps)) \<le> unat (wps div 2)"
proof -
  let ?m = "wps div 2"
  have sum: "unat (part 75 ?m) + unat (?m - part 75 ?m) = unat ?m"
    using assms(1) by (simp add: unat_sub word_le_nat_alt)
  have "unat (?m div 4) = unat ?m div 4" by (simp add: unat_div)
  then have "2 * (unat (ReservedXcmpWeight wps) + unat (ReservedDmpWeight wps)) \<le> unat ?m"
    by (simp add: ReservedXcmpWeight_def ReservedDmpWeight_def MAXIMUM_BLOCK_WEIGHT_def)
  with sum show ?thesis
    unfolding assms(2) [symmetric]
    by (simp add: RuntimeBlockWeights_def Let_def MAXIMUM_BLOCK_WEIGHT_def NORMAL_DISPATCH_RATIO_def)
qed

definition class_default :: class_weights where
  "class_default = \<lparr>base_extrinsic = 0, max_total = None, reserved = None\<rparr>"

definition weights_default :: block_weights where
  "weights_default = \<lparr>base_block = 0, normal = class_default, operational = class_default,
     mandatory = class_default, avg_block_initialization = 10\<rparr>"

theorem block_weights_add_up_witness:
  "\<exists>n r. max_total (normal (RuntimeBlockWeights (\<lambda>p w. w * of_nat p div 100) 1000000000000 5 7 weights_default))
       = Some n
     \<and> reserved (operational (RuntimeBlockWeights (\<lambda>p w. w * of_nat p div 100) 1000000000000 5 7 weights_default))
       = Some r \<and> unat n + unat r = 500000000000"
  using block_weights_add_up [of "\<lambda>p w. w * of_nat p div 100" 1000000000000 5 7 weights_default, OF _ refl]
  by auto

text \<open>The fee of the weight every extrinsic pays at least, \<open>ExtrinsicBaseWeight\<close>, is at most a
  thousandth of a \<open>MILLIUNIT\<close> and never the tenth the comment on the polynomial speaks of.\<close>

theorem base_fee_is_a_thousandth:
  assumes "0 < base"
    and "unat (from_rational (p mod q) q) * unat q \<le> unat (p mod q) * 1000000000"
    and "p = MILLIUNIT div 10" "q = 100 * ucast base"
  shows "\<exists>c. weight_to_fee_polynomial from_rational base = [c] \<and> degree c = 1 \<and> \<not> negative c
    \<and> 1000 * term_fee c (unat base) \<le> unat MILLIUNIT
    \<and> term_fee c (unat base) < unat (MILLIUNIT div 10)"
proof -
  let ?b = "unat base"
  have b: "?b < 2 ^ 64" using unsigned_less [of base, where ?'a = nat] by simp
  have "unat (ucast base :: balance) = ?b"
    using b by (simp add: unsigned_ucast_eq take_bit_nat_eq_self)
  then have q: "unat q = 100 * ?b" using b by (simp add: assms(4) unat_word_ariths)
  have p: "unat p = 100000000" by (simp add: assms(3) MILLIUNIT_def)
  let ?c = "\<lparr>degree = 1, negative = False, coeff_frac = from_rational (p mod q) q, coeff_integer = p div q\<rparr>"
  have "unat (from_rational (p mod q) q) * ?b * 100 \<le> (100000000 mod (100 * ?b)) * 1000000000"
    using assms(2) by (simp add: q p unat_mod ac_simps)
  then have "unat (from_rational (p mod q) q) * ?b div 1000000000 * 100 \<le> 100000000 mod (100 * ?b)"
    by linarith
  moreover have "(100000000 div (100 * ?b)) * ?b * 100 + 100000000 mod (100 * ?b) = (100000000 :: nat)"
    using div_mult_mod_eq [of "100000000 :: nat" "100 * ?b"] by (simp only: ac_simps)
  ultimately have "term_fee ?c ?b \<le> 1000000"
    by (simp add: term_fee_def unat_div p q)
  moreover have "weight_to_fee_polynomial from_rational base = [?c]"
    by (simp add: weight_to_fee_polynomial_def Let_def assms(3,4))
  ultimately show ?thesis by (intro exI [of _ ?c]) (simp add: MILLIUNIT_def)
qed

theorem base_fee_is_a_thousandth_witness:
  "\<exists>c. weight_to_fee_polynomial (\<lambda>n d. 8000000) 125000000 = [c]
     \<and> 1000 * term_fee c 125000000 \<le> unat MILLIUNIT"
  using base_fee_is_a_thousandth [of 125000000 "\<lambda>n d. 8000000", OF _ _ refl refl]
  by (auto simp: MILLIUNIT_def)

text \<open>The session length is six hours of blocks and a multiple of a session, the slot is twice
  the minimum distance of two timestamps, and a day of blocks is a day of milliseconds.\<close>

theorem time_units_agree:
  "unat Period * unat MILLISECS_PER_BLOCK = 6 * 60 * 60 * 1000
    \<and> SessionLength = Period \<and> unat DAYS * unat MILLISECS_PER_BLOCK = 24 * 60 * 60 * 1000
    \<and> 2 * unat MinimumPeriod = unat SLOT_DURATION
    \<and> 60000 mod unat MILLISECS_PER_BLOCK = 0"
  by (simp add: unit_defs)

text \<open>The pallet table is well formed: every pallet is listed once, indices are distinct, and
  an encoded call finds exactly the pallet it was encoded for; an index that no pallet with
  calls has finds none.\<close>

theorem pallet_table_roundtrip:
  "distinct all_pallets \<and> set all_pallets = UNIV \<and> inj pallet_index
   \<and> (\<forall>i p. pallet_of_index i = Some p \<longleftrightarrow> pallet_index p = i \<and> has_call p)"
proof -
  have all: "p \<in> set all_pallets" for p by (cases p) (simp_all add: all_pallets_def)
  have inj: "pallet_index p = pallet_index p' \<Longrightarrow> p = p'" for p p'
    by (cases p; cases p') simp_all
  have "pallet_of_index i = Some p \<longleftrightarrow> pallet_index p = i \<and> has_call p" for i p
  proof (cases "pallet_of_index i")
    case None
    then have "\<not> (pallet_index p = i \<and> has_call p)"
      using all [of p] by (auto simp: pallet_of_index_def find_None_iff)
    with None show ?thesis by simp
  next
    case (Some p')
    then have "pallet_index p' = i \<and> has_call p'" by (auto simp: pallet_of_index_def find_Some_iff)
    with inj Some show ?thesis by auto
  qed
  moreover have "distinct all_pallets" by (simp add: all_pallets_def)
  ultimately show ?thesis using all inj by (auto intro!: injI)
qed

end
