(* ===== verification/Market_Common.thy ===== *)
theory Market_Common
  imports Market_Prelude
begin

text \<open>
  The data both marketplace pallets share (\<open>pallets/common/src/lib.rs\<close>): the state of a
  device, an order as a client writes it (\<open>OrderBase\<close>, which names the device) and as
  storage keeps it (\<open>Order\<close>, which names the client and the parachain it came from), the
  two conversions, and the messages the two chains exchange.
\<close>

section \<open>Device states\<close>

datatype DeviceState = Off | Ready | Busy | Accepted | Timewait

text \<open>What the abstract machines of both pallets see of a device: its stored state, if it is
  registered, and whether an order is open on it.\<close>

type_synonym device_view = "DeviceState option \<times> bool"

definition DeviceState_default :: DeviceState where
  "DeviceState_default = Off"

section \<open>Orders\<close>

record ('a, 'd) OrderBase =
  ob_until :: moment
  ob_data :: 'd
  ob_fee :: balance
  ob_device :: 'a

record ('a, 'd) Order =
  o_until :: moment
  o_data :: 'd
  o_fee :: balance
  o_client :: 'a
  o_paraid :: para_id

definition OrderBase_convert :: "('a, 'd) OrderBase \<Rightarrow> 'a \<Rightarrow> ('a, 'd) Order" where
  "OrderBase_convert self client =
     \<lparr>o_until = ob_until self, o_data = ob_data self, o_fee = ob_fee self,
      o_client = client, o_paraid = 0\<rparr>"

definition Order_convert :: "('a, 'd) Order \<Rightarrow> 'a \<Rightarrow> ('a, 'd) OrderBase" where
  "Order_convert self device =
     \<lparr>ob_until = o_until self, ob_data = o_data self, ob_fee = o_fee self,
      ob_device = device\<rparr>"

section \<open>Messages between the client chain and the service chain\<close>

datatype ('a, 'd) XCMPMessage =
  NewOrder 'a "('a, 'd) OrderBase"
| OrderAccept 'a 'a
| OrderReject 'a 'a bool
| OrderDone 'a 'a bool

section \<open>Conversions\<close>

lemma OrderBase_convert_simps [simp]:
  "o_until (OrderBase_convert ob c) = ob_until ob"
  "o_data (OrderBase_convert ob c) = ob_data ob"
  "o_fee (OrderBase_convert ob c) = ob_fee ob"
  "o_client (OrderBase_convert ob c) = c"
  "o_paraid (OrderBase_convert ob c) = 0"
  by (simp_all add: OrderBase_convert_def)

lemma Order_convert_simps [simp]:
  "ob_until (Order_convert oo d) = o_until oo"
  "ob_data (Order_convert oo d) = o_data oo"
  "ob_fee (Order_convert oo d) = o_fee oo"
  "ob_device (Order_convert oo d) = d"
  by (simp_all add: Order_convert_def)

lemma Order_convert_inverse [simp]:
  "Order_convert (OrderBase_convert ob c) (ob_device ob) = ob"
  by (simp add: Order_convert_def OrderBase_convert_def)

end
