(* ===== verification/Host_Interface.thy ===== *)
theory Host_Interface
  imports Market_Common
begin

text \<open>
  The code outside this repository that the pallets call, as a record of functions over
  the rest of the chain's storage, type \<open>'w\<close>: \<open>ensure_signed\<close> of frame_system on origins
  \<open>'o\<close>, the clock of pallet_timestamp, the \<open>ReservableCurrency\<close> trait behind
  \<open>T::Currency\<close>, the SCALE codec derived for \<open>XCMPMessage\<close>, and \<open>T::XcmpMessageSender\<close>.
  The pallets never look inside \<open>'w\<close>.  \<open>free_balance\<close> and \<open>reserved_balance\<close> are the
  trait's observers, read as natural numbers; only statements use them.

  \<open>currency_laws\<close> states the documented behaviour of those functions.  The ledger at the
  end of the theory is a concrete host that satisfies every law, so that no theorem with
  such a hypothesis is empty.
\<close>

section \<open>XCM values the pallets build\<close>

datatype junction = Parent | Parachain para_id

datatype origin_kind = Native | SovereignAccount | Superuser | XcmKind

datatype instruction = Transact origin_kind weight bytes

type_synonym xcm = "instruction list"
type_synonym destination = "junction \<times> junction"

text \<open>Where \<open>repatriate_reserved\<close> puts the funds.\<close>

datatype balance_status = Free | Reserved

section \<open>The host\<close>

record ('o, 'a, 'd, 'w) host =
  ensure_signed :: "'o \<Rightarrow> string + 'a"
  timestamp_get :: "'w \<Rightarrow> moment"
  can_reserve :: "'w \<Rightarrow> 'a \<Rightarrow> balance \<Rightarrow> bool"
  reserve :: "'w \<Rightarrow> 'a \<Rightarrow> balance \<Rightarrow> (string + unit) \<times> 'w"
  unreserve :: "'w \<Rightarrow> 'a \<Rightarrow> balance \<Rightarrow> balance \<times> 'w"
  repatriate_reserved ::
    "'w \<Rightarrow> 'a \<Rightarrow> 'a \<Rightarrow> balance \<Rightarrow> balance_status \<Rightarrow> (string + balance) \<times> 'w"
  encode_message :: "('a, 'd) XCMPMessage \<Rightarrow> bytes"
  decode_message :: "bytes \<Rightarrow> string + ('a, 'd) XCMPMessage"
  encode_i32s :: "32 word list \<Rightarrow> bytes"
  send_xcm :: "'w \<Rightarrow> destination \<Rightarrow> xcm \<Rightarrow> (string + unit) \<times> 'w"
  free_balance :: "'w \<Rightarrow> 'a \<Rightarrow> nat"
  reserved_balance :: "'w \<Rightarrow> 'a \<Rightarrow> nat"

section \<open>Documented laws of the currency\<close>

text \<open>What a call moves: \<open>n\<close> units from the free to the reserved side of one account, back,
  or from the reserved side of one account to the free side of another.  The clock is
  never touched.\<close>

definition same_funds :: "('o, 'a, 'd, 'w) host \<Rightarrow> 'w \<Rightarrow> 'w \<Rightarrow> bool" where
  "same_funds H w w' \<longleftrightarrow> free_balance H w' = free_balance H w
     \<and> reserved_balance H w' = reserved_balance H w
     \<and> timestamp_get H w' = timestamp_get H w"

definition moved_to_reserved :: "('o, 'a, 'd, 'w) host \<Rightarrow> 'w \<Rightarrow> 'a \<Rightarrow> nat \<Rightarrow> 'w \<Rightarrow> bool" where
  "moved_to_reserved H w a n w' \<longleftrightarrow>
     n \<le> free_balance H w a
     \<and> free_balance H w' = (free_balance H w)(a := free_balance H w a - n)
     \<and> reserved_balance H w' = (reserved_balance H w)(a := reserved_balance H w a + n)
     \<and> timestamp_get H w' = timestamp_get H w"

definition moved_from_reserved ::
  "('o, 'a, 'd, 'w) host \<Rightarrow> 'w \<Rightarrow> 'a \<Rightarrow> 'a \<Rightarrow> nat \<Rightarrow> 'w \<Rightarrow> bool" where
  "moved_from_reserved H w a b n w' \<longleftrightarrow>
     n \<le> reserved_balance H w a
     \<and> free_balance H w' = (free_balance H w)(b := free_balance H w b + n)
     \<and> reserved_balance H w' = (reserved_balance H w)(a := reserved_balance H w a - n)
     \<and> timestamp_get H w' = timestamp_get H w"

definition currency_laws :: "('o, 'a, 'd, 'w) host \<Rightarrow> bool" where
  "currency_laws H \<longleftrightarrow>
     (\<forall>w a v. can_reserve H w a v \<longleftrightarrow> (\<exists>w'. reserve H w a v = (Inr (), w')))
   \<and> (\<forall>w a v w'. reserve H w a v = (Inr (), w') \<longrightarrow> moved_to_reserved H w a (unat v) w')
   \<and> (\<forall>w a v e w'. reserve H w a v = (Inl e, w') \<longrightarrow> same_funds H w w')
   \<and> (\<forall>w a v r w'. unreserve H w a v = (r, w') \<longrightarrow>
        moved_from_reserved H w a a (min (unat v) (reserved_balance H w a)) w')
   \<and> (\<forall>w a b v r w'. repatriate_reserved H w a b v Free = (Inr r, w') \<longrightarrow>
        moved_from_reserved H w a b (min (unat v) (reserved_balance H w a)) w')
   \<and> (\<forall>w a b v e w'. repatriate_reserved H w a b v Free = (Inl e, w') \<longrightarrow> same_funds H w w')
   \<and> (\<forall>w d x r w'. send_xcm H w d x = (r, w') \<longrightarrow> same_funds H w w')"

lemma can_reserve_iff:
  "currency_laws H \<Longrightarrow> can_reserve H w a v \<longleftrightarrow> (\<exists>w'. reserve H w a v = (Inr (), w'))"
  by (simp only: currency_laws_def)

lemma reserve_ok:
  "currency_laws H \<Longrightarrow> reserve H w a v = (Inr (), w') \<Longrightarrow> moved_to_reserved H w a (unat v) w'"
  by (simp only: currency_laws_def)

lemma reserve_err:
  "currency_laws H \<Longrightarrow> reserve H w a v = (Inl e, w') \<Longrightarrow> same_funds H w w'"
  by (simp only: currency_laws_def)

lemma unreserve_moves:
  "currency_laws H \<Longrightarrow> unreserve H w a v = (r, w') \<Longrightarrow>
     moved_from_reserved H w a a (min (unat v) (reserved_balance H w a)) w'"
  by (simp only: currency_laws_def)

lemma repatriate_ok:
  "currency_laws H \<Longrightarrow> repatriate_reserved H w a b v Free = (Inr r, w') \<Longrightarrow>
     moved_from_reserved H w a b (min (unat v) (reserved_balance H w a)) w'"
  by (simp only: currency_laws_def)

lemma repatriate_err:
  "currency_laws H \<Longrightarrow> repatriate_reserved H w a b v Free = (Inl e, w') \<Longrightarrow> same_funds H w w'"
  by (simp only: currency_laws_def)

lemma send_same:
  "currency_laws H \<Longrightarrow> send_xcm H w d x = (r, w') \<Longrightarrow> same_funds H w w'"
  by (simp only: currency_laws_def)

lemmas currency_facts =
  reserve_ok reserve_err unreserve_moves repatriate_ok repatriate_err send_same

lemmas funds_defs = same_funds_def moved_to_reserved_def moved_from_reserved_def

text \<open>Funds are neither made nor burnt: what one account gains another loses.\<close>

definition holdings :: "('o, 'a, 'd, 'w) host \<Rightarrow> 'w \<Rightarrow> 'a \<Rightarrow> nat" where
  "holdings H w a = free_balance H w a + reserved_balance H w a"

lemma holdings_same_funds: "same_funds H w w' \<Longrightarrow> holdings H w' a = holdings H w a"
  by (simp add: same_funds_def holdings_def)

lemma holdings_to_reserved: "moved_to_reserved H w b n w' \<Longrightarrow> holdings H w' a = holdings H w a"
  by (auto simp: moved_to_reserved_def holdings_def)

lemma holdings_unreserved: "moved_from_reserved H w b b n w' \<Longrightarrow> holdings H w' a = holdings H w a"
  by (auto simp: moved_from_reserved_def holdings_def)

lemma holdings_sum_from_reserved:
  assumes "moved_from_reserved H w b c n w'" "finite A" "b \<in> A" "c \<in> A"
  shows "(\<Sum>a\<in>A. holdings H w' a) = (\<Sum>a\<in>A. holdings H w a)"
proof -
  have f: "free_balance H w' = (free_balance H w)(c := free_balance H w c + n)"
    and r: "reserved_balance H w' = (reserved_balance H w)(b := reserved_balance H w b - n)"
    and n: "n \<le> reserved_balance H w b"
    using assms(1) by (auto simp: moved_from_reserved_def)
  have "(\<Sum>a\<in>A. free_balance H w' a) = (\<Sum>a\<in>A. free_balance H w a) + n"
    using assms(2,4) by (simp add: f sum.remove [of A c])
  moreover have "(\<Sum>a\<in>A. reserved_balance H w' a) + n = (\<Sum>a\<in>A. reserved_balance H w a)"
    using assms(2,3) n by (simp add: r sum.remove [of A b])
  ultimately show ?thesis by (simp add: holdings_def sum.distrib)
qed

section \<open>Documented law of the codec\<close>

definition codec_laws :: "('o, 'a, 'd, 'w) host \<Rightarrow> bool" where
  "codec_laws H \<longleftrightarrow> (\<forall>m. decode_message H (encode_message H m) = Inr m)"

lemma decode_encode: "codec_laws H \<Longrightarrow> decode_message H (encode_message H m) = Inr m"
  by (simp add: codec_laws_def)

section \<open>A concrete host\<close>

text \<open>Balances in two maps, a clock and the list of sent messages.  Accounts and payloads
  are numbers below 256; an origin is the signer, if any.\<close>

record ledger =
  l_free :: "8 word \<Rightarrow> nat"
  l_reserved :: "8 word \<Rightarrow> nat"
  l_now :: moment
  l_outbox :: "(destination \<times> xcm) list"

definition ledger_reserve :: "ledger \<Rightarrow> 8 word \<Rightarrow> balance \<Rightarrow> (string + unit) \<times> ledger" where
  "ledger_reserve w a v =
     (if unat v \<le> l_free w a
      then (Inr (), w\<lparr>l_free := (l_free w)(a := l_free w a - unat v),
                      l_reserved := (l_reserved w)(a := l_reserved w a + unat v)\<rparr>)
      else (Inl ''InsufficientBalance'', w))"

definition ledger_move :: "ledger \<Rightarrow> 8 word \<Rightarrow> 8 word \<Rightarrow> balance \<Rightarrow> balance \<times> ledger" where
  "ledger_move w a b v =
     (let n = min (unat v) (l_reserved w a)
      in (v - word_of_nat n,
          w\<lparr>l_free := (l_free w)(b := l_free w b + n),
            l_reserved := (l_reserved w)(a := l_reserved w a - n)\<rparr>))"

definition ledger_repatriate ::
  "ledger \<Rightarrow> 8 word \<Rightarrow> 8 word \<Rightarrow> balance \<Rightarrow> balance_status \<Rightarrow> (string + balance) \<times> ledger" where
  "ledger_repatriate w a b v st =
     (if l_free w b = 0 \<and> l_reserved w b = 0 then (Inl ''DeadAccount'', w)
      else case st of
        Free \<Rightarrow> (case ledger_move w a b v of (r, w') \<Rightarrow> (Inr r, w'))
      | Reserved \<Rightarrow> (Inl ''NotUsed'', w))"

fun le_bytes :: "nat \<Rightarrow> nat \<Rightarrow> bytes" where
  "le_bytes 0 n = []"
| "le_bytes (Suc k) n = word_of_nat n # le_bytes k (n div 256)"

fun le_value :: "bytes \<Rightarrow> nat" where
  "le_value [] = 0"
| "le_value (b # bs) = unat b + 256 * le_value bs"

lemma length_le_bytes [simp]: "length (le_bytes k n) = k"
  by (induction k arbitrary: n) auto

lemma le_value_le_bytes: "n < 256 ^ k \<Longrightarrow> le_value (le_bytes k n) = n"
proof (induction k arbitrary: n)
  case 0
  then show ?case by simp
next
  case (Suc k)
  then have "n div 256 < 256 ^ k" by (simp add: less_mult_imp_div_less mult.commute)
  then show ?case by (simp add: Suc.IH unat_of_nat)
qed

fun ledger_encode :: "(8 word, 8 word) XCMPMessage \<Rightarrow> bytes" where
  "ledger_encode (NewOrder c ob) =
     [0, c, ob_device ob, ob_data ob] @ le_bytes 8 (unat (ob_until ob)) @ le_bytes 16 (unat (ob_fee ob))"
| "ledger_encode (OrderAccept c d) = [1, c, d]"
| "ledger_encode (OrderReject c d b) = [2, c, d, of_bool b]"
| "ledger_encode (OrderDone c d b) = [3, c, d, of_bool b]"

definition ledger_decode :: "bytes \<Rightarrow> string + (8 word, 8 word) XCMPMessage" where
  "ledger_decode bs =
     (case bs of
        [t, c, d] \<Rightarrow> if t = 1 then Inr (OrderAccept c d) else Inl ''Error''
      | [t, c, d, b] \<Rightarrow>
          if t = 2 then Inr (OrderReject c d (b = 1))
          else if t = 3 then Inr (OrderDone c d (b = 1)) else Inl ''Error''
      | t # c # d # x # rest \<Rightarrow>
          if t = 0 \<and> length rest = 24
          then Inr (NewOrder c \<lparr>ob_until = word_of_nat (le_value (take 8 rest)), ob_data = x,
                                ob_fee = word_of_nat (le_value (drop 8 rest)), ob_device = d\<rparr>)
          else Inl ''Error''
      | _ \<Rightarrow> Inl ''Error'')"

definition ledger_host :: "(8 word option, 8 word, 8 word, ledger) host" where
  "ledger_host =
     \<lparr>ensure_signed = (\<lambda>og. case og of None \<Rightarrow> Inl ''BadOrigin'' | Some a \<Rightarrow> Inr a),
      timestamp_get = l_now,
      can_reserve = (\<lambda>w a v. unat v \<le> l_free w a),
      reserve = ledger_reserve,
      unreserve = (\<lambda>w a v. ledger_move w a a v),
      repatriate_reserved = ledger_repatriate,
      encode_message = ledger_encode,
      decode_message = ledger_decode,
      encode_i32s = (\<lambda>xs. map ucast xs),
      send_xcm = (\<lambda>w d x. (Inr (), w\<lparr>l_outbox := l_outbox w @ [(d, x)]\<rparr>)),
      free_balance = l_free,
      reserved_balance = l_reserved\<rparr>"

lemma ledger_host_sel [simp]:
  "ensure_signed ledger_host (Some a) = Inr a"
  "ensure_signed ledger_host None = Inl ''BadOrigin''"
  "timestamp_get ledger_host = l_now"
  "can_reserve ledger_host w a v = (unat v \<le> l_free w a)"
  "reserve ledger_host = ledger_reserve"
  "unreserve ledger_host w a v = ledger_move w a a v"
  "repatriate_reserved ledger_host = ledger_repatriate"
  "encode_message ledger_host = ledger_encode"
  "decode_message ledger_host = ledger_decode"
  "send_xcm ledger_host w dst x = (Inr (), w\<lparr>l_outbox := l_outbox w @ [(dst, x)]\<rparr>)"
  "free_balance ledger_host = l_free"
  "reserved_balance ledger_host = l_reserved"
  by (simp_all add: ledger_host_def)

lemma ledger_laws: "currency_laws ledger_host"
  unfolding currency_laws_def
  by (intro conjI allI impI)
    (auto simp: ledger_reserve_def ledger_move_def ledger_repatriate_def funds_defs Let_def
      split: if_splits)

lemma le_value_word [simp]:
  "word_of_nat (le_value (le_bytes 8 (unat (x :: moment)))) = x"
  "word_of_nat (le_value (le_bytes 16 (unat (y :: balance)))) = y"
  using unsigned_less [of x, where ?'a = nat] unsigned_less [of y, where ?'a = nat] by (simp_all add: le_value_le_bytes)

lemma ledger_decode_new_order:
  "length rest = 24 \<Longrightarrow> ledger_decode (0 # c # d # x # rest) =
     Inr (NewOrder c \<lparr>ob_until = word_of_nat (le_value (take 8 rest)), ob_data = x,
                       ob_fee = word_of_nat (le_value (drop 8 rest)), ob_device = d\<rparr>)"
  by (cases rest) (auto simp: ledger_decode_def)

lemma ledger_codec: "codec_laws ledger_host"
  unfolding codec_laws_def
proof
  fix m
  show "decode_message ledger_host (encode_message ledger_host m) = Inr m"
  proof (cases m)
    case (NewOrder c ob)
    show ?thesis by (simp add: NewOrder ledger_decode_new_order)
  qed (simp_all add: ledger_decode_def)
qed

end
