(* ===== verification/Xchange_Pallet.thy ===== *)
theory Xchange_Pallet
  imports Host_Interface
begin

text \<open>
  The client-side pallet (\<open>pallets/xchange/src/lib.rs\<close>).  A client orders a device of
  another parachain: the pallet reserves the device's penalty and the client's fee, stores
  the order and sends it away; the answers come back as messages.  Storage is two maps, the
  event log and \<open>world\<close>, everything the rest of the chain keeps.  One definition models one
  function; its branches are the source's guards in the source's order.
\<close>

section \<open>State, events, errors\<close>

record xc_DeviceProfile =
  xp_penalty :: balance
  xp_wcd :: moment
  xp_para_id :: para_id
  xp_state :: DeviceState

datatype 'a xc_Event =
  XNewDevice 'a
| XNewOrder 'a 'a
| XAccept 'a 'a
| XReject 'a 'a
| XDone 'a 'a
| XBadVersion "256 word"

datatype xc_Error =
  XNoneValue | XOrderExists | XIllegalState | XOverdue | XDeviceLowBail | XDeviceExists
| XBadOrderDetails | XNoDevice | XNoOrder | XProhibited | XCannotReachDestination

record ('a, 'd, 'w) xchange =
  xDevice :: "'a \<rightharpoonup> xc_DeviceProfile"
  xOrders :: "'a \<rightharpoonup> ('a, 'd) Order"
  xEvents :: "'a xc_Event list"
  xWorld :: 'w

definition xc_deposit_event :: "'a xc_Event \<Rightarrow> ('a, 'd, 'w) xchange \<Rightarrow> ('a, 'd, 'w) xchange" where
  "xc_deposit_event e s = s\<lparr>xEvents := xEvents s @ [e]\<rparr>"

section \<open>Calls\<close>

text \<open>\<open>test\<close> sends a fixed two-number call to parachain 200.  It never looks at its origin.\<close>

definition xc_test ::
  "('o, 'a, 'd, 'w) host \<Rightarrow> ('a, 'd, 'w) xchange \<Rightarrow> 'o \<Rightarrow> (xc_Error, ('a, 'd, 'w) xchange) outcome" where
  "xc_test H s origin =
     (let dest = (Parent, Parachain 200);
          call = encode_i32s H [0x00, 0x20];
          message = [Transact Native 0 call]
      in case send_xcm H (xWorld s) dest message of
           (Inl _, w) \<Rightarrow> fail XCannotReachDestination (s\<lparr>xWorld := w\<rparr>)
         | (Inr _, w) \<Rightarrow> ok (s\<lparr>xWorld := w\<rparr>))"

text \<open>The message that carries an order to the device's parachain.  Its send result is
  dropped by \<open>order\<close>.\<close>

definition xc_order_message ::
  "('o, 'a, 'd, 'w) host \<Rightarrow> 'a \<Rightarrow> ('a, 'd) OrderBase \<Rightarrow> para_id \<Rightarrow> destination \<times> xcm" where
  "xc_order_message H who ob pid =
     (let msg = NewOrder who ob;
          dest = (Parent, Parachain pid);
          call = encode_message H msg
      in (dest, [Transact Native 0 call]))"

text \<open>The part of \<open>order\<close> after both reservations have succeeded.\<close>

definition xc_place_order ::
  "('o, 'a, 'd, 'w) host \<Rightarrow> ('a, 'd, 'w) xchange \<Rightarrow> 'a \<Rightarrow> ('a, 'd) OrderBase \<Rightarrow> xc_DeviceProfile
     \<Rightarrow> ('a, 'd, 'w) xchange" where
  "xc_place_order H s who ob dev =
     (let device = ob_device ob;
          stored = OrderBase_convert ob who;
          s = s\<lparr>xOrders := (xOrders s)(device \<mapsto> stored)\<rparr>;
          ob = Order_convert stored device;
          (dest, message) = xc_order_message H who ob (xp_para_id dev);
          s = s\<lparr>xWorld := snd (send_xcm H (xWorld s) dest message)\<rparr>;
          dev = dev\<lparr>xp_state := Busy\<rparr>;
          s = s\<lparr>xDevice := (xDevice s)(device \<mapsto> dev)\<rparr>
      in xc_deposit_event (XNewOrder who device) s)"

definition xc_order ::
  "('o, 'a, 'd, 'w) host \<Rightarrow> ('a, 'd, 'w) xchange \<Rightarrow> 'o \<Rightarrow> ('a, 'd) OrderBase
     \<Rightarrow> (xc_Error, ('a, 'd, 'w) xchange) outcome" where
  "xc_order H s origin ob =
     (case ensure_signed H origin of
        Inl e \<Rightarrow> host_fail e s
      | Inr who \<Rightarrow>
     (let now = timestamp_get H (xWorld s) in
      if ob_until ob \<le> now then fail XOverdue s
      else if xOrders s (ob_device ob) \<noteq> None then fail XIllegalState s
      else case xDevice s (ob_device ob) of
        None \<Rightarrow> fail XNoDevice s
      | Some dev \<Rightarrow>
      if xp_state dev \<noteq> Ready then fail XIllegalState s
      else if ob_until ob < now + xp_wcd dev then fail XBadOrderDetails s
      else if \<not> can_reserve H (xWorld s) who (ob_fee ob) then fail XDeviceLowBail s
      else case reserve H (xWorld s) (ob_device ob) (xp_penalty dev) of
        (Inl e, w1) \<Rightarrow> host_fail e (s\<lparr>xWorld := w1\<rparr>)
      | (Inr _, w1) \<Rightarrow>
     (case reserve H w1 who (ob_fee ob) of
        (Inl e, w2) \<Rightarrow> host_fail e (s\<lparr>xWorld := w2\<rparr>)
      | (Inr _, w2) \<Rightarrow> ok (xc_place_order H (s\<lparr>xWorld := w2\<rparr>) who ob dev))))"

definition xc_order_reject ::
  "('o, 'a, 'd, 'w) host \<Rightarrow> ('a, 'd, 'w) xchange \<Rightarrow> 'a \<Rightarrow> ('a, 'd) Order \<Rightarrow> moment \<Rightarrow> 'a
     \<Rightarrow> xc_DeviceProfile \<Rightarrow> (xc_Error, ('a, 'd, 'w) xchange) outcome" where
  "xc_order_reject H s who order now device dev =
     (let w1 = snd (unreserve H (xWorld s) who (o_fee order));
          paid = (if now < o_until order
                  then (Inr 0, snd (unreserve H w1 device (xp_penalty dev)))
                  else repatriate_reserved H w1 device (o_client order) (xp_penalty dev) Free)
      in case paid of
           (Inl e, w2) \<Rightarrow> host_fail e (s\<lparr>xWorld := w2\<rparr>)
         | (Inr _, w2) \<Rightarrow>
             ok (xc_deposit_event (XReject who device)
                  (s\<lparr>xWorld := w2,
                     xOrders := (xOrders s)(device := None),
                     xDevice := (xDevice s)(device \<mapsto> dev)\<rparr>)))"

definition xc_cancel ::
  "('o, 'a, 'd, 'w) host \<Rightarrow> ('a, 'd, 'w) xchange \<Rightarrow> 'o \<Rightarrow> 'a
     \<Rightarrow> (xc_Error, ('a, 'd, 'w) xchange) outcome" where
  "xc_cancel H s origin device =
     (case ensure_signed H origin of
        Inl e \<Rightarrow> host_fail e s
      | Inr who \<Rightarrow>
     (case xOrders s device of
        None \<Rightarrow> fail XNoOrder s
      | Some order \<Rightarrow>
     (let now = timestamp_get H (xWorld s) in
      if now < o_until order \<or> o_client order \<noteq> who then fail XProhibited s
      else case xDevice s device of
        None \<Rightarrow> fail XNoDevice s
      | Some dev \<Rightarrow> xc_order_reject H s who order now device dev)))"

definition xc_register ::
  "('o, 'a, 'd, 'w) host \<Rightarrow> ('a, 'd, 'w) xchange \<Rightarrow> 'o \<Rightarrow> para_id \<Rightarrow> balance \<Rightarrow> moment \<Rightarrow> bool
     \<Rightarrow> (xc_Error, ('a, 'd, 'w) xchange) outcome" where
  "xc_register H s origin paraid penalty wcd onoff =
     (case ensure_signed H origin of
        Inl e \<Rightarrow> host_fail e s
      | Inr who \<Rightarrow>
      if xOrders s who \<noteq> None then fail XDeviceExists s
      else ok (xc_deposit_event (XNewDevice who)
             (s\<lparr>xDevice := (xDevice s)(who \<mapsto>
                  \<lparr>xp_penalty = penalty, xp_wcd = wcd, xp_para_id = paraid,
                   xp_state = (if onoff then Ready else Off)\<rparr>)\<rparr>)))"

section \<open>Answers of the service chain\<close>

definition xc_on_accept ::
  "('a, 'd, 'w) xchange \<Rightarrow> 'a \<Rightarrow> 'a \<Rightarrow> (xc_Error, ('a, 'd, 'w) xchange) outcome" where
  "xc_on_accept s who device = ok (xc_deposit_event (XAccept who device) s)"

definition xc_on_reject ::
  "('o, 'a, 'd, 'w) host \<Rightarrow> ('a, 'd, 'w) xchange \<Rightarrow> 'a \<Rightarrow> 'a \<Rightarrow> bool
     \<Rightarrow> (xc_Error, ('a, 'd, 'w) xchange) outcome" where
  "xc_on_reject H s who device onoff =
     (case xOrders s device of
        None \<Rightarrow> fail XNoOrder s
      | Some order \<Rightarrow>
     (let now = timestamp_get H (xWorld s) in
      case xDevice s device of
        None \<Rightarrow> fail XNoDevice s
      | Some dev \<Rightarrow>
          xc_order_reject H s who order now device
            (dev\<lparr>xp_state := (if \<not> onoff then Off else Ready)\<rparr>)))"

definition xc_on_done ::
  "('o, 'a, 'd, 'w) host \<Rightarrow> ('a, 'd, 'w) xchange \<Rightarrow> 'a \<Rightarrow> 'a \<Rightarrow> bool
     \<Rightarrow> (xc_Error, ('a, 'd, 'w) xchange) outcome" where
  "xc_on_done H s who device onoff =
     (case xOrders s device of
        None \<Rightarrow> fail XNoOrder s
      | Some order \<Rightarrow>
     (let now = timestamp_get H (xWorld s) in
      case xDevice s device of
        None \<Rightarrow> fail XNoDevice s
      | Some dev \<Rightarrow>
     (case repatriate_reserved H (xWorld s) who device (o_fee order) Free of
        (Inl e, w1) \<Rightarrow> host_fail e (s\<lparr>xWorld := w1\<rparr>)
      | (Inr _, w1) \<Rightarrow>
     (let paid = (if now < o_until order
                  then (Inr 0, snd (unreserve H w1 device (xp_penalty dev)))
                  else repatriate_reserved H w1 device who (xp_penalty dev) Free)
      in case paid of
           (Inl e, w2) \<Rightarrow> host_fail e (s\<lparr>xWorld := w2\<rparr>)
         | (Inr _, w2) \<Rightarrow>
             ok (xc_deposit_event (XDone who device)
                  (s\<lparr>xWorld := w2,
                     xOrders := (xOrders s)(device := None),
                     xDevice := (xDevice s)(device \<mapsto>
                       dev\<lparr>xp_state := (if \<not> onoff then Off else Ready)\<rparr>)\<rparr>))))))"

section \<open>Hooks\<close>

definition xc_on_killed_account :: "('a, 'd, 'w) xchange \<Rightarrow> 'a \<Rightarrow> ('a, 'd, 'w) xchange" where
  "xc_on_killed_account s who =
     (case xDevice s who of
        None \<Rightarrow> s
      | Some dev \<Rightarrow>
          if xp_state dev = Off then s\<lparr>xDevice := (xDevice s)(who := None)\<rparr>
          else s\<lparr>xDevice := (xDevice s)(who \<mapsto> dev\<lparr>xp_state := Timewait\<rparr>)\<rparr>)"

text \<open>One delivered message; \<open>None\<close> where the source returns weight 0 at once.  The
  handlers' results are dropped.\<close>

definition xc_handle_one ::
  "('o, 'a, 'd, 'w) host \<Rightarrow> ('a, 'd, 'w) xchange \<Rightarrow> bytes \<Rightarrow> ('a, 'd, 'w) xchange option" where
  "xc_handle_one H s data =
     (case decode_message H data of
        Inl e \<Rightarrow> None
      | Inr (OrderAccept client devid) \<Rightarrow> Some (snd (xc_on_accept s client devid))
      | Inr (OrderReject client devid onoff) \<Rightarrow> Some (snd (xc_on_reject H s client devid onoff))
      | Inr (OrderDone client devid onoff) \<Rightarrow> Some (snd (xc_on_done H s client devid onoff))
      | Inr (NewOrder _ _) \<Rightarrow> Some s)"

fun xc_handle_xcmp_messages ::
  "('o, 'a, 'd, 'w) host \<Rightarrow> ('a, 'd, 'w) xchange \<Rightarrow> (para_id \<times> 32 word \<times> bytes) list \<Rightarrow> weight
     \<Rightarrow> weight \<times> ('a, 'd, 'w) xchange" where
  "xc_handle_xcmp_messages H s [] max_weight = (max_weight, s)"
| "xc_handle_xcmp_messages H s ((sender, sent_at, data) # rest) max_weight =
     (case xc_handle_one H s data of
        None \<Rightarrow> (0, s)
      | Some s' \<Rightarrow> xc_handle_xcmp_messages H s' rest max_weight)"

text \<open>The call enum of the pallet and its dispatch.\<close>

datatype ('a, 'd) xc_Call =
  xc_call_test
| xc_call_order "('a, 'd) OrderBase"
| xc_call_cancel 'a
| xc_call_register para_id balance moment bool

fun xc_dispatch ::
  "('o, 'a, 'd, 'w) host \<Rightarrow> ('a, 'd, 'w) xchange \<Rightarrow> 'o \<Rightarrow> ('a, 'd) xc_Call
     \<Rightarrow> (xc_Error, ('a, 'd, 'w) xchange) outcome" where
  "xc_dispatch H s origin xc_call_test = xc_test H s origin"
| "xc_dispatch H s origin (xc_call_order ob) = xc_order H s origin ob"
| "xc_dispatch H s origin (xc_call_cancel device) = xc_cancel H s origin device"
| "xc_dispatch H s origin (xc_call_register paraid penalty wcd onoff) =
     xc_register H s origin paraid penalty wcd onoff"

declare xc_test_def [op_defs] xc_order_def [op_defs] xc_place_order_def [op_defs]
  xc_order_reject_def [op_defs] xc_cancel_def [op_defs] xc_register_def [op_defs]
  xc_on_accept_def [op_defs] xc_on_reject_def [op_defs] xc_on_done_def [op_defs]
  xc_on_killed_account_def [op_defs] xc_deposit_event_def [op_defs]

end
