(* ===== verification/Xchange_Safety.thy ===== *)
theory Xchange_Safety
  imports Xchange_Pallet
begin

text \<open>
  The client-side pallet as a state machine: one labelled step relation over its calls, its
  message handler, its account hook and everything the rest of the chain does to its own
  storage; the life of a device as an abstract machine that every step follows; and the
  invariants of the reachable states.
\<close>

section \<open>Steps\<close>

datatype ('o, 'a, 'd) xc_label =
  XCall 'o "('a, 'd) xc_Call"
| XDeliver "(para_id \<times> 32 word \<times> bytes) list" weight
| XKilled 'a
| XEnvironment

inductive xc_step ::
  "('o, 'a, 'd, 'w) host \<Rightarrow> ('a, 'd, 'w) xchange \<Rightarrow> ('o, 'a, 'd) xc_label
     \<Rightarrow> ('a, 'd, 'w) xchange \<Rightarrow> bool"
  for H :: "('o, 'a, 'd, 'w) host"
where
  xstep_call: "xc_step H s (XCall origin c) (snd (xc_dispatch H s origin c))"
| xstep_deliver: "xc_step H s (XDeliver msgs w) (snd (xc_handle_xcmp_messages H s msgs w))"
| xstep_killed: "xc_step H s (XKilled a) (xc_on_killed_account s a)"
| xstep_environment: "xc_step H s XEnvironment (s\<lparr>xWorld := v\<rparr>)"

inductive_cases xc_step_callE [elim!]: "xc_step H s (XCall origin c) t"
inductive_cases xc_step_deliverE [elim!]: "xc_step H s (XDeliver msgs w) t"
inductive_cases xc_step_killedE [elim!]: "xc_step H s (XKilled a) t"
inductive_cases xc_step_environmentE [elim!]: "xc_step H s XEnvironment t"

inductive_simps xc_step_call_iff [simp]: "xc_step H s (XCall origin c) t"
inductive_simps xc_step_deliver_iff [simp]: "xc_step H s (XDeliver msgs w) t"
inductive_simps xc_step_killed_iff [simp]: "xc_step H s (XKilled a) t"

definition xc_init :: "('a, 'd, 'w) xchange \<Rightarrow> bool" where
  "xc_init s \<longleftrightarrow> xDevice s = Map.empty \<and> xOrders s = Map.empty \<and> xEvents s = []"

section \<open>What a single operation leaves alone\<close>

text \<open>Every operation is about one device (or none); the stored entries of all others stay.\<close>

definition xc_only :: "'a set \<Rightarrow> ('a, 'd, 'w) xchange \<Rightarrow> ('a, 'd, 'w) xchange \<Rightarrow> bool" where
  "xc_only D s t \<longleftrightarrow> (\<forall>d. d \<notin> D \<longrightarrow> xDevice t d = xDevice s d \<and> xOrders t d = xOrders s d)"

lemma xc_order_reject_other [frame_facts]:
  "d \<noteq> device \<Longrightarrow> xDevice (snd (xc_order_reject H s who order now device dev)) d = xDevice s d"
  "d \<noteq> device \<Longrightarrow> xOrders (snd (xc_order_reject H s who order now device dev)) d = xOrders s d"
  by (auto simp: op_defs Let_def split: result_splits)

lemma xc_order_only: "xc_only {ob_device ob} s (snd (xc_order H s origin ob))"
  by (auto simp: op_defs xc_only_def Let_def split: result_splits)

lemma xc_cancel_only: "xc_only {device} s (snd (xc_cancel H s origin device))"
  by (auto simp: xc_cancel_def Let_def xc_only_def frame_facts split: result_splits)

lemma xc_on_reject_only: "xc_only {device} s (snd (xc_on_reject H s who device onoff))"
  by (auto simp: xc_on_reject_def Let_def xc_only_def frame_facts split: result_splits)

lemma xc_on_done_only: "xc_only {device} s (snd (xc_on_done H s who device onoff))"
  by (auto simp: op_defs xc_only_def Let_def split: result_splits)

section \<open>The life of a device\<close>

text \<open>The abstract machine of one device: its stored state, if it is registered, and
  whether an order is open on it.\<close>

inductive xc_life :: "device_view \<Rightarrow> device_view \<Rightarrow> bool" where
  xlife_on: "xc_life (x, False) (Some Ready, False)"
| xlife_off: "xc_life (x, False) (Some Off, False)"
| xlife_order: "xc_life (Some Ready, False) (Some Busy, True)"
| xlife_settle_on: "xc_life (Some x, True) (Some Ready, False)"
| xlife_settle_off: "xc_life (Some x, True) (Some Off, False)"
| xlife_cancel: "xc_life (Some x, True) (Some x, False)"
| xlife_removed: "xc_life (Some Off, b) (None, b)"
| xlife_abandoned: "x \<noteq> Off \<Longrightarrow> xc_life (Some x, b) (Some Timewait, b)"

definition xc_view :: "('a, 'd, 'w) xchange \<Rightarrow> 'a \<Rightarrow> device_view" where
  "xc_view s d = (map_option xp_state (xDevice s d), xOrders s d \<noteq> None)"

lemma xc_view_other:
  "xc_only D s t \<Longrightarrow> d \<notin> D \<Longrightarrow> xc_view t d = xc_view s d"
  by (simp add: xc_only_def xc_view_def)

lemma xc_view_world [simp]: "xc_view (s\<lparr>xWorld := w\<rparr>) d = xc_view s d"
  by (simp add: xc_view_def)

lemma xc_view_deposit [simp]: "xc_view (xc_deposit_event e s) d = xc_view s d"
  by (simp add: xc_view_def xc_deposit_event_def)

lemma xc_life_order: "xc_life\<^sup>=\<^sup>= (xc_view s d) (xc_view (snd (xc_order H s origin ob)) d)"
proof (cases "d = ob_device ob")
  case True
  then show ?thesis
    by (auto simp: op_defs xc_view_def Let_def split: result_splits intro: xc_life.intros)
qed (simp add: xc_view_other [OF xc_order_only])

lemma xc_life_cancel: "xc_life\<^sup>=\<^sup>= (xc_view s d) (xc_view (snd (xc_cancel H s origin device)) d)"
proof (cases "d = device")
  case True
  then show ?thesis
    by (auto simp: op_defs xc_view_def Let_def split: result_splits intro: xlife_cancel)
qed (simp add: xc_view_other [OF xc_cancel_only])

lemma xc_life_on_reject:
  "xc_life\<^sup>=\<^sup>= (xc_view s d) (xc_view (snd (xc_on_reject H s who device onoff)) d)"
proof (cases "d = device")
  case True
  then show ?thesis
    by (auto simp: op_defs xc_view_def Let_def split: result_splits intro: xc_life.intros)
qed (simp add: xc_view_other [OF xc_on_reject_only])

lemma xc_life_on_done:
  "xc_life\<^sup>=\<^sup>= (xc_view s d) (xc_view (snd (xc_on_done H s who device onoff)) d)"
proof (cases "d = device")
  case True
  then show ?thesis
    by (auto simp: op_defs xc_view_def Let_def split: result_splits intro: xc_life.intros)
qed (simp add: xc_view_other [OF xc_on_done_only])

lemma xc_life_register:
  "xc_life\<^sup>=\<^sup>= (xc_view s d) (xc_view (snd (xc_register H s origin paraid pen wcd onoff)) d)"
  by (auto simp: op_defs xc_view_def Let_def split: result_splits intro: xc_life.intros)

lemma xc_life_test: "xc_view (snd (xc_test H s origin)) d = xc_view s d"
  by (auto simp: op_defs xc_view_def Let_def split: result_splits)

lemma xc_life_killed: "xc_life\<^sup>=\<^sup>= (xc_view s d) (xc_view (xc_on_killed_account s a) d)"
  by (auto simp: op_defs xc_view_def Let_def split: result_splits intro: xc_life.intros)

lemma xc_life_dispatch: "xc_life\<^sup>=\<^sup>= (xc_view s d) (xc_view (snd (xc_dispatch H s origin c)) d)"
  by (cases c) (simp_all only: xc_dispatch.simps xc_life_test xc_life_order xc_life_cancel
    xc_life_register sup2I2)

lemma xc_life_one:
  "xc_handle_one H s data = Some t \<Longrightarrow> xc_life\<^sup>=\<^sup>= (xc_view s d) (xc_view t d)"
  using xc_life_on_reject xc_life_on_done
  by (fastforce simp: xc_handle_one_def xc_on_accept_def split: sum.splits XCMPMessage.splits)

lemma xc_life_deliver:
  "xc_life\<^sup>*\<^sup>* (xc_view s d) (xc_view (snd (xc_handle_xcmp_messages H s msgs w)) d)"
proof (induction H s msgs w rule: xc_handle_xcmp_messages.induct)
  case (1 H s w)
  then show ?case by simp
next
  case (2 H s sender sent_at data rest w)
  show ?case
  proof (cases "xc_handle_one H s data")
    case (Some t)
    with 2 have "xc_life\<^sup>*\<^sup>* (xc_view t d) (xc_view (snd (xc_handle_xcmp_messages H t rest w)) d)"
      by simp
    moreover have "xc_life\<^sup>*\<^sup>* (xc_view s d) (xc_view t d)"
      using xc_life_one [OF Some, of d] by (auto simp: r_into_rtranclp)
    ultimately show ?thesis using Some by simp
  qed simp
qed

lemma xc_life_step: "xc_step H s l t \<Longrightarrow> xc_life\<^sup>*\<^sup>* (xc_view s d) (xc_view t d)"
proof (induction rule: xc_step.induct)
  case (xstep_call s origin c)
  then show ?case using xc_life_dispatch [of s d H origin c] by (auto simp: r_into_rtranclp)
next
  case (xstep_killed s a)
  then show ?case using xc_life_killed [of s d a] by (auto simp: r_into_rtranclp)
qed (simp_all add: xc_life_deliver)

interpretation xc: device_machine xc_init "xc_step H" xc_view "\<lambda>v. v = (None, False)" xc_life
  by unfold_locales (simp add: xc_init_def xc_view_def, rule xc_life_step)

section \<open>Consequences for the reachable states\<close>

lemma xc_life_open_state:
  "xc_life v w \<Longrightarrow> (snd v \<longrightarrow> fst v \<in> {Some Busy, Some Timewait})
     \<Longrightarrow> (snd w \<longrightarrow> fst w \<in> {Some Busy, Some Timewait})"
  by (induction rule: xc_life.induct) auto

lemma xc_life_not_accepted: "xc_life v w \<Longrightarrow> fst v \<noteq> Some Accepted \<Longrightarrow> fst w \<noteq> Some Accepted"
  by (induction rule: xc_life.induct) auto

lemma xc_open_order_device:
  assumes "reachable xc_init (xc_step H) s" and "xOrders s d = Some oo"
  shows "\<exists>dev. xDevice s d = Some dev \<and> xp_state dev \<in> {Busy, Timewait}"
proof -
  have "snd (xc_view s d) \<longrightarrow> fst (xc_view s d) \<in> {Some Busy, Some Timewait}"
    by (rule xc.life_invariant [OF assms(1)]) (auto dest: xc_life_open_state)
  with assms(2) show ?thesis by (auto simp: xc_view_def)
qed

section \<open>The terms of an open order\<close>

definition xc_terms ::
  "('a, 'd, 'w) xchange \<Rightarrow> 'a \<Rightarrow> ('a, 'd) Order option \<times> (balance \<times> moment \<times> para_id) option" where
  "xc_terms s d = (xOrders s d, map_option (\<lambda>p. (xp_penalty p, xp_wcd p, xp_para_id p)) (xDevice s d))"

definition xc_keeps_terms :: "('a, 'd, 'w) xchange \<Rightarrow> ('a, 'd, 'w) xchange \<Rightarrow> 'a \<Rightarrow> bool" where
  "xc_keeps_terms s t d \<longleftrightarrow>
     (xOrders s d \<noteq> None \<longrightarrow> xOrders t d = None \<or> xc_terms t d = xc_terms s d)"

lemma xc_keeps_same [simp]:
  "xDevice t = xDevice s \<Longrightarrow> xOrders t = xOrders s \<Longrightarrow> xc_keeps_terms s t d"
  by (simp add: xc_keeps_terms_def xc_terms_def)

lemma xc_keeps_dispatch: "xc_keeps_terms s (snd (xc_dispatch H s origin c)) d"
  by (cases c)
    (auto simp: op_defs xc_keeps_terms_def xc_terms_def Let_def split: result_splits)

lemma xc_keeps_one:
  "xc_handle_one H s data = Some t \<Longrightarrow> xc_keeps_terms s t d \<and> (xOrders s d = None \<longrightarrow> xOrders t d = None)"
  by (auto simp: op_defs xc_handle_one_def xc_keeps_terms_def xc_terms_def Let_def
      split: result_splits XCMPMessage.splits)

lemma xc_keeps_deliver:
  "xc_keeps_terms s (snd (xc_handle_xcmp_messages H s msgs w)) d
     \<and> (xOrders s d = None \<longrightarrow> xOrders (snd (xc_handle_xcmp_messages H s msgs w)) d = None)"
proof (induction H s msgs w rule: xc_handle_xcmp_messages.induct)
  case (1 H s w)
  then show ?case by simp
next
  case (2 H s sender sent_at data rest w)
  show ?case
  proof (cases "xc_handle_one H s data")
    case (Some t)
    show ?thesis using 2 [OF Some] xc_keeps_one [OF Some, of d]
      by (auto simp: Some xc_keeps_terms_def)
  qed simp
qed

lemma xc_keeps_killed:
  "xp_state dev \<noteq> Off \<Longrightarrow> xDevice s d = Some dev \<Longrightarrow> xc_keeps_terms s (xc_on_killed_account s a) d"
  by (auto simp: op_defs xc_keeps_terms_def xc_terms_def split: result_splits)

section \<open>Message batches\<close>

lemma xc_handle_app_bad:
  assumes "decode_message H bad = Inl e"
  shows "xc_handle_xcmp_messages H s (msgs @ (p, t, bad) # rest) w
           = (0, snd (xc_handle_xcmp_messages H s msgs w))"
proof (induction msgs arbitrary: s)
  case Nil
  then show ?case by (simp add: xc_handle_one_def assms)
next
  case (Cons m msgs)
  obtain sender sent_at data where "m = (sender, sent_at, data)" by (cases m)
  then show ?case by (cases "xc_handle_one H s data") (simp_all add: Cons.IH)
qed

section \<open>A small run on the concrete host\<close>

text \<open>Device 7 registers with a penalty of 10, a completion time of 5 and parachain 2001;
  client 9 orders it for a fee of 40 until time 1100.\<close>

definition xw_ledger :: ledger where
  "xw_ledger = \<lparr>l_free = (\<lambda>_. 0)(7 := 100, 9 := 500), l_reserved = (\<lambda>_. 0), l_now = 1000,
                l_outbox = []\<rparr>"

definition xw_start :: "(8 word, 8 word, ledger) xchange" where
  "xw_start = \<lparr>xDevice = Map.empty, xOrders = Map.empty, xEvents = [], xWorld = xw_ledger\<rparr>"

definition xw_device :: xc_DeviceProfile where
  "xw_device = \<lparr>xp_penalty = 10, xp_wcd = 5, xp_para_id = 2001, xp_state = Ready\<rparr>"

definition xw_base :: "(8 word, 8 word) OrderBase" where
  "xw_base = \<lparr>ob_until = 1100, ob_data = 3, ob_fee = 40, ob_device = 7\<rparr>"

definition xw_registered :: "(8 word, 8 word, ledger) xchange" where
  "xw_registered = snd (xc_dispatch ledger_host xw_start (Some 7) (xc_call_register 2001 10 5 True))"

definition xw_ordered :: "(8 word, 8 word, ledger) xchange" where
  "xw_ordered = snd (xc_dispatch ledger_host xw_registered (Some 9) (xc_call_order xw_base))"

lemma xw_registered_eq:
  "xw_registered = \<lparr>xDevice = [7 \<mapsto> xw_device], xOrders = Map.empty, xEvents = [XNewDevice 7],
                    xWorld = xw_ledger\<rparr>"
  by (simp add: xw_registered_def op_defs xw_start_def xw_device_def)

lemma xw_order_ok: "xc_dispatch ledger_host xw_registered (Some 9) (xc_call_order xw_base) = (Inr (), xw_ordered)"
  by (simp add: xw_ordered_def xw_registered_eq op_defs xw_base_def xw_device_def xw_ledger_def
      ledger_reserve_def Let_def xc_order_message_def)

lemma xw_ordered_order: "xOrders xw_ordered = [7 \<mapsto> OrderBase_convert xw_base 9]"
  by (simp add: xw_ordered_def xw_registered_eq op_defs xw_base_def xw_device_def xw_ledger_def
      ledger_reserve_def Let_def xc_order_message_def)

lemma xw_ordered_device: "xDevice xw_ordered = [7 \<mapsto> xw_device\<lparr>xp_state := Busy\<rparr>]"
  by (simp add: xw_ordered_def xw_registered_eq op_defs xw_base_def xw_device_def xw_ledger_def
      ledger_reserve_def Let_def xc_order_message_def)

lemma xw_ordered_world:
  "xWorld xw_ordered = \<lparr>l_free = (\<lambda>_. 0)(7 := 90, 9 := 460), l_reserved = (\<lambda>_. 0)(7 := 10, 9 := 40),
     l_now = 1000, l_outbox = [((Parent, Parachain 2001),
       [Transact Native 0 (ledger_encode (NewOrder 9 xw_base))])]\<rparr>"
  by (simp add: xw_ordered_def xw_registered_eq op_defs xw_base_def xw_device_def xw_ledger_def
      ledger_reserve_def Let_def xc_order_message_def fun_eq_iff
      OrderBase_convert_def Order_convert_def del: ledger_encode.simps)

lemma xw_reach: "reachable xc_init (xc_step ledger_host) xw_ordered"
proof -
  have "reachable xc_init (xc_step ledger_host) xw_start"
    by (rule reachable_init) (simp add: xc_init_def xw_start_def)
  then have "reachable xc_init (xc_step ledger_host) xw_registered"
    by (rule reachable_step) (unfold xw_registered_def, rule xstep_call)
  then show ?thesis
    by (rule reachable_step) (unfold xw_ordered_def, rule xstep_call)
qed

end
