(* ===== verification/Escrow.thy ===== *)
theory Escrow
  imports Host_Interface
begin

text \<open>
  The arithmetic of escrow, shared by both pallets: what two successive payments do to the
  balances, what a set of open orders obliges each account to keep reserved, and how opening
  and closing one order changes that obligation.
\<close>

section \<open>Two payments in a row\<close>

lemma two_releases:
  assumes "moved_from_reserved H w a b n w1" "moved_from_reserved H w1 c d m w2"
  shows "free_balance H w2 x
           = free_balance H w x + (if x = b then n else 0) + (if x = d then m else 0)"
    and "reserved_balance H w2 x + (if x = a then n else 0) + (if x = c then m else 0)
           = reserved_balance H w x"
    and "timestamp_get H w2 = timestamp_get H w"
  using assms by (auto simp: moved_from_reserved_def)

lemma two_reserves:
  assumes "moved_to_reserved H w a n w1" "moved_to_reserved H w1 b m w2"
  shows "reserved_balance H w2 x
           = reserved_balance H w x + (if x = a then n else 0) + (if x = b then m else 0)"
    and "free_balance H w2 x + (if x = a then n else 0) + (if x = b then m else 0)
           = free_balance H w x"
    and "timestamp_get H w2 = timestamp_get H w"
  using assms by (auto simp: moved_to_reserved_def)

text \<open>A settlement releases the client's fee, then the device's penalty.\<close>

definition released ::
  "('o, 'a, 'd, 'w) host \<Rightarrow> 'w \<Rightarrow> 'w \<Rightarrow> 'a \<Rightarrow> 'a \<Rightarrow> nat \<Rightarrow> 'a \<Rightarrow> 'a \<Rightarrow> nat \<Rightarrow> bool" where
  "released H w w' client fee_to fee device penalty_to penalty \<longleftrightarrow>
     (\<forall>x. free_balance H w' x = free_balance H w x
            + (if x = fee_to then fee else 0) + (if x = penalty_to then penalty else 0)
        \<and> reserved_balance H w' x + (if x = client then fee else 0)
            + (if x = device then penalty else 0) = reserved_balance H w x)"

lemma released_by_moves:
  assumes m1: "moved_from_reserved H w c fee_to (min fee (reserved_balance H w c)) w1"
    and m2: "moved_from_reserved H w1 d penalty_to (min penalty (reserved_balance H w1 d)) w2"
    and "fee + (if c = d then penalty else 0) \<le> reserved_balance H w c"
    and "penalty \<le> reserved_balance H w d"
  shows "released H w w2 c fee_to fee d penalty_to penalty"
proof -
  have n: "min fee (reserved_balance H w c) = fee" using assms(3) by simp
  have "reserved_balance H w1 d = (if d = c then reserved_balance H w d - fee else reserved_balance H w d)"
    using m1 by (auto simp: moved_from_reserved_def n)
  then have m: "min penalty (reserved_balance H w1 d) = penalty"
    using assms(3,4) by (auto split: if_splits)
  show ?thesis
    unfolding released_def
    using two_releases [OF m1 [unfolded n] m2 [unfolded m]] by blast
qed

lemma released_reserves:
  assumes "released H w w' c f fee d p pen"
  shows "reserved_balance H w a
    \<le> reserved_balance H w' a + (if a = c then fee else 0) + (if a = d then pen else 0)"
  using assms by (auto simp: released_def dest!: spec [of _ a])

text \<open>A release neither makes nor burns funds, over any finite set that holds the parties.\<close>

lemma released_conserves:
  assumes "released H w w' c f fee d p pen" "finite A" "{c, f, d, p} \<subseteq> A"
  shows "(\<Sum>a\<in>A. holdings H w' a) = (\<Sum>a\<in>A. holdings H w a)"
proof -
  have bal: "\<And>x. free_balance H w' x = free_balance H w x
      + (if x = f then fee else 0) + (if x = p then pen else 0)"
    and res: "\<And>x. reserved_balance H w' x + (if x = c then fee else 0)
      + (if x = d then pen else 0) = reserved_balance H w x"
    using assms(1) by (simp_all add: released_def)
  have "(\<Sum>a\<in>A. free_balance H w' a) = (\<Sum>a\<in>A. free_balance H w a) + fee + pen"
    using assms(2,3) by (simp add: bal sum.distrib sum.delta)
  moreover have "(\<Sum>a\<in>A. reserved_balance H w a) = (\<Sum>a\<in>A. reserved_balance H w' a) + fee + pen"
    using assms(2,3) by (simp add: res [symmetric] sum.distrib sum.delta)
  ultimately show ?thesis by (simp add: holdings_def sum.distrib)
qed

text \<open>The two reservations that open an order.\<close>

lemma reserves_for_order:
  assumes laws: "currency_laws H"
    and "reserve H w d p = (Inr (), w1)" "reserve H w1 who f = (Inr (), w2)" "same_funds H w2 w3"
  shows "reserved_balance H w3 a = reserved_balance H w a
           + (if a = d then unat p else 0) + (if a = who then unat f else 0)"
    and "free_balance H w3 a + (if a = d then unat p else 0) + (if a = who then unat f else 0)
           = free_balance H w a"
  using two_reserves [OF reserve_ok [OF laws assms(2)] reserve_ok [OF laws assms(3)]] assms(4)
  by (simp_all add: same_funds_def)

section \<open>What open orders oblige an account to keep\<close>

text \<open>The fees of the orders an account has placed, plus the penalty of the order open on it.\<close>

definition order_fees :: "('a \<rightharpoonup> ('a, 'd) Order) \<Rightarrow> 'a \<Rightarrow> nat" where
  "order_fees m a = map_total m (\<lambda>oo. if o_client oo = a then unat (o_fee oo) else 0)"

definition collateral :: "('a \<rightharpoonup> ('a, 'd) Order) \<Rightarrow> ('a \<Rightarrow> nat) \<Rightarrow> 'a \<Rightarrow> nat" where
  "collateral m penalty a = order_fees m a + (if m a = None then 0 else penalty a)"

definition covered :: "('a \<rightharpoonup> ('a, 'd) Order) \<Rightarrow> ('a \<Rightarrow> nat) \<Rightarrow> ('a \<Rightarrow> nat) \<Rightarrow> bool" where
  "covered m penalty reserves \<longleftrightarrow> finite (dom m) \<and> (\<forall>a. collateral m penalty a \<le> reserves a)"

lemma covered_empty [simp]: "covered Map.empty penalty reserves"
  by (simp add: covered_def collateral_def order_fees_def)

lemma order_fees_insert:
  assumes "finite (dom m)" "m d = None"
  shows "order_fees (m(d \<mapsto> oo)) a = order_fees m a + (if a = o_client oo then unat (o_fee oo) else 0)"
  using map_total_insert [OF assms] by (auto simp: order_fees_def)

lemma order_fees_delete:
  assumes "finite (dom m)" "m d = Some oo"
  shows "order_fees m a = order_fees (m(d := None)) a + (if a = o_client oo then unat (o_fee oo) else 0)"
  using map_total_delete [OF assms] by (auto simp: order_fees_def)

text \<open>A change keeps the slack of an account if its reserves grow at least as much as its
  obligations.  This is what the pallets prove of each operation: it keeps funds covered, and
  it adds up over several sets of orders that share the accounts.\<close>

definition slack_kept ::
  "('a \<rightharpoonup> ('a, 'd) Order) \<Rightarrow> ('a \<Rightarrow> nat) \<Rightarrow> ('a \<Rightarrow> nat) \<Rightarrow> ('a \<rightharpoonup> ('a, 'd) Order) \<Rightarrow> ('a \<Rightarrow> nat)
     \<Rightarrow> ('a \<Rightarrow> nat) \<Rightarrow> bool" where
  "slack_kept m p R m' p' R' \<longleftrightarrow> (\<forall>a. R a + collateral m' p' a \<le> R' a + collateral m p a)"

lemma slack_refl [simp]: "slack_kept m p R m p R"
  by (simp add: slack_kept_def)

lemma slack_trans: "slack_kept m p R m' p' R' \<Longrightarrow> slack_kept m' p' R' m'' p'' R'' \<Longrightarrow> slack_kept m p R m'' p'' R''"
proof -
  assume "slack_kept m p R m' p' R'" "slack_kept m' p' R' m'' p'' R''"
  then have "R a + collateral m' p' a \<le> R' a + collateral m p a"
    and "R' a + collateral m'' p'' a \<le> R'' a + collateral m' p' a" for a
    by (simp_all add: slack_kept_def)
  then have "R a + collateral m'' p'' a \<le> R'' a + collateral m p a" for a
    by (smt (verit, best) add.commute add_le_imp_le_left add_mono group_cancel.add1)
  then show ?thesis by (simp add: slack_kept_def)
qed

lemma covered_slack:
  assumes "covered m p R" "slack_kept m p R m' p' R'" "finite (dom m')"
  shows "covered m' p' R'"
proof -
  have "collateral m' p' a \<le> R' a" for a
  proof -
    have "collateral m p a \<le> R a" "R a + collateral m' p' a \<le> R' a + collateral m p a"
      using assms(1,2) by (simp_all add: covered_def slack_kept_def)
    then show ?thesis by linarith
  qed
  with assms(3) show ?thesis by (simp add: covered_def)
qed

lemma slack_open:
  assumes fin: "finite (dom m)" and none: "m d = None" and "\<And>a. a \<noteq> d \<Longrightarrow> p' a = p a"
    and funds: "\<And>a. R a + (if a = d then p' d else 0) + (if a = o_client oo then unat (o_fee oo) else 0)
      \<le> R' a"
  shows "slack_kept m p R (m(d \<mapsto> oo)) p' R'"
proof -
  have "R a + collateral (m(d \<mapsto> oo)) p' a \<le> R' a + collateral m p a" for a
    using order_fees_insert [OF fin none, of oo a] funds [of a] assms(3) [of a] none
    by (auto simp: collateral_def split: if_splits)
  then show ?thesis by (simp add: slack_kept_def)
qed

lemma slack_close:
  assumes fin: "finite (dom m)" and some: "m d = Some oo" and "\<And>a. a \<noteq> d \<Longrightarrow> p' a = p a"
    and funds: "\<And>a. R a \<le> R' a + (if a = o_client oo then unat (o_fee oo) else 0)
      + (if a = d then p d else 0)"
  shows "slack_kept m p R (m(d := None)) p' R'"
proof -
  have "R a + collateral (m(d := None)) p' a \<le> R' a + collateral m p a" for a
    using order_fees_delete [OF fin some, of a] funds [of a] assms(3) [of a] some
    by (auto simp: collateral_def split: if_splits)
  then show ?thesis by (simp add: slack_kept_def)
qed

lemma slack_mono:
  assumes "\<And>a. m a \<noteq> None \<Longrightarrow> p' a = p a" "\<And>a. R a \<le> R' a"
  shows "slack_kept m p R m p' R'"
  unfolding slack_kept_def
proof
  fix a
  have "collateral m p' a = collateral m p a"
    using assms(1) [of a] by (simp add: collateral_def)
  with assms(2) [of a] show "R a + collateral m p' a \<le> R' a + collateral m p a" by simp
qed

lemma covered_settles:
  assumes "covered m p R" "m d = Some oo"
  shows "unat (o_fee oo) + (if o_client oo = d then p d else 0) \<le> R (o_client oo)"
    and "p d \<le> R d"
proof -
  have fee: "unat (o_fee oo) \<le> order_fees m (o_client oo)"
    using map_total_member [of m d oo "\<lambda>x. if o_client x = o_client oo then unat (o_fee x) else 0"] assms
    by (simp add: order_fees_def covered_def)
  have inv: "collateral m p a \<le> R a" for a using assms(1) by (simp add: covered_def)
  show "unat (o_fee oo) + (if o_client oo = d then p d else 0) \<le> R (o_client oo)"
    using fee inv [of "o_client oo"] assms(2) by (auto simp: collateral_def split: if_splits)
  show "p d \<le> R d" using inv [of d] assms(2) by (simp add: collateral_def)
qed

section \<open>Refused payouts\<close>

text \<open>The currency returned an error to a settlement.\<close>

definition refused :: "('e, 's) outcome \<Rightarrow> bool" where
  "refused r \<longleftrightarrow> (\<exists>e. fst r = Inl (HostError e))"

end
