(* ===== verification/Xchange_Escrow.thy ===== *)
theory Xchange_Escrow
  imports Xchange_Safety Escrow
begin

text \<open>
  The money of the client-side pallet: what each operation moves under the currency's laws,
  the invariant that every open order is backed by reserved funds, and the exact payments of
  a settlement.  The invariant is kept by all calls and hooks, by answers that name the
  order's own client, and by payouts the currency does not refuse; what happens otherwise is
  stated separately.
\<close>

section \<open>Funds behind the open orders\<close>

definition xc_penalty :: "('a, 'd, 'w) xchange \<Rightarrow> 'a \<Rightarrow> nat" where
  "xc_penalty s d = (case xDevice s d of None \<Rightarrow> 0 | Some dev \<Rightarrow> unat (xp_penalty dev))"

definition xc_engaged :: "('a, 'd, 'w) xchange \<Rightarrow> bool" where
  "xc_engaged s \<longleftrightarrow> finite (dom (xOrders s))
     \<and> (\<forall>d oo. xOrders s d = Some oo \<longrightarrow> (\<exists>dev. xDevice s d = Some dev \<and> xp_state dev \<noteq> Off))"

definition xc_obligation :: "('a, 'd, 'w) xchange \<Rightarrow> 'a \<Rightarrow> nat" where
  "xc_obligation s = collateral (xOrders s) (xc_penalty s)"

definition xc_backed :: "('o, 'a, 'd, 'w) host \<Rightarrow> ('a, 'd, 'w) xchange \<Rightarrow> bool" where
  "xc_backed H s \<longleftrightarrow> xc_engaged s \<and> (\<forall>a. xc_obligation s a \<le> reserved_balance H (xWorld s) a)"

text \<open>A change that keeps every account's slack between its reserves and its obligations.\<close>

definition xc_kept :: "('o, 'a, 'd, 'w) host \<Rightarrow> ('a, 'd, 'w) xchange \<Rightarrow> ('a, 'd, 'w) xchange \<Rightarrow> bool" where
  "xc_kept H s t \<longleftrightarrow> xc_engaged t
     \<and> slack_kept (xOrders s) (xc_penalty s) (reserved_balance H (xWorld s))
         (xOrders t) (xc_penalty t) (reserved_balance H (xWorld t))"

lemma xc_backed_covered:
  "xc_backed H s \<longleftrightarrow> xc_engaged s \<and> covered (xOrders s) (xc_penalty s) (reserved_balance H (xWorld s))"
  by (auto simp: xc_backed_def xc_obligation_def covered_def xc_engaged_def)

lemma xc_backed_kept: "xc_backed H s \<Longrightarrow> xc_kept H s t \<Longrightarrow> xc_backed H t"
  by (auto simp: xc_backed_covered xc_kept_def xc_engaged_def intro: covered_slack)

lemma xc_kept_refl: "xc_backed H s \<Longrightarrow> xc_kept H s s"
  by (simp add: xc_backed_def xc_kept_def)

lemma xc_kept_trans: "xc_kept H s t \<Longrightarrow> xc_kept H t u \<Longrightarrow> xc_kept H s u"
  by (auto simp: xc_kept_def intro: slack_trans)

lemma xc_backed_finite: "xc_backed H s \<Longrightarrow> finite (dom (xOrders s))"
  by (simp add: xc_backed_def xc_engaged_def)

lemma xc_penalty_dev [simp]: "xDevice s d = Some dev \<Longrightarrow> xc_penalty s d = unat (xp_penalty dev)"
  by (simp add: xc_penalty_def)

text \<open>Opening an order on a device that has none.\<close>

lemma xc_kept_open:
  assumes "xc_backed H s" and none: "xOrders s d = None" and dev: "xp_state dev \<noteq> Off"
    and orders: "xOrders t = (xOrders s)(d \<mapsto> oo)" and devices: "xDevice t = (xDevice s)(d \<mapsto> dev)"
    and funds: "\<And>a. reserved_balance H (xWorld t) a = reserved_balance H (xWorld s) a
      + (if a = d then unat (xp_penalty dev) else 0)
      + (if a = o_client oo then unat (o_fee oo) else 0)"
  shows "xc_kept H s t"
proof -
  have "slack_kept (xOrders s) (xc_penalty s) (reserved_balance H (xWorld s))
      ((xOrders s)(d \<mapsto> oo)) (xc_penalty t) (reserved_balance H (xWorld t))"
    by (rule slack_open [OF xc_backed_finite [OF assms(1)] none])
      (simp_all add: xc_penalty_def devices funds)
  with assms(1) dev show ?thesis by (auto simp: xc_backed_def xc_kept_def xc_engaged_def orders devices)
qed

text \<open>Closing an order and releasing exactly its fee and its penalty.\<close>

lemma xc_kept_close:
  assumes "xc_backed H s" and some: "xOrders s d = Some oo" and dev: "xDevice s d = Some dev"
    and orders: "xOrders t = (xOrders s)(d := None)" and devices: "xDevice t = (xDevice s)(d \<mapsto> dev')"
    and funds: "released H (xWorld s) (xWorld t) (o_client oo) x (unat (o_fee oo)) d y (unat (xp_penalty dev))"
  shows "xc_kept H s t"
proof -
  have "slack_kept (xOrders s) (xc_penalty s) (reserved_balance H (xWorld s))
      ((xOrders s)(d := None)) (xc_penalty t) (reserved_balance H (xWorld t))"
    by (rule slack_close [OF xc_backed_finite [OF assms(1)] some])
      (use dev released_reserves [OF funds] in
        \<open>simp_all only: xc_penalty_def devices fun_upd_apply option.case if_False\<close>)
  with assms(1) show ?thesis by (auto simp: xc_backed_def xc_kept_def xc_engaged_def orders devices)
qed

text \<open>Everything else: no order is opened or closed, terms stay, reserves do not shrink.\<close>

lemma xc_kept_mono:
  assumes "xc_backed H s" and orders: "xOrders t = xOrders s"
    and devices: "\<And>d oo dev. xOrders s d = Some oo \<Longrightarrow> xDevice s d = Some dev \<Longrightarrow>
      xp_state dev \<noteq> Off \<Longrightarrow>
      \<exists>dev'. xDevice t d = Some dev' \<and> xp_penalty dev' = xp_penalty dev \<and> xp_state dev' \<noteq> Off"
    and funds: "\<And>a. reserved_balance H (xWorld s) a \<le> reserved_balance H (xWorld t) a"
  shows "xc_kept H s t"
proof -
  have open_dev: "\<exists>dev'. xDevice t d = Some dev' \<and> xp_state dev' \<noteq> Off
      \<and> unat (xp_penalty dev') = xc_penalty s d" if "xOrders s d = Some oo" for d oo
    using assms(1) devices [OF that] that by (fastforce simp: xc_backed_def xc_engaged_def)
  have "slack_kept (xOrders s) (xc_penalty s) (reserved_balance H (xWorld s))
      (xOrders s) (xc_penalty t) (reserved_balance H (xWorld t))"
  proof (rule slack_mono)
    show "xc_penalty t a = xc_penalty s a" if "xOrders s a \<noteq> None" for a
      using open_dev [of a] that by auto
  qed (rule funds)
  with open_dev assms(1) show ?thesis unfolding xc_kept_def xc_engaged_def xc_backed_def orders by blast
qed

section \<open>What the operations move\<close>

lemma backed_covers:
  assumes "xc_backed H s" "xOrders s d = Some oo" "xDevice s d = Some dev"
  shows "unat (o_fee oo) + (if o_client oo = d then unat (xp_penalty dev) else 0)
           \<le> reserved_balance H (xWorld s) (o_client oo)"
    and "unat (xp_penalty dev) \<le> reserved_balance H (xWorld s) d"
  using covered_settles [of "xOrders s" "xc_penalty s" "reserved_balance H (xWorld s)" d oo] assms
  by (auto simp: xc_backed_covered)

lemma xc_order_reject_releases:
  assumes laws: "currency_laws H" and "xc_backed H s"
    and "xOrders s d = Some oo" "xDevice s d = Some dev0" "xp_penalty dev = xp_penalty dev0"
    and "xc_order_reject H s (o_client oo) oo now d dev = (Inr (), t)"
  shows "released H (xWorld s) (xWorld t) (o_client oo) (o_client oo) (unat (o_fee oo))
           d (if now < o_until oo then d else o_client oo) (unat (xp_penalty dev))"
proof -
  note cover = backed_covers [OF assms(2-4)]
  obtain r1 w1 where w1: "unreserve H (xWorld s) (o_client oo) (o_fee oo) = (r1, w1)"
    by fastforce
  note m1 = unreserve_moves [OF laws w1]
  show ?thesis
  proof (cases "now < o_until oo")
    case True
    obtain r2 w2 where w2: "unreserve H w1 d (xp_penalty dev) = (r2, w2)" by fastforce
    have "released H (xWorld s) w2 (o_client oo) (o_client oo) (unat (o_fee oo)) d d (unat (xp_penalty dev))"
      by (rule released_by_moves [OF m1 unreserve_moves [OF laws w2]])
        (use cover assms(5) in auto)
    moreover have "xWorld t = w2"
      using assms(6) True by (auto simp: op_defs w1 w2)
    ultimately show ?thesis using True by simp
  next
    case False
    obtain r2 w2 where w2: "repatriate_reserved H w1 d (o_client oo) (xp_penalty dev) Free = (Inr r2, w2)"
      and t: "xWorld t = w2"
      using assms(6) False by (auto simp: op_defs w1 split: sum.splits prod.splits)
    have "released H (xWorld s) w2 (o_client oo) (o_client oo) (unat (o_fee oo)) d (o_client oo)
            (unat (xp_penalty dev))"
      by (rule released_by_moves [OF m1 repatriate_ok [OF laws w2]])
        (use cover assms(5) in auto)
    with False t show ?thesis by simp
  qed
qed

lemma xc_on_done_releases:
  assumes laws: "currency_laws H" and "xc_backed H s"
    and "xOrders s d = Some oo" "xDevice s d = Some dev"
    and "xc_on_done H s (o_client oo) d onoff = (Inr (), t)"
  shows "released H (xWorld s) (xWorld t) (o_client oo) d (unat (o_fee oo))
           d (if timestamp_get H (xWorld s) < o_until oo then d else o_client oo) (unat (xp_penalty dev))"
proof -
  note cover = backed_covers [OF assms(2-4)]
  obtain r1 w1 where w1: "repatriate_reserved H (xWorld s) (o_client oo) d (o_fee oo) Free = (Inr r1, w1)"
    using assms(3-5) by (auto simp: op_defs Let_def split: sum.splits prod.splits)
  note m1 = repatriate_ok [OF laws w1]
  show ?thesis
  proof (cases "timestamp_get H (xWorld s) < o_until oo")
    case True
    obtain r2 w2 where w2: "unreserve H w1 d (xp_penalty dev) = (r2, w2)" by fastforce
    have "released H (xWorld s) w2 (o_client oo) d (unat (o_fee oo)) d d (unat (xp_penalty dev))"
      by (rule released_by_moves [OF m1 unreserve_moves [OF laws w2]]) (use cover in auto)
    moreover have "xWorld t = w2"
      using assms(3-5) True by (auto simp: op_defs Let_def w1 w2)
    ultimately show ?thesis using True by simp
  next
    case False
    obtain r2 w2 where w2: "repatriate_reserved H w1 d (o_client oo) (xp_penalty dev) Free = (Inr r2, w2)"
      and t: "xWorld t = w2"
      using assms(3-5) False by (auto simp: op_defs Let_def w1 split: sum.splits prod.splits)
    have "released H (xWorld s) w2 (o_client oo) d (unat (o_fee oo)) d (o_client oo) (unat (xp_penalty dev))"
      by (rule released_by_moves [OF m1 repatriate_ok [OF laws w2]]) (use cover in auto)
    with False t show ?thesis by simp
  qed
qed

section \<open>Opening an order\<close>

lemma xc_place_order_simps [simp]:
  "xOrders (xc_place_order H s who ob dev) = (xOrders s)(ob_device ob \<mapsto> OrderBase_convert ob who)"
  "xDevice (xc_place_order H s who ob dev) = (xDevice s)(ob_device ob \<mapsto> dev\<lparr>xp_state := Busy\<rparr>)"
  "xEvents (xc_place_order H s who ob dev) = xEvents s @ [XNewOrder who (ob_device ob)]"
  "xWorld (xc_place_order H s who ob dev) =
     snd (send_xcm H (xWorld s) (Parent, Parachain (xp_para_id dev))
       [Transact Native 0 (encode_message H (NewOrder who ob))])"
  by (simp_all add: xc_place_order_def xc_order_message_def xc_deposit_event_def Let_def)

lemma xc_order_okE:
  assumes "xc_order H s origin ob = (Inr (), t)"
  obtains who dev w1 w2 where
    "ensure_signed H origin = Inr who" "xDevice s (ob_device ob) = Some dev"
    "xOrders s (ob_device ob) = None" "xp_state dev = Ready"
    "timestamp_get H (xWorld s) < ob_until ob"
    "\<not> ob_until ob < timestamp_get H (xWorld s) + xp_wcd dev"
    "can_reserve H (xWorld s) who (ob_fee ob)"
    "reserve H (xWorld s) (ob_device ob) (xp_penalty dev) = (Inr (), w1)"
    "reserve H w1 who (ob_fee ob) = (Inr (), w2)"
    "t = xc_place_order H (s\<lparr>xWorld := w2\<rparr>) who ob dev"
  using assms by (auto simp: xc_order_def Let_def not_le split: result_splits)

lemma xc_order_failed:
  assumes "currency_laws H" "xc_order H s origin ob = (Inl e, t)"
  shows "xDevice t = xDevice s \<and> xOrders t = xOrders s \<and> xEvents t = xEvents s
    \<and> (same_funds H (xWorld s) (xWorld t)
       \<or> (\<exists>dev. xDevice s (ob_device ob) = Some dev
            \<and> moved_to_reserved H (xWorld s) (ob_device ob) (unat (xp_penalty dev)) (xWorld t)))"
proof -
  have refl: "same_funds H w w" for w by (simp add: same_funds_def)
  have second: "moved_to_reserved H w a n w2"
    if "moved_to_reserved H w a n w1" "same_funds H w1 w2" for w w1 w2 a n
    using that by (simp add: moved_to_reserved_def same_funds_def)
  show ?thesis
    using assms(2) refl second reserve_ok [OF assms(1)] reserve_err [OF assms(1)]
    by (auto simp: xc_order_def Let_def split: result_splits) blast+
qed

lemma xc_kept_order:
  assumes laws: "currency_laws H" and backed: "xc_backed H s"
  shows "xc_kept H s (snd (xc_order H s origin ob))"
proof -
  obtain r t where r: "xc_order H s origin ob = (r, t)" by fastforce
  show ?thesis
  proof (cases r)
    case (Inl e)
    note failed = xc_order_failed [OF laws r [unfolded Inl]]
    then have "reserved_balance H (xWorld s) a \<le> reserved_balance H (xWorld t) a" for a
      by (auto simp: same_funds_def moved_to_reserved_def)
    then have "xc_kept H s t" using xc_kept_mono [OF backed] failed by simp
    then show ?thesis by (simp add: r)
  next
    case (Inr u)
    then have ok: "xc_order H s origin ob = (Inr (), t)" using r by simp
    obtain who dev w1 w2 where o: "xDevice s (ob_device ob) = Some dev"
        "xOrders s (ob_device ob) = None"
        "reserve H (xWorld s) (ob_device ob) (xp_penalty dev) = (Inr (), w1)"
        "reserve H w1 who (ob_fee ob) = (Inr (), w2)"
        "t = xc_place_order H (s\<lparr>xWorld := w2\<rparr>) who ob dev"
      by (rule xc_order_okE [OF ok]) blast
    obtain r3 w3 where w3: "send_xcm H w2 (Parent, Parachain (xp_para_id dev))
        [Transact Native 0 (encode_message H (NewOrder who ob))] = (r3, w3)"
      by fastforce
    have "xc_kept H s t"
      by (rule xc_kept_open [OF backed o(2), of "dev\<lparr>xp_state := Busy\<rparr>" t "OrderBase_convert ob who"])
        (simp_all add: o(5) w3 reserves_for_order(1) [OF laws o(3,4) send_same [OF laws w3]])
    then show ?thesis by (simp add: r)
  qed
qed

section \<open>The escrow invariant\<close>

definition xc_sound_answer :: "('o, 'a, 'd, 'w) host \<Rightarrow> ('a, 'd, 'w) xchange \<Rightarrow> bytes \<Rightarrow> bool" where
  "xc_sound_answer H s data \<longleftrightarrow>
     (case decode_message H data of
        Inr (OrderReject c d onoff) \<Rightarrow>
          (\<forall>oo. xOrders s d = Some oo \<longrightarrow> o_client oo = c) \<and> \<not> refused (xc_on_reject H s c d onoff)
      | Inr (OrderDone c d onoff) \<Rightarrow>
          (\<forall>oo. xOrders s d = Some oo \<longrightarrow> o_client oo = c) \<and> \<not> refused (xc_on_done H s c d onoff)
      | _ \<Rightarrow> True)"

fun xc_sound_batch ::
  "('o, 'a, 'd, 'w) host \<Rightarrow> ('a, 'd, 'w) xchange \<Rightarrow> (para_id \<times> 32 word \<times> bytes) list \<Rightarrow> bool" where
  "xc_sound_batch H s [] = True"
| "xc_sound_batch H s ((sender, sent_at, data) # rest) =
     (xc_sound_answer H s data
      \<and> (case xc_handle_one H s data of None \<Rightarrow> True | Some t \<Rightarrow> xc_sound_batch H t rest))"

text \<open>Steps in which answers are sound, no cancel is refused its payout, and the rest of the
  chain leaves reserved funds in place.\<close>

inductive xc_sound_step ::
  "('o, 'a, 'd, 'w) host \<Rightarrow> ('a, 'd, 'w) xchange \<Rightarrow> ('o, 'a, 'd) xc_label
     \<Rightarrow> ('a, 'd, 'w) xchange \<Rightarrow> bool"
  for H :: "('o, 'a, 'd, 'w) host"
where
  xsound_call: "(\<And>d. c = xc_call_cancel d \<Longrightarrow> \<not> refused (xc_dispatch H s origin c)) \<Longrightarrow>
    xc_sound_step H s (XCall origin c) (snd (xc_dispatch H s origin c))"
| xsound_deliver: "xc_sound_batch H s msgs \<Longrightarrow>
    xc_sound_step H s (XDeliver msgs w) (snd (xc_handle_xcmp_messages H s msgs w))"
| xsound_killed: "xc_sound_step H s (XKilled a) (xc_on_killed_account s a)"
| xsound_environment:
    "(\<And>a. reserved_balance H (xWorld s) a \<le> reserved_balance H v a) \<Longrightarrow>
    xc_sound_step H s XEnvironment (s\<lparr>xWorld := v\<rparr>)"

lemma xc_order_reject_ok_simps:
  assumes "xc_order_reject H s who oo now d dev = (Inr (), t)"
  shows "xOrders t = (xOrders s)(d := None)" "xDevice t = (xDevice s)(d \<mapsto> dev)"
    "xEvents t = xEvents s @ [XReject who d]"
  using assms by (auto simp: op_defs Let_def split: result_splits)

lemma xc_order_reject_module:
  "fst (xc_order_reject H s who oo now d dev) \<noteq> Inl (Module e)"
  by (auto simp: op_defs Let_def split: result_splits)

lemma xc_on_done_ok_simps:
  assumes "xc_on_done H s who d onoff = (Inr (), t)"
    and "xOrders s d = Some oo" "xDevice s d = Some dev"
  shows "xOrders t = (xOrders s)(d := None)"
    "xDevice t = (xDevice s)(d \<mapsto> dev\<lparr>xp_state := (if onoff then Ready else Off)\<rparr>)"
    "xEvents t = xEvents s @ [XDone who d]"
  using assms by (auto simp: op_defs Let_def split: result_splits)

lemma xc_kept_reject:
  assumes laws: "currency_laws H" and "xc_backed H s"
    and "xOrders s d = Some oo" "xDevice s d = Some dev0" "xp_penalty dev = xp_penalty dev0"
    and "\<not> refused (xc_order_reject H s (o_client oo) oo now d dev)"
  shows "xc_kept H s (snd (xc_order_reject H s (o_client oo) oo now d dev))"
proof -
  obtain r t where r: "xc_order_reject H s (o_client oo) oo now d dev = (r, t)" by fastforce
  then have "r = Inr ()"
    using assms(6) xc_order_reject_module [of H s "o_client oo" oo now d dev]
    by (cases r; cases "projl r") (auto simp: refused_def)
  with r have ok: "xc_order_reject H s (o_client oo) oo now d dev = (Inr (), t)" by simp
  have "xc_kept H s t"
    using xc_kept_close [OF assms(2-4) xc_order_reject_ok_simps(1,2) [OF ok]]
      xc_order_reject_releases [OF laws assms(2-5) ok] assms(5) by simp
  with r show ?thesis by simp
qed

lemma xc_kept_cancel:
  assumes "currency_laws H" "xc_backed H s" "\<not> refused (xc_cancel H s origin device)"
  shows "xc_kept H s (snd (xc_cancel H s origin device))"
  using assms xc_kept_reject [OF assms(1,2)] xc_kept_refl [OF assms(2)]
  by (auto simp: xc_cancel_def Let_def split: result_splits)

lemma xc_kept_on_reject:
  assumes "currency_laws H" "xc_backed H s" "\<not> refused (xc_on_reject H s who device onoff)"
    and "\<And>oo. xOrders s device = Some oo \<Longrightarrow> o_client oo = who"
  shows "xc_kept H s (snd (xc_on_reject H s who device onoff))"
  using assms(2-4) xc_kept_reject [OF assms(1,2), where d = device] xc_kept_refl [OF assms(2)]
  by (auto simp: xc_on_reject_def Let_def split: result_splits)

lemma xc_kept_on_done:
  assumes laws: "currency_laws H" and "xc_backed H s"
    and sound: "\<not> refused (xc_on_done H s who d onoff)"
    and client: "\<And>oo. xOrders s d = Some oo \<Longrightarrow> o_client oo = who"
  shows "xc_kept H s (snd (xc_on_done H s who d onoff))"
proof (cases "\<exists>oo dev. xOrders s d = Some oo \<and> xDevice s d = Some dev")
  case True
  then obtain oo dev where oo: "xOrders s d = Some oo" "xDevice s d = Some dev" by blast
  obtain t where t: "xc_on_done H s (o_client oo) d onoff = (Inr (), t)"
    using sound client [OF oo(1)] oo
    by (auto simp: refused_def xc_on_done_def Let_def split: result_splits)
  from xc_kept_close [OF assms(2) oo xc_on_done_ok_simps(1,2) [OF t oo]]
    xc_on_done_releases [OF laws assms(2) oo t]
  have "xc_kept H s t" by blast
  with t client [OF oo(1)] show ?thesis by simp
next
  case False
  with xc_kept_refl [OF assms(2)] show ?thesis
    by (auto simp: xc_on_done_def Let_def split: option.splits)
qed

lemma xc_kept_world:
  assumes "xc_backed H s" "xDevice t = xDevice s" "xOrders t = xOrders s"
    and "\<And>a. reserved_balance H (xWorld s) a \<le> reserved_balance H (xWorld t) a"
  shows "xc_kept H s t"
  by (rule xc_kept_mono [OF assms(1,3)]) (use assms in simp_all)

lemma xc_kept_test:
  assumes laws: "currency_laws H" and "xc_backed H s"
  shows "xc_kept H s (snd (xc_test H s origin))"
proof -
  obtain r w where w: "send_xcm H (xWorld s) (Parent, Parachain 200)
      [Transact Native 0 (encode_i32s H [0x00, 0x20])] = (r, w)" by fastforce
  have "xc_kept H s (s\<lparr>xWorld := w\<rparr>)"
    by (rule xc_kept_world [OF assms(2)])
      (use send_same [OF laws w] in \<open>simp_all add: same_funds_def\<close>)
  then show ?thesis using xc_kept_refl [OF assms(2)] by (auto simp: xc_test_def w split: sum.split)
qed

lemma xc_kept_register:
  assumes "xc_backed H s"
  shows "xc_kept H s (snd (xc_register H s origin paraid pen wcd onoff))"
proof (cases "fst (xc_register H s origin paraid pen wcd onoff)")
  case (Inl e)
  with xc_kept_refl [OF assms] show ?thesis by (auto simp: xc_register_def split: result_splits)
next
  case (Inr u)
  then obtain who where "ensure_signed H origin = Inr who" "xOrders s who = None"
    by (auto simp: xc_register_def split: result_splits)
  then show ?thesis
    by (intro xc_kept_mono [OF assms]) (auto simp: xc_register_def xc_deposit_event_def)
qed

lemma xc_kept_killed:
  assumes "xc_backed H s"
  shows "xc_kept H s (xc_on_killed_account s a)"
proof -
  have open_a: "xp_state dev \<noteq> Off" if "xOrders s a = Some oo" "xDevice s a = Some dev" for oo dev
    using assms that by (fastforce simp: xc_backed_def xc_engaged_def)
  show ?thesis
    by (rule xc_kept_mono [OF assms])
      (use open_a in \<open>auto simp: xc_on_killed_account_def split: option.splits\<close>)
qed

lemma xc_kept_dispatch:
  assumes "currency_laws H" "xc_backed H s"
    and "\<And>d. c = xc_call_cancel d \<Longrightarrow> \<not> refused (xc_dispatch H s origin c)"
  shows "xc_kept H s (snd (xc_dispatch H s origin c))"
  using assms(3)
  by (cases c) (simp_all add: xc_kept_test xc_kept_order xc_kept_cancel xc_kept_register assms(1,2))

lemma xc_kept_one:
  assumes "currency_laws H" "xc_backed H s" "xc_sound_answer H s data"
    and "xc_handle_one H s data = Some t"
  shows "xc_kept H s t"
proof -
  have "xc_kept H s (snd (xc_on_accept s c d))" for c d
    by (rule xc_kept_world [OF assms(2)]) (simp_all add: op_defs)
  then show ?thesis
    using assms xc_kept_on_reject [OF assms(1,2)] xc_kept_on_done [OF assms(1,2)] xc_kept_refl [OF assms(2)]
    by (auto simp: xc_handle_one_def xc_sound_answer_def split: sum.splits XCMPMessage.splits)
qed

lemma xc_kept_deliver:
  assumes "currency_laws H"
  shows "xc_backed H s \<Longrightarrow> xc_sound_batch H s msgs
    \<Longrightarrow> xc_kept H s (snd (xc_handle_xcmp_messages H s msgs w))"
proof (induction msgs arbitrary: s)
  case Nil
  then show ?case by (simp add: xc_kept_refl)
next
  case (Cons m msgs)
  obtain sender sent_at data where m: "m = (sender, sent_at, data)" by (cases m)
  show ?case
  proof (cases "xc_handle_one H s data")
    case None
    with Cons.prems m show ?thesis by (simp add: xc_kept_refl)
  next
    case (Some t)
    with Cons.prems m have kept: "xc_kept H s t" and rest: "xc_sound_batch H t msgs"
      using xc_kept_one [OF assms] by auto
    have "xc_kept H t (snd (xc_handle_xcmp_messages H t msgs w))"
      by (rule Cons.IH [OF xc_backed_kept [OF Cons.prems(1) kept] rest])
    with xc_kept_trans [OF kept] show ?thesis using Some m by simp
  qed
qed

lemma xc_kept_sound_step:
  assumes "currency_laws H"
  shows "xc_sound_step H s l t \<Longrightarrow> xc_backed H s \<Longrightarrow> xc_kept H s t"
proof (induction rule: xc_sound_step.induct)
  case (xsound_environment s v)
  then show ?case by - (rule xc_kept_world [of H s], simp_all)
next
  case (xsound_call c s origin)
  then show ?case by (blast intro: xc_kept_dispatch [OF assms])
qed (simp_all add: xc_kept_deliver xc_kept_killed assms)

lemma xc_sound_reachable: "reachable xc_init (xc_sound_step H) s \<Longrightarrow> reachable xc_init (xc_step H) s"
proof (induction rule: reachable.induct)
  case (reachable_init s)
  then show ?case by (rule reachable.reachable_init)
next
  case (reachable_step s l t)
  from reachable_step(2) have "xc_step H s l t"
    by (cases rule: xc_sound_step.cases) (auto intro: xc_step.intros)
  with reachable_step(3) show ?case by (rule reachable.reachable_step)
qed

lemma xc_backed_init: "xc_init s \<Longrightarrow> xc_backed H s"
  by (simp add: xc_init_def xc_backed_def xc_engaged_def xc_obligation_def collateral_def order_fees_def)

interpretation xc_escrow: transition_system xc_init "xc_sound_step H"
    "\<lambda>s. currency_laws H \<longrightarrow> xc_backed H s"
  by unfold_locales (blast intro: xc_backed_init, blast dest: xc_kept_sound_step xc_backed_kept)

text \<open>The small run of the concrete host is sound.\<close>

lemma xw_sound_reach: "reachable xc_init (xc_sound_step ledger_host) xw_ordered"
proof -
  have "reachable xc_init (xc_sound_step ledger_host) xw_start"
    by (rule reachable_init) (simp add: xc_init_def xw_start_def)
  then have "reachable xc_init (xc_sound_step ledger_host) xw_registered"
    by (rule reachable_step) (unfold xw_registered_def, rule xsound_call, simp)
  then show ?thesis
    by (rule reachable_step) (unfold xw_ordered_def, rule xsound_call, simp)
qed

lemma xw_backed: "xc_backed ledger_host xw_ordered"
  using xc_escrow.inv_reachable [OF xw_sound_reach] ledger_laws by blast

end
