(* ===== verification/Service_Pallet.thy ===== *)
theory Service_Pallet
  imports Host_Interface
begin

text \<open>
  The service-side pallet (\<open>pallets/xchange-service/src/lib.rs\<close>), which owns the devices.
  An order reaches it as a call on its own chain or as a message of a client chain; the
  device accepts, rejects or completes it, and the pallet settles local orders itself and
  answers remote ones with a message.  \<open>sv_Config\<close> holds what the runtime supplies:
  \<open>SelfParaId\<close> and \<open>OnReceived\<close>.  The \<open>debug_assert!\<close> on the state \<open>OnReceived\<close> returns
  is no code of a release build; the locale \<open>order_policy\<close> states it as the contract of
  the interface.
\<close>

section \<open>State, events, errors\<close>

record sv_DeviceProfile =
  sp_penalty :: balance
  sp_wcd :: moment
  sp_state :: DeviceState

datatype 'a sv_Event =
  SNewDevice 'a
| SNewOrder 'a
| SAccept 'a
| SReject 'a
| SDone 'a
| SBadVersion "256 word"
| SMessageReceived bytes

datatype sv_Error =
  SNoneValue | SProhibited | SDeviceExists | SDeviceLowBail | SNoOrder | SBadOrderDetails
| SNoDevice | SIllegalState | SOverdue | SCannotReachDestination

record ('a, 'd) sv_Config =
  SelfParaId :: para_id
  OnReceived :: "'a \<Rightarrow> ('a, 'd) Order \<Rightarrow> DeviceState option"

record ('a, 'd, 'w) service =
  sDevice :: "'a \<rightharpoonup> sv_DeviceProfile"
  sOrders :: "'a \<rightharpoonup> ('a, 'd) Order"
  sEvents :: "'a sv_Event list"
  sWorld :: 'w

definition sv_deposit_event :: "'a sv_Event \<Rightarrow> ('a, 'd, 'w) service \<Rightarrow> ('a, 'd, 'w) service" where
  "sv_deposit_event e s = s\<lparr>sEvents := sEvents s @ [e]\<rparr>"

text \<open>The block that encodes a message and hands it to the sender for a parachain; the result
  is dropped.\<close>

definition sv_send ::
  "('o, 'a, 'd, 'w) host \<Rightarrow> para_id \<Rightarrow> ('a, 'd) XCMPMessage \<Rightarrow> ('a, 'd, 'w) service
     \<Rightarrow> ('a, 'd, 'w) service" where
  "sv_send H paraid msg s =
     (let dest = (Parent, Parachain paraid);
          call = encode_message H msg;
          message = [Transact Native 0 call]
      in s\<lparr>sWorld := snd (send_xcm H (sWorld s) dest message)\<rparr>)"

section \<open>Receiving, accepting, rejecting and completing an order\<close>

definition sv_order_accept ::
  "('o, 'a, 'd, 'w) host \<Rightarrow> ('a, 'd) sv_Config \<Rightarrow> ('a, 'd, 'w) service \<Rightarrow> ('a, 'd) Order \<Rightarrow> 'a
     \<Rightarrow> sv_DeviceProfile \<Rightarrow> ('a, 'd, 'w) service" where
  "sv_order_accept H C s order device dev =
     (let dev = dev\<lparr>sp_state := Accepted\<rparr>;
          s = s\<lparr>sDevice := (sDevice s)(device \<mapsto> dev)\<rparr>;
          s = (if o_paraid order \<noteq> SelfParaId C
               then sv_send H (o_paraid order) (OrderAccept (o_client order) device) s
               else s)
      in sv_deposit_event (SAccept device) s)"

text \<open>The end of \<open>order_received\<close>: the order is stored and the device takes the state the
  policy chose.\<close>

definition sv_store_order ::
  "('o, 'a, 'd, 'w) host \<Rightarrow> ('a, 'd) sv_Config \<Rightarrow> ('a, 'd, 'w) service \<Rightarrow> ('a, 'd) Order \<Rightarrow> 'a
     \<Rightarrow> sv_DeviceProfile \<Rightarrow> ('a, 'd, 'w) service" where
  "sv_store_order H C s order device dev =
     (let s = s\<lparr>sOrders := (sOrders s)(device \<mapsto> order)\<rparr>;
          s = sv_deposit_event (SNewOrder device) s
      in if sp_state dev = Accepted then sv_order_accept H C s order device dev
         else s\<lparr>sDevice := (sDevice s)(device \<mapsto> dev)\<rparr>)"

definition sv_order_received ::
  "('o, 'a, 'd, 'w) host \<Rightarrow> ('a, 'd) sv_Config \<Rightarrow> ('a, 'd, 'w) service \<Rightarrow> ('a, 'd) Order \<Rightarrow> 'a
     \<Rightarrow> (sv_Error, ('a, 'd, 'w) service) outcome" where
  "sv_order_received H C s order device =
     (let now = timestamp_get H (sWorld s) in
      if o_until order \<le> now then fail SOverdue s
      else if sOrders s device \<noteq> None then fail SIllegalState s
      else case sDevice s device of
        None \<Rightarrow> fail SNoDevice s
      | Some dev \<Rightarrow>
      if sp_state dev \<noteq> Ready then fail SIllegalState s
      else if o_until order < now + sp_wcd dev then fail SBadOrderDetails s
      else case OnReceived C device order of
        None \<Rightarrow> fail SIllegalState s
      | Some state \<Rightarrow>
     (let dev = dev\<lparr>sp_state := state\<rparr> in
      if o_paraid order = SelfParaId C then
        if \<not> can_reserve H (sWorld s) (o_client order) (o_fee order) then fail SDeviceLowBail s
        else case reserve H (sWorld s) device (sp_penalty dev) of
          (Inl e, w1) \<Rightarrow> host_fail e (s\<lparr>sWorld := w1\<rparr>)
        | (Inr _, w1) \<Rightarrow>
       (case reserve H w1 (o_client order) (o_fee order) of
          (Inl e, w2) \<Rightarrow> host_fail e (s\<lparr>sWorld := w2\<rparr>)
        | (Inr _, w2) \<Rightarrow> ok (sv_store_order H C (s\<lparr>sWorld := w2\<rparr>) order device dev))
      else ok (sv_store_order H C s order device dev)))"

text \<open>The second payment of a settlement: the penalty goes back to the device before the
  deadline and to the client from the deadline on.\<close>

definition sv_pay_penalty ::
  "('o, 'a, 'd, 'w) host \<Rightarrow> 'w \<Rightarrow> ('a, 'd) Order \<Rightarrow> moment \<Rightarrow> 'a \<Rightarrow> sv_DeviceProfile
     \<Rightarrow> (string + balance) \<times> 'w" where
  "sv_pay_penalty H w order now device dev =
     (if now < o_until order
      then (Inr 0, snd (unreserve H w device (sp_penalty dev)))
      else repatriate_reserved H w device (o_client order) (sp_penalty dev) Free)"

definition sv_order_done ::
  "('o, 'a, 'd, 'w) host \<Rightarrow> ('a, 'd) sv_Config \<Rightarrow> ('a, 'd, 'w) service \<Rightarrow> ('a, 'd) Order \<Rightarrow> moment \<Rightarrow> 'a
     \<Rightarrow> sv_DeviceProfile \<Rightarrow> bool \<Rightarrow> (sv_Error, ('a, 'd, 'w) service) outcome" where
  "sv_order_done H C s order now device dev onoff =
     (let dev = dev\<lparr>sp_state := (if onoff then Ready else Off)\<rparr>;
          s = s\<lparr>sDevice := (sDevice s)(device \<mapsto> dev)\<rparr>
      in if o_paraid order = SelfParaId C then
           case repatriate_reserved H (sWorld s) (o_client order) device (o_fee order) Free of
             (Inl e, w1) \<Rightarrow> host_fail e (s\<lparr>sWorld := w1\<rparr>)
           | (Inr _, w1) \<Rightarrow>
          (case sv_pay_penalty H w1 order now device dev of
             (Inl e, w2) \<Rightarrow> host_fail e (s\<lparr>sWorld := w2\<rparr>)
           | (Inr _, w2) \<Rightarrow> ok (sv_deposit_event (SDone device) (s\<lparr>sWorld := w2\<rparr>)))
         else
           ok (sv_deposit_event (SDone device)
                (sv_send H (o_paraid order) (OrderDone (o_client order) device onoff) s)))"

definition sv_close_rejected ::
  "('a, 'd, 'w) service \<Rightarrow> 'a \<Rightarrow> sv_DeviceProfile \<Rightarrow> ('a, 'd, 'w) service" where
  "sv_close_rejected s device dev =
     sv_deposit_event (SReject device)
       (s\<lparr>sOrders := (sOrders s)(device := None), sDevice := (sDevice s)(device \<mapsto> dev)\<rparr>)"

definition sv_order_reject ::
  "('o, 'a, 'd, 'w) host \<Rightarrow> ('a, 'd) sv_Config \<Rightarrow> ('a, 'd, 'w) service \<Rightarrow> ('a, 'd) Order option \<Rightarrow> moment
     \<Rightarrow> 'a \<Rightarrow> sv_DeviceProfile \<Rightarrow> bool \<Rightarrow> (sv_Error, ('a, 'd, 'w) service) outcome" where
  "sv_order_reject H C s order now device dev onoff =
     (case order of
        None \<Rightarrow> ok (sv_close_rejected s device dev)
      | Some order \<Rightarrow>
          if o_paraid order = SelfParaId C then
            (let w1 = snd (unreserve H (sWorld s) (o_client order) (o_fee order))
             in case sv_pay_penalty H w1 order now device dev of
                  (Inl e, w2) \<Rightarrow> host_fail e (s\<lparr>sWorld := w2\<rparr>)
                | (Inr _, w2) \<Rightarrow> ok (sv_close_rejected (s\<lparr>sWorld := w2\<rparr>) device dev))
          else
            ok (sv_close_rejected
                  (sv_send H (o_paraid order) (OrderReject (o_client order) device onoff) s)
                  device dev))"

section \<open>Calls\<close>

definition sv_order ::
  "('o, 'a, 'd, 'w) host \<Rightarrow> ('a, 'd) sv_Config \<Rightarrow> ('a, 'd, 'w) service \<Rightarrow> 'o \<Rightarrow> ('a, 'd) OrderBase
     \<Rightarrow> (sv_Error, ('a, 'd, 'w) service) outcome" where
  "sv_order H C s origin ob =
     (case ensure_signed H origin of
        Inl e \<Rightarrow> host_fail e s
      | Inr who \<Rightarrow>
          sv_order_received H C s
            \<lparr>o_until = ob_until ob, o_data = ob_data ob, o_fee = ob_fee ob, o_client = who,
             o_paraid = SelfParaId C\<rparr>
            (ob_device ob))"

definition sv_cancel ::
  "('o, 'a, 'd, 'w) host \<Rightarrow> ('a, 'd) sv_Config \<Rightarrow> ('a, 'd, 'w) service \<Rightarrow> 'o \<Rightarrow> 'a
     \<Rightarrow> (sv_Error, ('a, 'd, 'w) service) outcome" where
  "sv_cancel H C s origin device =
     (case ensure_signed H origin of
        Inl e \<Rightarrow> host_fail e s
      | Inr who \<Rightarrow>
     (case sOrders s device of
        None \<Rightarrow> fail SNoOrder s
      | Some order \<Rightarrow>
     (let now = timestamp_get H (sWorld s) in
      if now < o_until order \<or> o_client order \<noteq> who then fail SProhibited s
      else case sDevice s device of
        None \<Rightarrow> fail SNoDevice s
      | Some dev \<Rightarrow> sv_order_reject H C s (Some order) now device dev False)))"

definition sv_accept ::
  "('o, 'a, 'd, 'w) host \<Rightarrow> ('a, 'd) sv_Config \<Rightarrow> ('a, 'd, 'w) service \<Rightarrow> 'o \<Rightarrow> bool \<Rightarrow> bool
     \<Rightarrow> (sv_Error, ('a, 'd, 'w) service) outcome" where
  "sv_accept H C s origin reject onoff =
     (case ensure_signed H origin of
        Inl e \<Rightarrow> host_fail e s
      | Inr who \<Rightarrow>
     (let order = sOrders s who in
      case sDevice s who of
        None \<Rightarrow> fail SNoDevice s
      | Some dev \<Rightarrow>
     (let now = timestamp_get H (sWorld s) in
      if reject then
        if sp_state dev \<noteq> Busy \<and> sp_state dev \<noteq> Accepted then fail SIllegalState s
        else sv_order_reject H C s order now who
               (dev\<lparr>sp_state := (if onoff then Ready else Off)\<rparr>) onoff
      else if sp_state dev \<noteq> Busy then fail SIllegalState s
      else case order of
        None \<Rightarrow> fail SNoOrder s
      | Some order \<Rightarrow>
          if o_until order \<le> now then fail SOverdue s
          else ok (sv_order_accept H C s order who dev))))"

definition sv_done ::
  "('o, 'a, 'd, 'w) host \<Rightarrow> ('a, 'd) sv_Config \<Rightarrow> ('a, 'd, 'w) service \<Rightarrow> 'o \<Rightarrow> bool
     \<Rightarrow> (sv_Error, ('a, 'd, 'w) service) outcome" where
  "sv_done H C s origin onoff =
     (case ensure_signed H origin of
        Inl e \<Rightarrow> host_fail e s
      | Inr who \<Rightarrow>
     (case sDevice s who of
        None \<Rightarrow> fail SNoDevice s
      | Some dev \<Rightarrow>
      if sp_state dev \<noteq> Accepted then fail SIllegalState s
      else case sOrders s who of
        None \<Rightarrow> fail SNoOrder s
      | Some order \<Rightarrow>
     (let s = s\<lparr>sOrders := (sOrders s)(who := None)\<rparr>;
          now = timestamp_get H (sWorld s)
      in sv_order_done H C s order now who dev onoff)))"

definition sv_register ::
  "('o, 'a, 'd, 'w) host \<Rightarrow> ('a, 'd, 'w) service \<Rightarrow> 'o \<Rightarrow> balance \<Rightarrow> moment \<Rightarrow> bool
     \<Rightarrow> (sv_Error, ('a, 'd, 'w) service) outcome" where
  "sv_register H s origin penalty wcd onoff =
     (case ensure_signed H origin of
        Inl e \<Rightarrow> host_fail e s
      | Inr who \<Rightarrow>
      if sOrders s who \<noteq> None then fail SDeviceExists s
      else ok (sv_deposit_event (SNewDevice who)
             (s\<lparr>sDevice := (sDevice s)(who \<mapsto>
                  \<lparr>sp_penalty = penalty, sp_wcd = wcd, sp_state = (if onoff then Ready else Off)\<rparr>)\<rparr>)))"

fun sv_switch :: "bool \<Rightarrow> DeviceState \<Rightarrow> DeviceState option" where
  "sv_switch False Ready = Some Off"
| "sv_switch False Off = Some Off"
| "sv_switch True Off = Some Ready"
| "sv_switch _ _ = None"

definition sv_set_state ::
  "('o, 'a, 'd, 'w) host \<Rightarrow> ('a, 'd, 'w) service \<Rightarrow> 'o \<Rightarrow> bool
     \<Rightarrow> (sv_Error, ('a, 'd, 'w) service) outcome" where
  "sv_set_state H s origin onoff =
     (case ensure_signed H origin of
        Inl e \<Rightarrow> host_fail e s
      | Inr who \<Rightarrow>
     (case sDevice s who of
        None \<Rightarrow> fail SNoDevice s
      | Some dev \<Rightarrow>
     (case sv_switch onoff (sp_state dev) of
        None \<Rightarrow> fail SIllegalState s
      | Some state \<Rightarrow> ok (s\<lparr>sDevice := (sDevice s)(who \<mapsto> dev\<lparr>sp_state := state\<rparr>)\<rparr>))))"

section \<open>Hooks\<close>

definition sv_on_killed_account :: "('a, 'd, 'w) service \<Rightarrow> 'a \<Rightarrow> ('a, 'd, 'w) service" where
  "sv_on_killed_account s who =
     (case sDevice s who of
        None \<Rightarrow> s
      | Some dev \<Rightarrow> if sp_state dev = Off then s\<lparr>sDevice := (sDevice s)(who := None)\<rparr> else s)"

text \<open>One delivered message; \<open>None\<close> where the source returns weight 0 at once.\<close>

definition sv_handle_one ::
  "('o, 'a, 'd, 'w) host \<Rightarrow> ('a, 'd) sv_Config \<Rightarrow> ('a, 'd, 'w) service \<Rightarrow> para_id \<Rightarrow> bytes
     \<Rightarrow> ('a, 'd, 'w) service option" where
  "sv_handle_one H C s sender data =
     (case decode_message H data of
        Inl e \<Rightarrow> None
      | Inr (NewOrder client ob) \<Rightarrow>
          Some (snd (sv_order_received H C s
            \<lparr>o_until = ob_until ob, o_data = ob_data ob, o_fee = ob_fee ob, o_client = client,
             o_paraid = sender\<rparr>
            (ob_device ob)))
      | Inr _ \<Rightarrow> None)"

fun sv_handle_xcmp_messages ::
  "('o, 'a, 'd, 'w) host \<Rightarrow> ('a, 'd) sv_Config \<Rightarrow> ('a, 'd, 'w) service
     \<Rightarrow> (para_id \<times> 32 word \<times> bytes) list \<Rightarrow> weight \<Rightarrow> weight \<times> ('a, 'd, 'w) service" where
  "sv_handle_xcmp_messages H C s [] max_weight = (max_weight, s)"
| "sv_handle_xcmp_messages H C s ((sender, sent_at, data) # rest) max_weight =
     (case sv_handle_one H C s sender data of
        None \<Rightarrow> (0, s)
      | Some s' \<Rightarrow> sv_handle_xcmp_messages H C s' rest max_weight)"

datatype ('a, 'd) sv_Call =
  sv_call_order "('a, 'd) OrderBase"
| sv_call_cancel 'a
| sv_call_accept bool bool
| sv_call_done bool
| sv_call_register balance moment bool
| sv_call_set_state bool

fun sv_dispatch ::
  "('o, 'a, 'd, 'w) host \<Rightarrow> ('a, 'd) sv_Config \<Rightarrow> ('a, 'd, 'w) service \<Rightarrow> 'o \<Rightarrow> ('a, 'd) sv_Call
     \<Rightarrow> (sv_Error, ('a, 'd, 'w) service) outcome" where
  "sv_dispatch H C s origin (sv_call_order ob) = sv_order H C s origin ob"
| "sv_dispatch H C s origin (sv_call_cancel device) = sv_cancel H C s origin device"
| "sv_dispatch H C s origin (sv_call_accept reject onoff) = sv_accept H C s origin reject onoff"
| "sv_dispatch H C s origin (sv_call_done onoff) = sv_done H C s origin onoff"
| "sv_dispatch H C s origin (sv_call_register penalty wcd onoff) = sv_register H s origin penalty wcd onoff"
| "sv_dispatch H C s origin (sv_call_set_state onoff) = sv_set_state H s origin onoff"

section \<open>The contract of the order policy\<close>

text \<open>What \<open>order_received\<close> asserts of \<open>OnReceived\<close>: if it takes the order, the device becomes
  busy or has accepted at once.\<close>

locale order_policy =
  fixes policy :: "'a \<Rightarrow> ('a, 'd) Order \<Rightarrow> DeviceState option"
  assumes policy_state: "policy d oo = Some st \<Longrightarrow> st = Busy \<or> st = Accepted"
begin

lemma policy_not_ready: "policy d oo \<noteq> Some Ready" "policy d oo \<noteq> Some Off" "policy d oo \<noteq> Some Timewait"
  using policy_state by fastforce+

end

declare sv_send_def [op_defs] sv_order_accept_def [op_defs] sv_store_order_def [op_defs]
  sv_order_received_def [op_defs] sv_pay_penalty_def [op_defs] sv_order_done_def [op_defs]
  sv_close_rejected_def [op_defs] sv_order_reject_def [op_defs] sv_order_def [op_defs]
  sv_cancel_def [op_defs] sv_accept_def [op_defs] sv_done_def [op_defs] sv_register_def [op_defs]
  sv_set_state_def [op_defs] sv_on_killed_account_def [op_defs] sv_deposit_event_def [op_defs]

end
