(* ===== verification/Service_Safety.thy ===== *)
theory Service_Safety
  imports Service_Pallet
begin

text \<open>
  The service-side pallet as a state machine: its labelled step relation, the life of one of
  its devices as an abstract machine, and the invariants of the reachable states.  Everything
  here needs the contract of the order policy, and nothing of the currency.
\<close>

section \<open>Steps\<close>

datatype ('o, 'a, 'd) sv_label =
  SCall 'o "('a, 'd) sv_Call"
| SDeliver "(para_id \<times> 32 word \<times> bytes) list" weight
| SKilled 'a
| SEnvironment

inductive sv_step ::
  "('o, 'a, 'd, 'w) host \<Rightarrow> ('a, 'd) sv_Config \<Rightarrow> ('a, 'd, 'w) service
     \<Rightarrow> ('o, 'a, 'd) sv_label \<Rightarrow> ('a, 'd, 'w) service \<Rightarrow> bool"
  for H :: "('o, 'a, 'd, 'w) host" and C :: "('a, 'd) sv_Config"
where
  sstep_call: "sv_step H C s (SCall origin c) (snd (sv_dispatch H C s origin c))"
| sstep_deliver: "sv_step H C s (SDeliver msgs w) (snd (sv_handle_xcmp_messages H C s msgs w))"
| sstep_killed: "sv_step H C s (SKilled a) (sv_on_killed_account s a)"
| sstep_environment: "sv_step H C s SEnvironment (s\<lparr>sWorld := v\<rparr>)"

inductive_simps sv_step_call_iff [simp]: "sv_step H C s (SCall origin c) t"
inductive_simps sv_step_deliver_iff [simp]: "sv_step H C s (SDeliver msgs w) t"
inductive_simps sv_step_killed_iff [simp]: "sv_step H C s (SKilled a) t"

definition sv_init :: "('a, 'd, 'w) service \<Rightarrow> bool" where
  "sv_init s \<longleftrightarrow> sDevice s = Map.empty \<and> sOrders s = Map.empty \<and> sEvents s = []"

section \<open>What sending a message and storing an order do\<close>

lemma sv_send_simps [simp]:
  "sDevice (sv_send H p m s) = sDevice s"
  "sOrders (sv_send H p m s) = sOrders s"
  "sEvents (sv_send H p m s) = sEvents s"
  "sWorld (sv_send H p m s)
     = snd (send_xcm H (sWorld s) (Parent, Parachain p) [Transact Native 0 (encode_message H m)])"
  by (simp_all add: sv_send_def Let_def)

lemma sv_deposit_simps [simp]:
  "sDevice (sv_deposit_event e s) = sDevice s"
  "sOrders (sv_deposit_event e s) = sOrders s"
  "sEvents (sv_deposit_event e s) = sEvents s @ [e]"
  "sWorld (sv_deposit_event e s) = sWorld s"
  by (simp_all add: sv_deposit_event_def)

lemma sv_order_accept_simps [simp]:
  "sDevice (sv_order_accept H C s oo d dev) = (sDevice s)(d \<mapsto> dev\<lparr>sp_state := Accepted\<rparr>)"
  "sOrders (sv_order_accept H C s oo d dev) = sOrders s"
  "sEvents (sv_order_accept H C s oo d dev) = sEvents s @ [SAccept d]"
  "sWorld (sv_order_accept H C s oo d dev)
     = (if o_paraid oo = SelfParaId C then sWorld s
        else sWorld (sv_send H (o_paraid oo) (OrderAccept (o_client oo) d) s))"
  by (simp_all add: sv_order_accept_def Let_def)

lemma sp_state_same [simp]: "sp_state dev = st \<Longrightarrow> dev\<lparr>sp_state := st\<rparr> = dev"
  by (cases dev) simp

lemma sv_store_order_simps [simp]:
  "sDevice (sv_store_order H C s oo d dev) = (sDevice s)(d \<mapsto> dev)"
  "sOrders (sv_store_order H C s oo d dev) = (sOrders s)(d \<mapsto> oo)"
  "sEvents (sv_store_order H C s oo d dev)
     = sEvents s @ SNewOrder d # (if sp_state dev = Accepted then [SAccept d] else [])"
  "sWorld (sv_store_order H C s oo d dev)
     = (if sp_state dev \<noteq> Accepted \<or> o_paraid oo = SelfParaId C then sWorld s
        else sWorld (sv_send H (o_paraid oo) (OrderAccept (o_client oo) d) s))"
  by (simp_all add: sv_store_order_def Let_def)

lemma sv_close_rejected_simps [simp]:
  "sDevice (sv_close_rejected s d dev) = (sDevice s)(d \<mapsto> dev)"
  "sOrders (sv_close_rejected s d dev) = (sOrders s)(d := None)"
  "sEvents (sv_close_rejected s d dev) = sEvents s @ [SReject d]"
  "sWorld (sv_close_rejected s d dev) = sWorld s"
  by (simp_all add: sv_close_rejected_def)

text \<open>The calls unfolded down to these four blocks.\<close>

lemmas sv_calls =
  sv_order_received_def sv_order_done_def sv_order_reject_def sv_order_def sv_cancel_def
  sv_accept_def sv_done_def sv_register_def sv_set_state_def

section \<open>The life of a device\<close>

inductive sv_life :: "device_view \<Rightarrow> device_view \<Rightarrow> bool" where
  slife_register_on: "sv_life (x, False) (Some Ready, False)"
| slife_register_off: "sv_life (x, False) (Some Off, False)"
| slife_switch_on: "sv_life (Some Off, b) (Some Ready, b)"
| slife_switch_off: "sv_life (Some Ready, b) (Some Off, b)"
| slife_received: "sv_life (Some Ready, False) (Some Busy, True)"
| slife_received_accepted: "sv_life (Some Ready, False) (Some Accepted, True)"
| slife_accept: "sv_life (Some Busy, True) (Some Accepted, True)"
| slife_reject_on: "x = Busy \<or> x = Accepted \<Longrightarrow> sv_life (Some x, b) (Some Ready, False)"
| slife_reject_off: "x = Busy \<or> x = Accepted \<Longrightarrow> sv_life (Some x, b) (Some Off, False)"
| slife_cancel: "sv_life (Some x, True) (Some x, False)"
| slife_removed: "sv_life (Some Off, b) (None, b)"

definition sv_view :: "('a, 'd, 'w) service \<Rightarrow> 'a \<Rightarrow> device_view" where
  "sv_view s d = (map_option sp_state (sDevice s d), sOrders s d \<noteq> None)"

lemma sv_view_world [simp]: "sv_view (s\<lparr>sWorld := w\<rparr>) d = sv_view s d"
  by (simp add: sv_view_def)

lemma sv_switch_life: "sv_switch b x = Some y \<Longrightarrow> sv_life\<^sup>=\<^sup>= (Some x, o') (Some y, o')"
  by (cases b; cases x) (auto intro: sv_life.intros)

lemma sv_life_received:
  assumes "order_policy (OnReceived C)"
  shows "sv_life\<^sup>=\<^sup>= (sv_view s d) (sv_view (snd (sv_order_received H C s oo device)) d)"
proof -
  have st: "st = Busy \<or> st = Accepted" if "OnReceived C device oo = Some st" for st
    using order_policy.policy_state [OF assms] that by blast
  show ?thesis
    by (auto simp: sv_order_received_def sv_view_def Let_def dest!: st split: result_splits
        intro: sv_life.intros)
qed

lemma sv_life_cancel: "sv_life\<^sup>=\<^sup>= (sv_view s d) (sv_view (snd (sv_cancel H C s origin device)) d)"
  by (auto simp: sv_calls sv_view_def Let_def split: result_splits intro: sv_life.intros)

lemma sv_life_accept: "sv_life\<^sup>=\<^sup>= (sv_view s d) (sv_view (snd (sv_accept H C s origin r onoff)) d)"
  by (auto simp: sv_calls sv_view_def Let_def split: result_splits intro: sv_life.intros)

lemma sv_life_done: "sv_life\<^sup>=\<^sup>= (sv_view s d) (sv_view (snd (sv_done H C s origin onoff)) d)"
  by (auto simp: sv_calls sv_view_def Let_def split: result_splits intro: sv_life.intros)

lemma sv_life_register: "sv_life\<^sup>=\<^sup>= (sv_view s d) (sv_view (snd (sv_register H s origin p w onoff)) d)"
  by (auto simp: sv_calls sv_view_def Let_def split: result_splits intro: sv_life.intros)

lemma sv_life_set_state: "sv_life\<^sup>=\<^sup>= (sv_view s d) (sv_view (snd (sv_set_state H s origin onoff)) d)"
  using sv_switch_life [of onoff]
  by (auto simp: sv_set_state_def sv_view_def split: result_splits)

lemma sv_life_killed: "sv_life\<^sup>=\<^sup>= (sv_view s d) (sv_view (sv_on_killed_account s a) d)"
  by (auto simp: sv_on_killed_account_def sv_view_def split: result_splits intro: sv_life.intros)

lemma sv_life_dispatch:
  assumes "order_policy (OnReceived C)"
  shows "sv_life\<^sup>=\<^sup>= (sv_view s d) (sv_view (snd (sv_dispatch H C s origin c)) d)"
proof (cases c)
  case (sv_call_order ob)
  then show ?thesis using sv_life_received [OF assms]
    by (cases "ensure_signed H origin") (simp_all add: sv_order_def)
qed (simp_all only: sv_dispatch.simps sv_life_cancel sv_life_accept sv_life_done sv_life_register
      sv_life_set_state)

lemma sv_life_one:
  assumes "order_policy (OnReceived C)" "sv_handle_one H C s sender data = Some t"
  shows "sv_life\<^sup>=\<^sup>= (sv_view s d) (sv_view t d)"
proof -
  obtain oo device where "t = snd (sv_order_received H C s oo device)"
    using assms(2) by (auto simp: sv_handle_one_def split: sum.splits XCMPMessage.splits)
  then show ?thesis using sv_life_received [OF assms(1)] by simp
qed

lemma sv_life_deliver:
  assumes "order_policy (OnReceived C)"
  shows "sv_life\<^sup>*\<^sup>* (sv_view s d) (sv_view (snd (sv_handle_xcmp_messages H C s msgs w)) d)"
proof (induction msgs arbitrary: s)
  case Nil
  then show ?case by simp
next
  case (Cons m msgs)
  obtain sender sent_at data where m: "m = (sender, sent_at, data)" by (cases m)
  show ?case
  proof (cases "sv_handle_one H C s sender data")
    case (Some t)
    have "sv_life\<^sup>*\<^sup>* (sv_view s d) (sv_view t d)"
      using sv_life_one [OF assms Some, of d] by (auto simp: r_into_rtranclp)
    with Cons.IH [of t] Some m show ?thesis by (simp add: rtranclp_trans)
  qed (simp add: m)
qed

lemma sv_life_step:
  assumes "order_policy (OnReceived C)"
  shows "sv_step H C s l t \<Longrightarrow> sv_life\<^sup>*\<^sup>* (sv_view s d) (sv_view t d)"
proof (induction rule: sv_step.induct)
  case (sstep_call s origin c)
  then show ?case using sv_life_dispatch [OF assms, of s d H origin c] by (auto simp: r_into_rtranclp)
next
  case (sstep_killed s a)
  then show ?case using sv_life_killed [of s d a] by (auto simp: r_into_rtranclp)
qed (simp_all add: sv_life_deliver assms)

section \<open>The terms of an open order\<close>

definition sv_terms ::
  "('a, 'd, 'w) service \<Rightarrow> 'a \<Rightarrow> ('a, 'd) Order option \<times> (balance \<times> moment) option" where
  "sv_terms s d = (sOrders s d, map_option (\<lambda>p. (sp_penalty p, sp_wcd p)) (sDevice s d))"

definition sv_keeps_terms :: "('a, 'd, 'w) service \<Rightarrow> ('a, 'd, 'w) service \<Rightarrow> 'a \<Rightarrow> bool" where
  "sv_keeps_terms s t d \<longleftrightarrow>
     (sOrders s d \<noteq> None \<longrightarrow> sOrders t d = None \<or> sv_terms t d = sv_terms s d)"

lemma sv_keeps_same [simp]:
  "sDevice t = sDevice s \<Longrightarrow> sOrders t = sOrders s \<Longrightarrow> sv_keeps_terms s t d"
  by (simp add: sv_keeps_terms_def sv_terms_def)

lemma sv_received_keeps:
  "sOrders s d = Some oo \<Longrightarrow> sOrders (snd (sv_order_received H C s oo' device)) d = Some oo
     \<and> sv_terms (snd (sv_order_received H C s oo' device)) d = sv_terms s d"
  by (auto simp: sv_order_received_def sv_terms_def Let_def split: result_splits)

lemma sv_keeps_dispatch: "sv_keeps_terms s (snd (sv_dispatch H C s origin c)) d"
proof (cases c)
  case (sv_call_order ob)
  then show ?thesis
    using sv_received_keeps [of s d _ H C _ "ob_device ob"]
    by (auto simp: sv_order_def sv_keeps_terms_def split: sum.split)
qed (auto simp: sv_calls sv_keeps_terms_def sv_terms_def Let_def split: result_splits)

lemma sv_one_keeps:
  assumes "sOrders s d = Some oo" "sv_handle_one H C s sender data = Some t"
  shows "sOrders t d = Some oo \<and> sv_terms t d = sv_terms s d"
  using assms(2) sv_received_keeps [OF assms(1)]
  by (auto simp: sv_handle_one_def split: sum.splits XCMPMessage.splits)

lemma sv_deliver_keeps:
  "sOrders s d = Some oo \<Longrightarrow> sOrders (snd (sv_handle_xcmp_messages H C s msgs w)) d = Some oo
     \<and> sv_terms (snd (sv_handle_xcmp_messages H C s msgs w)) d = sv_terms s d"
proof (induction msgs arbitrary: s)
  case (Cons m msgs)
  obtain sender sent_at data where m: "m = (sender, sent_at, data)" by (cases m)
  show ?case
  proof (cases "sv_handle_one H C s sender data")
    case (Some t)
    with sv_one_keeps [OF Cons.prems Some] Cons.IH [of t] m show ?thesis by simp
  qed (simp add: m Cons.prems)
qed simp

lemmas sv_deliver_keeps_orders = sv_deliver_keeps [THEN conjunct1]

lemma sv_keeps_deliver: "sv_keeps_terms s (snd (sv_handle_xcmp_messages H C s msgs w)) d"
  using sv_deliver_keeps [of s d _ H C msgs w] by (auto simp: sv_keeps_terms_def)

lemma sv_keeps_killed:
  "sp_state dev \<noteq> Off \<Longrightarrow> sDevice s d = Some dev \<Longrightarrow> sv_keeps_terms s (sv_on_killed_account s a) d"
  by (auto simp: sv_on_killed_account_def sv_keeps_terms_def sv_terms_def split: result_splits)

text \<open>Who can close an order by a call.\<close>

lemma sv_call_closes:
  assumes "sOrders s d = Some oo" "sOrders (snd (sv_dispatch H C s origin c)) d = None"
  shows "\<exists>who. ensure_signed H origin = Inr who
    \<and> (who = d \<or> who = o_client oo \<and> o_until oo \<le> timestamp_get H (sWorld s))"
proof (cases c)
  case (sv_call_order ob)
  then show ?thesis
    using assms sv_received_keeps [OF assms(1), of H C _ "ob_device ob"]
    by (auto simp: sv_order_def split: sum.splits)
qed (use assms in \<open>auto simp: sv_calls Let_def not_less split: result_splits\<close>)

section \<open>Message batches\<close>

lemma sv_handle_app_bad:
  assumes "\<And>client ob. decode_message H bad \<noteq> Inr (NewOrder client ob)"
  shows "sv_handle_xcmp_messages H C s (msgs @ (p, t, bad) # rest) w
           = (0, snd (sv_handle_xcmp_messages H C s msgs w))"
proof (induction msgs arbitrary: s)
  case Nil
  have "sv_handle_one H C s p bad = None"
    using assms by (auto simp: sv_handle_one_def split: sum.split XCMPMessage.split)
  then show ?case by simp
next
  case (Cons m msgs)
  obtain sender sent_at data where "m = (sender, sent_at, data)" by (cases m)
  then show ?case by (cases "sv_handle_one H C s sender data") (simp_all add: Cons.IH)
qed

section \<open>Service markets\<close>

text \<open>A service market is the pallet with a policy that keeps its contract; its devices then
  live as \<open>sv_life\<close> says.\<close>

locale sv_market =
  fixes H :: "('o, 'a, 'd, 'w) host" and C :: "('a, 'd) sv_Config"
  assumes policy: "order_policy (OnReceived C)"
begin

lemma step_life: "sv_step H C s l t \<Longrightarrow> sv_life\<^sup>*\<^sup>* (sv_view s d) (sv_view t d)"
  by (rule sv_life_step [OF policy])

end

sublocale sv_market \<subseteq> life: device_machine sv_init "sv_step H C" sv_view "\<lambda>v. v = (None, False)" sv_life
  by unfold_locales (simp add: sv_init_def sv_view_def, rule step_life)

context sv_market
begin

lemma open_order_view:
  assumes "reachable sv_init (sv_step H C) s"
  shows "(snd (sv_view s d) \<longrightarrow> fst (sv_view s d) \<in> {Some Busy, Some Accepted})
    \<and> fst (sv_view s d) \<noteq> Some Timewait"
proof (rule life.life_invariant [OF assms])
  fix v w :: device_view
  assume "(snd v \<longrightarrow> fst v \<in> {Some Busy, Some Accepted}) \<and> fst v \<noteq> Some Timewait" "sv_life v w"
  then show "(snd w \<longrightarrow> fst w \<in> {Some Busy, Some Accepted}) \<and> fst w \<noteq> Some Timewait"
    by (auto elim: sv_life.cases)
qed simp

lemma open_order_device:
  assumes "reachable sv_init (sv_step H C) s" "sOrders s d = Some oo"
  shows "\<exists>dev. sDevice s d = Some dev \<and> (sp_state dev = Busy \<or> sp_state dev = Accepted)"
  using open_order_view [OF assms(1), of d] assms(2) by (auto simp: sv_view_def)

end

end
