(* ===== verification/Service_Escrow.thy ===== *)
theory Service_Escrow
  imports Service_Safety Escrow
begin

text \<open>
  The money of the service-side pallet.  Only orders of its own chain hold funds; remote ones
  are settled by their client chain.  The theory shows what each operation moves under the
  currency's laws and that every open local order stays backed by reserved funds.
\<close>

section \<open>Local orders and what backs them\<close>

definition local_orders :: "para_id \<Rightarrow> ('a \<rightharpoonup> ('a, 'd) Order) \<Rightarrow> ('a \<rightharpoonup> ('a, 'd) Order)" where
  "local_orders p m = (\<lambda>d. case m d of
     None \<Rightarrow> None | Some oo \<Rightarrow> if o_paraid oo = p then Some oo else None)"

lemma local_orders_simps [simp]:
  "local_orders p Map.empty = Map.empty"
  "local_orders p (m(d := None)) = (local_orders p m)(d := None)"
  "o_paraid oo = p \<Longrightarrow> local_orders p (m(d \<mapsto> oo)) = (local_orders p m)(d \<mapsto> oo)"
  "o_paraid oo \<noteq> p \<Longrightarrow> local_orders p (m(d \<mapsto> oo)) = (local_orders p m)(d := None)"
  by (simp_all add: local_orders_def fun_eq_iff)

lemma local_orders_None [simp]: "m d = None \<Longrightarrow> local_orders p m d = None"
  by (simp add: local_orders_def)

lemma local_orders_Some: "local_orders p m d = Some oo \<longleftrightarrow> m d = Some oo \<and> o_paraid oo = p"
  by (auto simp: local_orders_def split: option.split)

lemma local_orders_open: "local_orders p m d \<noteq> None \<Longrightarrow> m d \<noteq> None"
  by (auto simp: local_orders_Some)

definition sv_penalty :: "('a, 'd, 'w) service \<Rightarrow> 'a \<Rightarrow> nat" where
  "sv_penalty s d = (case sDevice s d of None \<Rightarrow> 0 | Some dev \<Rightarrow> unat (sp_penalty dev))"

definition sv_engaged :: "('a, 'd, 'w) service \<Rightarrow> 'a \<Rightarrow> bool" where
  "sv_engaged s d \<longleftrightarrow> (\<exists>dev. sDevice s d = Some dev \<and> (sp_state dev = Busy \<or> sp_state dev = Accepted))"

definition sv_all_engaged :: "('a, 'd, 'w) service \<Rightarrow> bool" where
  "sv_all_engaged s \<longleftrightarrow> finite (dom (sOrders s)) \<and> (\<forall>d. sOrders s d \<noteq> None \<longrightarrow> sv_engaged s d)"

definition sv_obligation :: "para_id \<Rightarrow> ('a, 'd, 'w) service \<Rightarrow> 'a \<Rightarrow> nat" where
  "sv_obligation p s = collateral (local_orders p (sOrders s)) (sv_penalty s)"

definition sv_backed :: "('o, 'a, 'd, 'w) host \<Rightarrow> ('a, 'd) sv_Config \<Rightarrow> ('a, 'd, 'w) service \<Rightarrow> bool" where
  "sv_backed H C s \<longleftrightarrow> sv_all_engaged s
     \<and> (\<forall>a. sv_obligation (SelfParaId C) s a \<le> reserved_balance H (sWorld s) a)"

text \<open>A change that keeps every account's slack between its reserves and its obligations.\<close>

definition sv_kept :: "('o, 'a, 'd, 'w) host \<Rightarrow> ('a, 'd) sv_Config \<Rightarrow> ('a, 'd, 'w) service
    \<Rightarrow> ('a, 'd, 'w) service \<Rightarrow> bool" where
  "sv_kept H C s t \<longleftrightarrow> sv_all_engaged t
     \<and> slack_kept (local_orders (SelfParaId C) (sOrders s)) (sv_penalty s) (reserved_balance H (sWorld s))
         (local_orders (SelfParaId C) (sOrders t)) (sv_penalty t) (reserved_balance H (sWorld t))"

lemma local_orders_finite: "finite (dom m) \<Longrightarrow> finite (dom (local_orders p m))"
  by (rule finite_subset [of _ "dom m"]) (auto simp: local_orders_Some)

lemma sv_backed_covered:
  "sv_backed H C s \<longleftrightarrow> sv_all_engaged s
     \<and> covered (local_orders (SelfParaId C) (sOrders s)) (sv_penalty s) (reserved_balance H (sWorld s))"
  by (auto simp: sv_backed_def sv_obligation_def covered_def sv_all_engaged_def local_orders_finite)

lemma sv_backed_kept: "sv_backed H C s \<Longrightarrow> sv_kept H C s t \<Longrightarrow> sv_backed H C t"
  by (auto simp: sv_backed_covered sv_kept_def sv_all_engaged_def local_orders_finite
      intro: covered_slack)

lemma sv_kept_refl: "sv_backed H C s \<Longrightarrow> sv_kept H C s s"
  by (simp add: sv_backed_def sv_kept_def)

lemma sv_kept_trans: "sv_kept H C s t \<Longrightarrow> sv_kept H C t u \<Longrightarrow> sv_kept H C s u"
  by (auto simp: sv_kept_def intro: slack_trans)

lemma sv_backed_finite:
  "sv_backed H C s \<Longrightarrow> finite (dom (sOrders s))"
  "sv_backed H C s \<Longrightarrow> finite (dom (local_orders (SelfParaId C) (sOrders s)))"
  by (simp_all add: sv_backed_def sv_all_engaged_def local_orders_finite)

lemma sv_backed_engaged: "sv_backed H C s \<Longrightarrow> sOrders s d \<noteq> None \<Longrightarrow> sv_engaged s d"
  by (simp add: sv_backed_def sv_all_engaged_def)

lemma sv_penalty_dev [simp]: "sDevice s d = Some dev \<Longrightarrow> sv_penalty s d = unat (sp_penalty dev)"
  by (simp add: sv_penalty_def)

lemma sv_kept_open:
  assumes "sv_backed H C s" and none: "sOrders s d = None"
    and dev: "sp_state dev = Busy \<or> sp_state dev = Accepted"
    and orders: "sOrders t = (sOrders s)(d \<mapsto> oo)" and devices: "sDevice t = (sDevice s)(d \<mapsto> dev)"
    and funds: "\<And>a. reserved_balance H (sWorld t) a = reserved_balance H (sWorld s) a
      + (if o_paraid oo = SelfParaId C
         then (if a = d then unat (sp_penalty dev) else 0)
            + (if a = o_client oo then unat (o_fee oo) else 0)
         else 0)"
  shows "sv_kept H C s t"
proof -
  let ?local = "local_orders (SelfParaId C)"
  have pen: "sv_penalty t a = sv_penalty s a" if "a \<noteq> d" for a
    using that by (simp add: sv_penalty_def devices)
  have "slack_kept (?local (sOrders s)) (sv_penalty s) (reserved_balance H (sWorld s))
      (?local (sOrders t)) (sv_penalty t) (reserved_balance H (sWorld t))"
  proof (cases "o_paraid oo = SelfParaId C")
    case True
    show ?thesis
      unfolding orders local_orders_simps(3) [OF True]
      by (rule slack_open [OF sv_backed_finite(2) [OF assms(1)]])
        (use none pen funds True in \<open>simp_all add: devices\<close>)
  next
    case False
    have same: "?local (sOrders t) = ?local (sOrders s)"
      using False none by (simp add: orders fun_upd_idem)
    have "sv_penalty t a = sv_penalty s a" if "?local (sOrders s) a \<noteq> None" for a
      using pen [of a] that none by (cases "a = d") auto
    then show ?thesis unfolding same by (rule slack_mono) (use False funds in simp_all)
  qed
  moreover have "sv_engaged t a" if "sOrders t a \<noteq> None" for a
    using sv_backed_engaged [OF assms(1), of a] dev that
    by (cases "a = d") (simp_all add: sv_engaged_def orders devices)
  ultimately show ?thesis
    using sv_backed_finite(1) [OF assms(1)] by (simp add: sv_kept_def sv_all_engaged_def orders)
qed

lemma sv_kept_close:
  assumes "sv_backed H C s" and some: "sOrders s d = Some oo" and dev: "sDevice s d = Some dev"
    and orders: "sOrders t = (sOrders s)(d := None)" and devices: "sDevice t = (sDevice s)(d \<mapsto> dev')"
    and funds: "\<And>a. reserved_balance H (sWorld s) a \<le> reserved_balance H (sWorld t) a
      + (if o_paraid oo = SelfParaId C
         then (if a = o_client oo then unat (o_fee oo) else 0)
            + (if a = d then unat (sp_penalty dev) else 0)
         else 0)"
  shows "sv_kept H C s t"
proof -
  let ?local = "local_orders (SelfParaId C)"
  have pen: "sv_penalty t a = sv_penalty s a" if "a \<noteq> d" for a
    using that by (simp add: sv_penalty_def devices)
  have "slack_kept (?local (sOrders s)) (sv_penalty s) (reserved_balance H (sWorld s))
      (?local (sOrders t)) (sv_penalty t) (reserved_balance H (sWorld t))"
  proof (cases "o_paraid oo = SelfParaId C")
    case True
    then have here: "?local (sOrders s) d = Some oo"
      using some by (simp add: local_orders_Some)
    have "reserved_balance H (sWorld s) a \<le> reserved_balance H (sWorld t) a
        + (if a = o_client oo then unat (o_fee oo) else 0) + (if a = d then sv_penalty s d else 0)" for a
      using funds [of a] True dev by (auto split: if_splits)
    with slack_close [where p = "sv_penalty s" and p' = "sv_penalty t"
        and R' = "reserved_balance H (sWorld t)", OF sv_backed_finite(2) [OF assms(1)] here pen]
    show ?thesis unfolding orders local_orders_simps by blast
  next
    case False
    then have none: "?local (sOrders s) d = None"
      using some by (simp add: local_orders_def)
    then have same: "?local (sOrders t) = ?local (sOrders s)"
      by (simp add: orders fun_upd_idem)
    have "sv_penalty t a = sv_penalty s a" if "?local (sOrders s) a \<noteq> None" for a
      using pen [of a] that none by (cases "a = d") auto
    moreover have "reserved_balance H (sWorld s) a \<le> reserved_balance H (sWorld t) a" for a
      using funds [of a] False by simp
    ultimately show ?thesis unfolding same by (intro slack_mono) simp_all
  qed
  moreover have "sv_engaged t a" if "sOrders t a \<noteq> None" for a
    using sv_backed_engaged [OF assms(1), of a] that
    by (cases "a = d") (simp_all add: sv_engaged_def orders devices)
  ultimately show ?thesis
    using sv_backed_finite(1) [OF assms(1)] by (simp add: sv_kept_def sv_all_engaged_def orders)
qed

lemma sv_kept_mono:
  assumes "sv_backed H C s" and orders: "sOrders t = sOrders s"
    and devices: "\<And>d dev. sOrders s d \<noteq> None \<Longrightarrow> sDevice s d = Some dev \<Longrightarrow>
      sp_state dev = Busy \<or> sp_state dev = Accepted \<Longrightarrow>
      \<exists>dev'. sDevice t d = Some dev' \<and> sp_penalty dev' = sp_penalty dev
        \<and> (sp_state dev' = Busy \<or> sp_state dev' = Accepted)"
    and funds: "\<And>a. reserved_balance H (sWorld s) a \<le> reserved_balance H (sWorld t) a"
  shows "sv_kept H C s t"
proof -
  have open_dev: "sv_engaged t d \<and> sv_penalty t d = sv_penalty s d" if some: "sOrders s d \<noteq> None" for d
  proof -
    obtain dev where dev: "sDevice s d = Some dev" "sp_state dev = Busy \<or> sp_state dev = Accepted"
      using sv_backed_engaged [OF assms(1) some] by (auto simp: sv_engaged_def)
    from devices [OF some dev] dev(1) show ?thesis by (auto simp: sv_engaged_def)
  qed
  have "slack_kept (local_orders (SelfParaId C) (sOrders s)) (sv_penalty s) (reserved_balance H (sWorld s))
      (local_orders (SelfParaId C) (sOrders s)) (sv_penalty t) (reserved_balance H (sWorld t))"
  proof (rule slack_mono)
    show "sv_penalty t a = sv_penalty s a" if "local_orders (SelfParaId C) (sOrders s) a \<noteq> None" for a
      using open_dev [OF local_orders_open [OF that]] by simp
  qed (rule funds)
  with open_dev sv_backed_finite(1) [OF assms(1)] show ?thesis
    by (simp add: sv_kept_def sv_all_engaged_def orders)
qed

lemma sv_kept_world:
  assumes "sv_backed H C s" "sDevice t = sDevice s" "sOrders t = sOrders s"
    and "\<And>a. reserved_balance H (sWorld s) a \<le> reserved_balance H (sWorld t) a"
  shows "sv_kept H C s t"
  by (rule sv_kept_mono [OF assms(1,3)]) (use assms in simp_all)

section \<open>What the operations move\<close>

lemma sv_send_same:
  assumes "currency_laws H"
  shows "same_funds H (sWorld s) (sWorld (sv_send H p msg s))"
  using send_same [OF assms, of "sWorld s" "(Parent, Parachain p)" "[Transact Native 0 (encode_message H msg)]"]
  by (metis prod.collapse sv_send_simps(4))

lemma sv_pay_penalty_moves:
  assumes "currency_laws H" "sv_pay_penalty H w oo now d dev = (Inr r, w')"
  shows "moved_from_reserved H w d (if now < o_until oo then d else o_client oo)
    (min (unat (sp_penalty dev)) (reserved_balance H w d)) w'"
  using assms(2) unreserve_moves [OF assms(1)] repatriate_ok [OF assms(1)]
  by (auto simp: sv_pay_penalty_def prod_eq_iff split: if_splits)

lemma sv_pay_penalty_err:
  assumes "currency_laws H" "sv_pay_penalty H w oo now d dev = (Inl e, w')"
  shows "same_funds H w w' \<and> o_until oo \<le> now"
  using assms(2) repatriate_err [OF assms(1)] by (auto simp: sv_pay_penalty_def not_less split: if_splits)

lemma sv_backed_covers:
  assumes "sv_backed H C s" "sOrders s d = Some oo" "o_paraid oo = SelfParaId C" "sDevice s d = Some dev"
  shows "unat (o_fee oo) + (if o_client oo = d then unat (sp_penalty dev) else 0)
           \<le> reserved_balance H (sWorld s) (o_client oo)"
    and "unat (sp_penalty dev) \<le> reserved_balance H (sWorld s) d"
  using covered_settles [of "local_orders (SelfParaId C) (sOrders s)" "sv_penalty s"
      "reserved_balance H (sWorld s)" d oo] assms
  by (auto simp: sv_backed_covered local_orders_Some)

text \<open>Two payments of a settlement, whatever the first one is.\<close>

lemma sv_settlement_releases:
  assumes laws: "currency_laws H" and "sv_backed H C s"
    and "sOrders s d = Some oo" "o_paraid oo = SelfParaId C" "sDevice s d = Some dev0"
    and "moved_from_reserved H (sWorld s) (o_client oo) x
      (min (unat (o_fee oo)) (reserved_balance H (sWorld s) (o_client oo))) w1"
    and "sv_pay_penalty H w1 oo now d dev = (Inr r, w2)" "sp_penalty dev = sp_penalty dev0"
  shows "released H (sWorld s) w2 (o_client oo) x (unat (o_fee oo))
           d (if now < o_until oo then d else o_client oo) (unat (sp_penalty dev0))"
  by (rule released_by_moves [OF assms(6)])
    (use sv_pay_penalty_moves [OF laws assms(7)] assms(8) sv_backed_covers [OF assms(2-5)] in simp_all)

section \<open>Opening an order\<close>

lemma sv_order_received_okE:
  assumes "sv_order_received H C s oo d = (Inr (), t)"
  obtains dev st w1 w2 where
    "timestamp_get H (sWorld s) < o_until oo" "sOrders s d = None" "sDevice s d = Some dev"
    "sp_state dev = Ready" "\<not> o_until oo < timestamp_get H (sWorld s) + sp_wcd dev"
    "OnReceived C d oo = Some st"
    "if o_paraid oo = SelfParaId C
     then can_reserve H (sWorld s) (o_client oo) (o_fee oo)
       \<and> reserve H (sWorld s) d (sp_penalty dev) = (Inr (), w1)
       \<and> reserve H w1 (o_client oo) (o_fee oo) = (Inr (), w2)
     else w2 = sWorld s"
    "t = sv_store_order H C (s\<lparr>sWorld := w2\<rparr>) oo d (dev\<lparr>sp_state := st\<rparr>)"
  using assms by (auto simp: sv_order_received_def Let_def not_le split: result_splits)

lemma sv_order_received_failed:
  assumes "currency_laws H" "sv_order_received H C s oo d = (Inl e, t)"
  shows "sDevice t = sDevice s \<and> sOrders t = sOrders s \<and> sEvents t = sEvents s
    \<and> (same_funds H (sWorld s) (sWorld t)
       \<or> o_paraid oo = SelfParaId C \<and> (\<exists>dev. sDevice s d = Some dev
            \<and> moved_to_reserved H (sWorld s) d (unat (sp_penalty dev)) (sWorld t)))"
proof -
  have refl: "same_funds H w w" for w by (simp add: same_funds_def)
  have second: "moved_to_reserved H w a n w2"
    if "moved_to_reserved H w a n w1" "same_funds H w1 w2" for w w1 w2 a n
    using that by (simp add: moved_to_reserved_def same_funds_def)
  show ?thesis
    using assms(2) refl second reserve_ok [OF assms(1)] reserve_err [OF assms(1)]
    by (auto simp: sv_order_received_def Let_def split: result_splits) blast+
qed

lemma sv_store_order_same:
  assumes "currency_laws H"
  shows "same_funds H (sWorld s) (sWorld (sv_store_order H C s oo d dev))"
  using sv_send_same [OF assms] by (auto simp: same_funds_def simp del: sv_send_simps)

text \<open>Exactly what a received order moves: nothing for a remote one, penalty and fee for a local
  one, and never more than from one side of an account to the other.\<close>

lemma sv_order_received_moves:
  assumes laws: "currency_laws H" and "sv_order_received H C s oo d = (Inr (), t)"
    and "sDevice s d = Some dev"
  shows "reserved_balance H (sWorld t) a = reserved_balance H (sWorld s) a
      + (if o_paraid oo = SelfParaId C
         then (if a = d then unat (sp_penalty dev) else 0)
            + (if a = o_client oo then unat (o_fee oo) else 0)
         else 0)
    \<and> holdings H (sWorld t) a = holdings H (sWorld s) a"
proof (rule sv_order_received_okE [OF assms(2)])
  fix dev' st w1 w2
  assume a: "sDevice s d = Some dev'"
    and r: "if o_paraid oo = SelfParaId C
     then can_reserve H (sWorld s) (o_client oo) (o_fee oo)
       \<and> reserve H (sWorld s) d (sp_penalty dev') = (Inr (), w1)
       \<and> reserve H w1 (o_client oo) (o_fee oo) = (Inr (), w2)
     else w2 = sWorld s"
    and t: "t = sv_store_order H C (s\<lparr>sWorld := w2\<rparr>) oo d (dev'\<lparr>sp_state := st\<rparr>)"
  have same: "same_funds H w2 (sWorld t)"
    using sv_store_order_same [OF laws, of "s\<lparr>sWorld := w2\<rparr>" C oo d "dev'\<lparr>sp_state := st\<rparr>"]
    by (simp add: t del: sv_store_order_simps)
  show ?thesis
  proof (cases "o_paraid oo = SelfParaId C")
    case True
    with r have r1: "reserve H (sWorld s) d (sp_penalty dev') = (Inr (), w1)"
      and r2: "reserve H w1 (o_client oo) (o_fee oo) = (Inr (), w2)" by auto
    from reserves_for_order [OF laws r1 r2 same, of a] True a assms(3) show ?thesis
      by (auto simp: holdings_def split: if_splits)
  next
    case False
    with r same show ?thesis by (simp add: same_funds_def holdings_def)
  qed
qed

lemma sv_store_order_engages:
  assumes "st = Busy \<or> st = Accepted"
  shows "sDevice (sv_store_order H C s oo d (dev\<lparr>sp_state := st\<rparr>)) = (sDevice s)(d \<mapsto> dev\<lparr>sp_state := st\<rparr>)"
  by simp

lemma sv_kept_received:
  assumes laws: "currency_laws H" and policy: "order_policy (OnReceived C)" and backed: "sv_backed H C s"
  shows "sv_kept H C s (snd (sv_order_received H C s oo d))"
proof -
  obtain r t where r: "sv_order_received H C s oo d = (r, t)" by fastforce
  have "sv_kept H C s t"
  proof (cases r)
    case (Inl e)
    note failed = sv_order_received_failed [OF laws r [unfolded Inl]]
    then have "reserved_balance H (sWorld s) a \<le> reserved_balance H (sWorld t) a" for a
      by (auto simp: same_funds_def moved_to_reserved_def)
    with failed show ?thesis using sv_kept_world [OF backed] by simp
  next
    case (Inr u)
    then have ok: "sv_order_received H C s oo d = (Inr (), t)" using r by simp
    obtain dev st w2 where o: "sOrders s d = None" "sDevice s d = Some dev"
        "OnReceived C d oo = Some st" "t = sv_store_order H C (s\<lparr>sWorld := w2\<rparr>) oo d (dev\<lparr>sp_state := st\<rparr>)"
      by (rule sv_order_received_okE [OF ok]) blast
    have "st = Busy \<or> st = Accepted" using order_policy.policy_state [OF policy o(3)] .
    then show ?thesis
      using sv_kept_open [OF backed o(1), of "dev\<lparr>sp_state := st\<rparr>" t oo]
        sv_order_received_moves [OF laws ok o(2)]
      by (simp add: o(4) del: sv_store_order_simps(4))
  qed
  with r show ?thesis by simp
qed

text \<open>Orders of other parachains.\<close>

lemma same_funds_refl [simp]: "same_funds H w w"
  by (simp add: same_funds_def)

lemma same_funds_trans: "same_funds H u v \<Longrightarrow> same_funds H v w \<Longrightarrow> same_funds H u w"
  by (simp add: same_funds_def)

lemma sv_received_remote_same:
  assumes "currency_laws H" "o_paraid oo \<noteq> SelfParaId C"
  shows "same_funds H (sWorld s) (sWorld (snd (sv_order_received H C s oo d)))"
  using assms(2) sv_store_order_same [OF assms(1), of s]
  by (auto simp: sv_order_received_def Let_def simp del: sv_store_order_simps(4) split: result_splits)

lemma sv_deliver_same_funds:
  assumes "currency_laws H"
  shows "\<forall>(sender, sent_at, data)\<in>set msgs. sender \<noteq> SelfParaId C
    \<Longrightarrow> same_funds H (sWorld s) (sWorld (snd (sv_handle_xcmp_messages H C s msgs w)))"
proof (induction msgs arbitrary: s)
  case (Cons m msgs)
  obtain sender sent_at data where m: "m = (sender, sent_at, data)" by (cases m)
  show ?case
  proof (cases "sv_handle_one H C s sender data")
    case (Some t)
    with Cons.prems m have "same_funds H (sWorld s) (sWorld t)"
      by (auto simp: sv_handle_one_def intro: sv_received_remote_same [OF assms]
          split: sum.splits XCMPMessage.splits)
    moreover have "same_funds H (sWorld t) (sWorld (snd (sv_handle_xcmp_messages H C t msgs w)))"
      using Cons m by simp
    ultimately show ?thesis using Some m same_funds_trans by fastforce
  qed (simp add: m)
qed simp

section \<open>Closing an order\<close>

lemma sv_order_reject_ok_simps:
  assumes "sv_order_reject H C s oo now d dev onoff = (Inr (), t)"
  shows "sOrders t = (sOrders s)(d := None)" "sDevice t = (sDevice s)(d \<mapsto> dev)"
    "sEvents t = sEvents s @ [SReject d]"
  using assms by (auto simp: sv_order_reject_def Let_def split: result_splits)

lemma sv_order_reject_module: "fst (sv_order_reject H C s oo now d dev onoff) \<noteq> Inl (Module e)"
  by (auto simp: sv_order_reject_def Let_def split: result_splits)

lemma sv_order_reject_releases:
  assumes laws: "currency_laws H" and backed: "sv_backed H C s"
    and oo: "sOrders s d = Some oo" "o_paraid oo = SelfParaId C" "sDevice s d = Some dev0"
    and pen: "sp_penalty dev = sp_penalty dev0"
    and r: "sv_order_reject H C s (Some oo) now d dev onoff = (Inr (), t)"
  shows "released H (sWorld s) (sWorld t) (o_client oo) (o_client oo) (unat (o_fee oo))
           d (if now < o_until oo then d else o_client oo) (unat (sp_penalty dev0))"
proof -
  obtain x w1 where w1: "unreserve H (sWorld s) (o_client oo) (o_fee oo) = (x, w1)" by fastforce
  obtain y w2 where w2: "sv_pay_penalty H w1 oo now d dev = (Inr y, w2)" and t: "sWorld t = w2"
    using r oo(2) by (auto simp: sv_order_reject_def Let_def w1 split: result_splits)
  show ?thesis
    using sv_settlement_releases [OF laws backed oo unreserve_moves [OF laws w1] w2 pen] t by simp
qed

lemma sv_order_reject_remote:
  assumes "o_paraid oo \<noteq> SelfParaId C"
  shows "sv_order_reject H C s (Some oo) now d dev onoff
    = (Inr (), sv_close_rejected (sv_send H (o_paraid oo) (OrderReject (o_client oo) d onoff) s) d dev)"
  using assms by (simp add: sv_order_reject_def)

lemma sv_kept_reject:
  assumes laws: "currency_laws H" and backed: "sv_backed H C s" and dev0: "sDevice s d = Some dev0"
    and pen: "sp_penalty dev = sp_penalty dev0"
    and "\<not> refused (sv_order_reject H C s (sOrders s d) now d dev onoff)"
  shows "sv_kept H C s (snd (sv_order_reject H C s (sOrders s d) now d dev onoff))"
proof -
  obtain r t where r: "sv_order_reject H C s (sOrders s d) now d dev onoff = (r, t)" by fastforce
  then have "r = Inr ()"
    using assms(5) sv_order_reject_module [of H C s "sOrders s d" now d dev onoff]
    by (cases r; cases "projl r") (auto simp: refused_def)
  with r have ok: "sv_order_reject H C s (sOrders s d) now d dev onoff = (Inr (), t)" by simp
  note simps = sv_order_reject_ok_simps [OF ok]
  have "sv_kept H C s t"
  proof (cases "sOrders s d")
    case None
    then have "t = sv_close_rejected s d dev" using ok by (simp add: sv_order_reject_def)
    then show ?thesis
      using None by (intro sv_kept_mono [OF backed]) (auto simp: fun_upd_idem)
  next
    case (Some oo)
    show ?thesis
    proof (rule sv_kept_close [OF backed Some dev0 simps(1,2)])
      fix a
      show "reserved_balance H (sWorld s) a \<le> reserved_balance H (sWorld t) a
        + (if o_paraid oo = SelfParaId C
           then (if a = o_client oo then unat (o_fee oo) else 0)
              + (if a = d then unat (sp_penalty dev0) else 0)
           else 0)"
      proof (cases "o_paraid oo = SelfParaId C")
        case True
        from released_reserves [OF sv_order_reject_releases [OF laws backed Some True dev0 pen
            ok [unfolded Some]], of a] True
        show ?thesis by simp
      next
        case False
        with ok Some sv_send_same [OF laws] show ?thesis
          by (auto simp: sv_order_reject_remote same_funds_def simp del: sv_send_simps)
      qed
    qed
  qed
  with r show ?thesis by simp
qed

text \<open>A completion, whether or not the currency refuses a payment: the order is closed and at
  most its fee and its penalty leave the reserves.\<close>

lemma sv_order_done_simps:
  assumes "sv_order_done H C s oo now d dev onoff = (r, t)"
  shows "sOrders t = sOrders s"
    "sDevice t = (sDevice s)(d \<mapsto> dev\<lparr>sp_state := (if onoff then Ready else Off)\<rparr>)"
    "sEvents t = sEvents s @ (if r = Inr () then [SDone d] else [])"
  using assms by (auto simp: sv_order_done_def Let_def split: result_splits)

lemma sv_order_done_releases:
  assumes laws: "currency_laws H" and backed: "sv_backed H C s"
    and oo: "sOrders s d = Some oo" "o_paraid oo = SelfParaId C" "sDevice s d = Some dev"
    and r: "sv_order_done H C (s\<lparr>sOrders := os\<rparr>) oo now d dev onoff = (Inr (), t)"
  shows "released H (sWorld s) (sWorld t) (o_client oo) d (unat (o_fee oo))
           d (if now < o_until oo then d else o_client oo) (unat (sp_penalty dev))"
proof -
  let ?dev = "dev\<lparr>sp_state := (if onoff then Ready else Off)\<rparr>"
  obtain x y w1 w2 where w1: "repatriate_reserved H (sWorld s) (o_client oo) d (o_fee oo) Free = (Inr x, w1)"
    and w2: "sv_pay_penalty H w1 oo now d ?dev = (Inr y, w2)" and t: "sWorld t = w2"
    using r oo(2) by (auto simp: sv_order_done_def Let_def split: sum.splits prod.splits)
  show ?thesis
    using sv_settlement_releases [OF laws backed oo repatriate_ok [OF laws w1] w2] t by simp
qed

lemma sv_order_done_reserves:
  assumes laws: "currency_laws H"
    and r: "sv_order_done H C s oo now d dev onoff = (r, t)"
  shows "reserved_balance H (sWorld s) a \<le> reserved_balance H (sWorld t) a
    + (if o_paraid oo = SelfParaId C
       then (if a = o_client oo then unat (o_fee oo) else 0)
          + (if a = d then unat (sp_penalty dev) else 0)
       else 0)"
proof (cases "o_paraid oo = SelfParaId C")
  case False
  with r show ?thesis using sv_send_same [OF laws]
    by (auto simp: sv_order_done_def Let_def same_funds_def simp del: sv_send_simps(4))
next
  case True
  let ?dev = "dev\<lparr>sp_state := (if onoff then Ready else Off)\<rparr>"
  obtain x w1 where w1: "repatriate_reserved H (sWorld s) (o_client oo) d (o_fee oo) Free = (x, w1)"
    by fastforce
  show ?thesis
  proof (cases x)
    case (Inl e)
    with r w1 True repatriate_err [OF laws, of "sWorld s" "o_client oo" d "o_fee oo" e w1] show ?thesis
      by (auto simp: sv_order_done_def Let_def same_funds_def)
  next
    case (Inr v)
    have m1: "reserved_balance H (sWorld s) b \<le> reserved_balance H w1 b
        + (if b = o_client oo then unat (o_fee oo) else 0)" for b
      using repatriate_ok [OF laws w1 [unfolded Inr]] by (auto simp: moved_from_reserved_def)
    obtain y w2 where w2: "sv_pay_penalty H w1 oo now d ?dev = (y, w2)" by fastforce
    have m2: "reserved_balance H w1 b \<le> reserved_balance H w2 b
        + (if b = d then unat (sp_penalty dev) else 0)" for b
      using w2 sv_pay_penalty_moves [OF laws, of w1 oo now d ?dev] sv_pay_penalty_err [OF laws, of w1 oo now d ?dev]
      by (cases y) (fastforce simp: moved_from_reserved_def same_funds_def)+
    have "sWorld t = w2"
      using r w1 w2 True Inr by (auto simp: sv_order_done_def Let_def split: sum.splits)
    with m1 [of a] m2 [of a] True show ?thesis by simp
  qed
qed

lemma sv_kept_done:
  assumes laws: "currency_laws H" and backed: "sv_backed H C s"
  shows "sv_kept H C s (snd (sv_done H C s origin onoff))"
proof (cases "\<exists>who dev oo. ensure_signed H origin = Inr who \<and> sDevice s who = Some dev
    \<and> sp_state dev = Accepted \<and> sOrders s who = Some oo")
  case False
  with sv_kept_refl [OF backed] show ?thesis by (auto simp: sv_done_def Let_def split: result_splits)
next
  case True
  then obtain who dev oo where o: "ensure_signed H origin = Inr who" "sDevice s who = Some dev"
    "sp_state dev = Accepted" "sOrders s who = Some oo" by blast
  obtain r t where r: "sv_order_done H C (s\<lparr>sOrders := (sOrders s)(who := None)\<rparr>) oo
      (timestamp_get H (sWorld s)) who dev onoff = (r, t)" by fastforce
  have "sv_kept H C s t"
    by (rule sv_kept_close [OF backed o(4,2)])
      (use sv_order_done_simps [OF r] sv_order_done_reserves [OF laws r] in auto)
  then show ?thesis using o r by (simp add: sv_done_def Let_def)
qed

section \<open>The remaining operations\<close>

lemma sv_kept_cancel:
  assumes "currency_laws H" "sv_backed H C s" "\<not> refused (sv_cancel H C s origin device)"
  shows "sv_kept H C s (snd (sv_cancel H C s origin device))"
proof (cases "sOrders s device")
  case None
  with sv_kept_refl [OF assms(2)] show ?thesis by (auto simp: sv_cancel_def split: sum.split)
next
  case (Some oo)
  with assms sv_kept_reject [OF assms(1,2), of device] sv_kept_refl [OF assms(2)] show ?thesis
    by (auto simp: sv_cancel_def Let_def split: result_splits)
qed

lemma sv_kept_accept:
  assumes laws: "currency_laws H" and backed: "sv_backed H C s"
    and "reject \<Longrightarrow> \<not> refused (sv_accept H C s origin reject onoff)"
  shows "sv_kept H C s (snd (sv_accept H C s origin reject onoff))"
proof (cases reject)
  case True
  have "sv_kept H C s (snd (sv_order_reject H C s (sOrders s who) now who (dev\<lparr>sp_state := st\<rparr>) onoff))"
    if "sDevice s who = Some dev"
      "\<not> refused (sv_order_reject H C s (sOrders s who) now who (dev\<lparr>sp_state := st\<rparr>) onoff)" for who now dev st
    by (rule sv_kept_reject [OF laws backed that(1) _ that(2)]) simp
  with True assms(3) sv_kept_refl [OF backed] show ?thesis
    by (auto simp: sv_accept_def Let_def split: result_splits)
next
  case False
  have "sv_kept H C s (sv_order_accept H C s oo who dev)" if "sDevice s who = Some dev" for oo who dev
  proof (rule sv_kept_mono [OF backed])
    fix a
    show "reserved_balance H (sWorld s) a \<le> reserved_balance H (sWorld (sv_order_accept H C s oo who dev)) a"
      using sv_send_same [OF laws] by (simp add: same_funds_def del: sv_send_simps(4))
  qed (use that in auto)
  with False sv_kept_refl [OF backed] show ?thesis
    by (auto simp: sv_accept_def Let_def split: result_splits)
qed

lemma sv_kept_register:
  assumes "sv_backed H C s"
  shows "sv_kept H C s (snd (sv_register H s origin pen wcd onoff))"
  by (rule sv_kept_mono [OF assms]) (auto simp: sv_register_def split: result_splits)

lemma sv_kept_set_state:
  assumes "sv_backed H C s"
  shows "sv_kept H C s (snd (sv_set_state H s origin onoff))"
  by (rule sv_kept_mono [OF assms]) (auto simp: sv_set_state_def split: result_splits)

lemma sv_kept_killed:
  assumes "sv_backed H C s"
  shows "sv_kept H C s (sv_on_killed_account s a)"
  by (rule sv_kept_mono [OF assms]) (auto simp: sv_on_killed_account_def split: option.splits)

lemma sv_kept_order:
  assumes "currency_laws H" "order_policy (OnReceived C)" "sv_backed H C s"
  shows "sv_kept H C s (snd (sv_order H C s origin ob))"
  using sv_kept_received [OF assms] sv_kept_refl [OF assms(3)] by (auto simp: sv_order_def split: sum.split)

section \<open>The escrow invariant\<close>

text \<open>Calls that settle by giving the fee back.\<close>

fun sv_gives_back :: "('a, 'd) sv_Call \<Rightarrow> bool" where
  "sv_gives_back (sv_call_cancel d) = True"
| "sv_gives_back (sv_call_accept reject onoff) = reject"
| "sv_gives_back _ = False"

inductive sv_sound_step ::
  "('o, 'a, 'd, 'w) host \<Rightarrow> ('a, 'd) sv_Config \<Rightarrow> ('a, 'd, 'w) service \<Rightarrow> ('o, 'a, 'd) sv_label
     \<Rightarrow> ('a, 'd, 'w) service \<Rightarrow> bool"
  for H :: "('o, 'a, 'd, 'w) host" and C :: "('a, 'd) sv_Config"
where
  ssound_call: "(sv_gives_back c \<Longrightarrow> \<not> refused (sv_dispatch H C s origin c)) \<Longrightarrow>
    sv_sound_step H C s (SCall origin c) (snd (sv_dispatch H C s origin c))"
| ssound_deliver: "sv_sound_step H C s (SDeliver msgs w) (snd (sv_handle_xcmp_messages H C s msgs w))"
| ssound_killed: "sv_sound_step H C s (SKilled a) (sv_on_killed_account s a)"
| ssound_environment:
    "(\<And>a. reserved_balance H (sWorld s) a \<le> reserved_balance H v a) \<Longrightarrow>
    sv_sound_step H C s SEnvironment (s\<lparr>sWorld := v\<rparr>)"

lemma sv_kept_dispatch:
  assumes "currency_laws H" "order_policy (OnReceived C)" "sv_backed H C s"
    and "sv_gives_back c \<Longrightarrow> \<not> refused (sv_dispatch H C s origin c)"
  shows "sv_kept H C s (snd (sv_dispatch H C s origin c))"
  using assms(4)
  by (cases c) (simp_all add: sv_kept_order sv_kept_cancel sv_kept_accept sv_kept_done
    sv_kept_register sv_kept_set_state assms(1-3))

lemma sv_kept_deliver:
  assumes "currency_laws H" "order_policy (OnReceived C)"
  shows "sv_backed H C s \<Longrightarrow> sv_kept H C s (snd (sv_handle_xcmp_messages H C s msgs w))"
proof (induction msgs arbitrary: s)
  case (Cons m msgs)
  obtain sender sent_at data where m: "m = (sender, sent_at, data)" by (cases m)
  show ?case
  proof (cases "sv_handle_one H C s sender data")
    case (Some t)
    then have kept: "sv_kept H C s t"
      using sv_kept_received [OF assms Cons.prems]
      by (auto simp: sv_handle_one_def split: sum.splits XCMPMessage.splits)
    from sv_kept_trans [OF kept Cons.IH [OF sv_backed_kept [OF Cons.prems kept]]] Some m
    show ?thesis by simp
  qed (simp add: m sv_kept_refl Cons.prems)
qed (simp add: sv_kept_refl)

lemma sv_kept_sound_step:
  assumes "currency_laws H" "order_policy (OnReceived C)"
  shows "sv_sound_step H C s l t \<Longrightarrow> sv_backed H C s \<Longrightarrow> sv_kept H C s t"
proof (induction rule: sv_sound_step.induct)
  case (ssound_environment s v)
  then show ?case by - (rule sv_kept_world [of H C s], simp_all)
next
  case (ssound_call c s origin)
  then show ?case by (blast intro: sv_kept_dispatch [OF assms])
qed (simp_all add: sv_kept_deliver sv_kept_killed assms)

lemma sv_sound_reachable:
  "reachable sv_init (sv_sound_step H C) s \<Longrightarrow> reachable sv_init (sv_step H C) s"
proof (induction rule: reachable.induct)
  case (reachable_step s l t)
  from reachable_step(2) have "sv_step H C s l t"
    by (cases rule: sv_sound_step.cases) (auto intro: sv_step.intros)
  with reachable_step(3) show ?case by (rule reachable.reachable_step)
qed (rule reachable.reachable_init)

lemma sv_backed_init: "sv_init s \<Longrightarrow> sv_backed H C s"
  by (simp add: sv_init_def sv_backed_def sv_all_engaged_def sv_obligation_def collateral_def
      order_fees_def)

interpretation sv_escrow: transition_system sv_init "sv_sound_step H C"
    "\<lambda>s. currency_laws H \<and> order_policy (OnReceived C) \<longrightarrow> sv_backed H C s"
  by unfold_locales
    (blast intro: sv_backed_init, blast dest: sv_kept_sound_step sv_backed_kept)

end
