(* ===== verification/Bank_Runtime.thy ===== *)
theory Bank_Runtime
  imports Runtime_Constants Template_Pallet Xchange_Escrow Service_Escrow
begin

text \<open>
  The marketplace as the runtime composes it (\<open>runtime/src/lib.rs\<close>): the template pallet and
  both marketplace pallets over one shared rest of the chain, with one currency for both.  The
  service takes every order (\<open>AcceptOnReceive\<close>).  The runtime hands sibling messages to
  \<open>XcmpQueue\<close> and sets \<open>OnKilledAccount = ()\<close>, so the message handlers and account hooks of
  the two pallets are never called: its steps are signed calls and the rest of the chain.
\<close>

section \<open>Configuration\<close>

definition AcceptOnReceive :: "'a \<Rightarrow> ('a, 'd) Order \<Rightarrow> DeviceState option" where
  "AcceptOnReceive device order = Some Accepted"

definition bank_service_config :: "para_id \<Rightarrow> ('a, 'd) sv_Config" where
  "bank_service_config para_id = \<lparr>SelfParaId = para_id, OnReceived = AcceptOnReceive\<rparr>"

interpretation accept_on_receive: order_policy AcceptOnReceive
  by unfold_locales (simp add: AcceptOnReceive_def)

lemma bank_service_config_simps [simp]:
  "SelfParaId (bank_service_config p) = p"
  "OnReceived (bank_service_config p) = AcceptOnReceive"
  by (simp_all add: bank_service_config_def)

lemma bank_policy: "order_policy (OnReceived (bank_service_config p))"
  by (simp add: accept_on_receive.order_policy_axioms)

interpretation bank_market: sv_market H "bank_service_config p" for H p
  by (rule sv_market.intro) (rule bank_policy)

section \<open>State\<close>

text \<open>The pallets' own storage, and one rest of the chain.  Each pallet runs on its part.\<close>

record ('a, 'd, 'w) bank =
  bTemplate :: "'a template"
  bXchange :: "('a, 'd, unit) xchange"
  bService :: "('a, 'd, unit) service"
  bWorld :: 'w

definition xc_part :: "('a, 'd, 'w) bank \<Rightarrow> ('a, 'd, 'w) xchange" where
  "xc_part b = \<lparr>xDevice = xDevice (bXchange b), xOrders = xOrders (bXchange b),
                xEvents = xEvents (bXchange b), xWorld = bWorld b\<rparr>"

definition put_xc :: "('a, 'd, 'w) bank \<Rightarrow> ('a, 'd, 'w) xchange \<Rightarrow> ('a, 'd, 'w) bank" where
  "put_xc b x = b\<lparr>bXchange := \<lparr>xDevice = xDevice x, xOrders = xOrders x, xEvents = xEvents x, xWorld = ()\<rparr>,
                  bWorld := xWorld x\<rparr>"

definition sv_part :: "('a, 'd, 'w) bank \<Rightarrow> ('a, 'd, 'w) service" where
  "sv_part b = \<lparr>sDevice = sDevice (bService b), sOrders = sOrders (bService b),
                sEvents = sEvents (bService b), sWorld = bWorld b\<rparr>"

definition put_sv :: "('a, 'd, 'w) bank \<Rightarrow> ('a, 'd, 'w) service \<Rightarrow> ('a, 'd, 'w) bank" where
  "put_sv b x = b\<lparr>bService := \<lparr>sDevice = sDevice x, sOrders = sOrders x, sEvents = sEvents x, sWorld = ()\<rparr>,
                  bWorld := sWorld x\<rparr>"

lemma parts [simp]:
  "xc_part (put_xc b x) = x"
  "sv_part (put_sv b y) = y"
  "sv_part (put_xc b x) = (sv_part b)\<lparr>sWorld := xWorld x\<rparr>"
  "xc_part (put_sv b y) = (xc_part b)\<lparr>xWorld := sWorld y\<rparr>"
  "xc_part (b\<lparr>bWorld := w\<rparr>) = (xc_part b)\<lparr>xWorld := w\<rparr>"
  "sv_part (b\<lparr>bWorld := w\<rparr>) = (sv_part b)\<lparr>sWorld := w\<rparr>"
  "xc_part (b\<lparr>bTemplate := t\<rparr>) = xc_part b"
  "sv_part (b\<lparr>bTemplate := t\<rparr>) = sv_part b"
  "xWorld (xc_part b) = bWorld b"
  "sWorld (sv_part b) = bWorld b"
  "bWorld (put_xc b x) = xWorld x"
  "bWorld (put_sv b y) = sWorld y"
  by (simp_all add: xc_part_def sv_part_def put_xc_def put_sv_def)

section \<open>Calls\<close>

datatype ('a, 'd) bank_Call =
  TemplateCall template_Call
| XchangeCall "('a, 'd) xc_Call"
| ServiceCall "('a, 'd) sv_Call"

datatype bank_error = TemplateError template_error | XchangeError xc_Error | ServiceError sv_Error

fun lift_error :: "('e \<Rightarrow> bank_error) \<Rightarrow> 'e dispatch_error + unit \<Rightarrow> bank_error dispatch_error + unit" where
  "lift_error f (Inl (Module e)) = Inl (Module (f e))"
| "lift_error f (Inl (HostError m)) = Inl (HostError m)"
| "lift_error f (Inr u) = Inr u"

fun bank_dispatch ::
  "('o, 'a, 'd, 'w) host \<Rightarrow> para_id \<Rightarrow> ('a, 'd, 'w) bank \<Rightarrow> 'o \<Rightarrow> ('a, 'd) bank_Call
     \<Rightarrow> (bank_error, ('a, 'd, 'w) bank) outcome" where
  "bank_dispatch H p b origin (TemplateCall c) =
     (case template_dispatch (ensure_signed H) (bTemplate b) origin c of
        (r, t) \<Rightarrow> (lift_error TemplateError r, b\<lparr>bTemplate := t\<rparr>))"
| "bank_dispatch H p b origin (XchangeCall c) =
     (case xc_dispatch H (xc_part b) origin c of
        (r, x) \<Rightarrow> (lift_error XchangeError r, put_xc b x))"
| "bank_dispatch H p b origin (ServiceCall c) =
     (case sv_dispatch H (bank_service_config p) (sv_part b) origin c of
        (r, y) \<Rightarrow> (lift_error ServiceError r, put_sv b y))"

fun call_pallet :: "('a, 'd) bank_Call \<Rightarrow> pallet" where
  "call_pallet (TemplateCall c) = TemplatePallet"
| "call_pallet (XchangeCall c) = XchangePallet"
| "call_pallet (ServiceCall c) = XchangeService"

section \<open>Steps\<close>

datatype ('o, 'a, 'd) bank_label = BCall 'o "('a, 'd) bank_Call" | BEnvironment

inductive bank_step ::
  "('o, 'a, 'd, 'w) host \<Rightarrow> para_id \<Rightarrow> ('a, 'd, 'w) bank \<Rightarrow> ('o, 'a, 'd) bank_label
     \<Rightarrow> ('a, 'd, 'w) bank \<Rightarrow> bool"
  for H :: "('o, 'a, 'd, 'w) host" and p :: para_id
where
  bstep_call: "bank_step H p b (BCall origin c) (snd (bank_dispatch H p b origin c))"
| bstep_environment: "bank_step H p b BEnvironment (b\<lparr>bWorld := w\<rparr>)"

inductive_simps bank_step_call_iff [simp]: "bank_step H p b (BCall origin c) t"

definition bank_init :: "('a, 'd, 'w) bank \<Rightarrow> bool" where
  "bank_init b \<longleftrightarrow> xc_init (xc_part b) \<and> sv_init (sv_part b)"

text \<open>One step of the runtime is one step of each pallet: its own call, or, for the other one, a
  change of the rest of the chain.\<close>

lemma xc_environment: "xc_part t = (xc_part b)\<lparr>xWorld := w\<rparr> \<Longrightarrow> xc_step H (xc_part b) XEnvironment (xc_part t)"
  by (simp add: xstep_environment)

lemma sv_environment: "sv_part t = (sv_part b)\<lparr>sWorld := w\<rparr> \<Longrightarrow> sv_step H C (sv_part b) SEnvironment (sv_part t)"
  by (simp add: sstep_environment)

lemma xc_part_same: "xc_part b = (xc_part b)\<lparr>xWorld := bWorld b\<rparr>"
  by (simp add: xc_part_def)

lemma sv_part_same: "sv_part b = (sv_part b)\<lparr>sWorld := bWorld b\<rparr>"
  by (simp add: sv_part_def)

text \<open>What a call does to the parts.\<close>

lemma bank_call_parts:
  "xc_part (snd (bank_dispatch H p b origin (XchangeCall c))) = snd (xc_dispatch H (xc_part b) origin c)"
  "sv_part (snd (bank_dispatch H p b origin (XchangeCall c)))
     = (sv_part b)\<lparr>sWorld := xWorld (snd (xc_dispatch H (xc_part b) origin c))\<rparr>"
  "sv_part (snd (bank_dispatch H p b origin (ServiceCall sc)))
     = snd (sv_dispatch H (bank_service_config p) (sv_part b) origin sc)"
  "xc_part (snd (bank_dispatch H p b origin (ServiceCall sc)))
     = (xc_part b)\<lparr>xWorld := sWorld (snd (sv_dispatch H (bank_service_config p) (sv_part b) origin sc))\<rparr>"
  "xc_part (snd (bank_dispatch H p b origin (TemplateCall tc))) = xc_part b"
  "sv_part (snd (bank_dispatch H p b origin (TemplateCall tc))) = sv_part b"
  by (simp_all split: prod.split)

lemma bank_call_world:
  "bWorld (snd (bank_dispatch H p b origin (XchangeCall c))) = xWorld (snd (xc_dispatch H (xc_part b) origin c))"
  "bWorld (snd (bank_dispatch H p b origin (ServiceCall sc)))
     = sWorld (snd (sv_dispatch H (bank_service_config p) (sv_part b) origin sc))"
  "bWorld (snd (bank_dispatch H p b origin (TemplateCall tc))) = bWorld b"
  by (simp_all split: prod.split)

lemma bank_step_xc:
  assumes "bank_step H p b l t"
  shows "\<exists>xl. xc_step H (xc_part b) xl (xc_part t) \<and> (\<forall>msgs w. xl \<noteq> XDeliver msgs w) \<and> (\<forall>a. xl \<noteq> XKilled a)"
  using assms
proof (cases rule: bank_step.cases)
  case (bstep_call origin c)
  show ?thesis
  proof (cases c)
    case (XchangeCall xc)
    then show ?thesis
      by (intro exI [of _ "XCall origin xc"]) (simp add: bstep_call(2) bank_call_parts del: bank_dispatch.simps)
  next
    case (ServiceCall sc)
    then show ?thesis unfolding bstep_call(2) ServiceCall bank_call_parts
      by (intro exI [of _ XEnvironment]) (simp add: xstep_environment)
  next
    case (TemplateCall tc)
    then show ?thesis unfolding bstep_call(2) TemplateCall bank_call_parts
      by (intro exI [of _ XEnvironment]) (metis xc_environment xc_part_same xc_label.distinct)
  qed
next
  case (bstep_environment w)
  then show ?thesis by (intro exI [of _ XEnvironment]) (simp add: xstep_environment)
qed

lemma bank_step_sv:
  assumes "bank_step H p b l t"
  shows "\<exists>sl. sv_step H (bank_service_config p) (sv_part b) sl (sv_part t)
    \<and> (\<forall>msgs w. sl \<noteq> SDeliver msgs w) \<and> (\<forall>a. sl \<noteq> SKilled a)"
  using assms
proof (cases rule: bank_step.cases)
  case (bstep_call origin c)
  show ?thesis
  proof (cases c)
    case (ServiceCall sc)
    then show ?thesis
      by (intro exI [of _ "SCall origin sc"]) (simp add: bstep_call(2) bank_call_parts del: bank_dispatch.simps)
  next
    case (XchangeCall xc)
    then show ?thesis unfolding bstep_call(2) XchangeCall bank_call_parts
      by (intro exI [of _ SEnvironment]) (simp add: sstep_environment)
  next
    case (TemplateCall tc)
    then show ?thesis unfolding bstep_call(2) TemplateCall bank_call_parts
      by (intro exI [of _ SEnvironment]) (metis sv_environment sv_part_same sv_label.distinct)
  qed
next
  case (bstep_environment w)
  then show ?thesis by (intro exI [of _ SEnvironment]) (simp add: sstep_environment)
qed

section \<open>One ledger for both pallets\<close>

text \<open>What open orders of both pallets oblige an account to keep reserved.\<close>

definition bank_obligation :: "para_id \<Rightarrow> ('a, 'd, 'w) bank \<Rightarrow> 'a \<Rightarrow> nat" where
  "bank_obligation p b a = xc_obligation (xc_part b) a + sv_obligation p (sv_part b) a"

definition bank_backed :: "('o, 'a, 'd, 'w) host \<Rightarrow> para_id \<Rightarrow> ('a, 'd, 'w) bank \<Rightarrow> bool" where
  "bank_backed H p b \<longleftrightarrow> xc_engaged (xc_part b) \<and> sv_all_engaged (sv_part b)
     \<and> (\<forall>a. bank_obligation p b a \<le> reserved_balance H (bWorld b) a)"

text \<open>Calls whose settlement the currency may refuse half-way.\<close>

fun bank_gives_back :: "('a, 'd) bank_Call \<Rightarrow> bool" where
  "bank_gives_back (TemplateCall c) = False"
| "bank_gives_back (XchangeCall c) = (\<exists>d. c = xc_call_cancel d)"
| "bank_gives_back (ServiceCall c) = sv_gives_back c"

inductive bank_sound_step ::
  "('o, 'a, 'd, 'w) host \<Rightarrow> para_id \<Rightarrow> ('a, 'd, 'w) bank \<Rightarrow> ('o, 'a, 'd) bank_label
     \<Rightarrow> ('a, 'd, 'w) bank \<Rightarrow> bool"
  for H :: "('o, 'a, 'd, 'w) host" and p :: para_id
where
  bsound_call: "(bank_gives_back c \<Longrightarrow> \<not> refused (bank_dispatch H p b origin c)) \<Longrightarrow>
    bank_sound_step H p b (BCall origin c) (snd (bank_dispatch H p b origin c))"
| bsound_environment: "(\<And>a. reserved_balance H (bWorld b) a \<le> reserved_balance H w a) \<Longrightarrow>
    bank_sound_step H p b BEnvironment (b\<lparr>bWorld := w\<rparr>)"

lemma lift_error_host [simp]: "lift_error f r = Inl (HostError e) \<longleftrightarrow> r = Inl (HostError e)"
  by (cases r rule: sum.exhaust; cases "projl r") auto

lemma bank_refused:
  "refused (bank_dispatch H p b origin (XchangeCall c)) \<longleftrightarrow> refused (xc_dispatch H (xc_part b) origin c)"
  "refused (bank_dispatch H p b origin (ServiceCall sc))
     \<longleftrightarrow> refused (sv_dispatch H (bank_service_config p) (sv_part b) origin sc)"
  by (simp_all add: refused_def split: prod.split)

lemma obligations_world [simp]:
  "xc_obligation (s\<lparr>xWorld := w\<rparr>) = xc_obligation s"
  "xc_engaged (s\<lparr>xWorld := w\<rparr>) = xc_engaged s"
  "sv_obligation p (s'\<lparr>sWorld := w\<rparr>) = sv_obligation p s'"
  "sv_all_engaged (s'\<lparr>sWorld := w\<rparr>) = sv_all_engaged s'"
  by (simp_all add: xc_obligation_def xc_engaged_def sv_obligation_def sv_all_engaged_def sv_engaged_def
      xc_penalty_def [abs_def] sv_penalty_def [abs_def])

lemma bank_backed_parts:
  assumes "bank_backed H p b"
  shows "xc_backed H (xc_part b)" and "sv_backed H (bank_service_config p) (sv_part b)"
proof -
  have a: "bank_obligation p b a \<le> reserved_balance H (bWorld b) a" for a
    using assms by (simp add: bank_backed_def)
  have "xc_obligation (xc_part b) a \<le> reserved_balance H (bWorld b) a"
    and "sv_obligation p (sv_part b) a \<le> reserved_balance H (bWorld b) a" for a
    using a [of a] by (simp_all add: bank_obligation_def)
  with assms show "xc_backed H (xc_part b)" "sv_backed H (bank_service_config p) (sv_part b)"
    by (simp_all add: bank_backed_def xc_backed_def sv_backed_def)
qed

lemma slack_shared:
  "r + x' \<le> r' + x \<Longrightarrow> x + y \<le> r \<Longrightarrow> x' + y \<le> (r' :: nat)"
  by linarith

lemma bank_backed_xc:
  assumes b: "bank_backed H p b" and kept: "xc_kept H (xc_part b) (xc_part t)"
    and "sv_part t = (sv_part b)\<lparr>sWorld := bWorld t\<rparr>"
  shows "bank_backed H p t"
proof -
  have slack: "reserved_balance H (bWorld b) a + xc_obligation (xc_part t) a
      \<le> reserved_balance H (bWorld t) a + xc_obligation (xc_part b) a"
    and now: "xc_obligation (xc_part b) a + sv_obligation p (sv_part b) a \<le> reserved_balance H (bWorld b) a" for a
    using kept b by (simp_all add: xc_kept_def slack_kept_def xc_obligation_def bank_backed_def bank_obligation_def)
  have "bank_obligation p t a \<le> reserved_balance H (bWorld t) a" for a
    using slack_shared [OF slack now, of a] assms(3)
    by (simp add: bank_obligation_def)
  with b kept assms(3) show ?thesis by (simp add: bank_backed_def xc_kept_def)
qed

lemma bank_backed_sv:
  assumes b: "bank_backed H p b" and kept: "sv_kept H (bank_service_config p) (sv_part b) (sv_part t)"
    and "xc_part t = (xc_part b)\<lparr>xWorld := bWorld t\<rparr>"
  shows "bank_backed H p t"
proof -
  have slack: "reserved_balance H (bWorld b) a + sv_obligation p (sv_part t) a
      \<le> reserved_balance H (bWorld t) a + sv_obligation p (sv_part b) a"
    and now: "sv_obligation p (sv_part b) a + xc_obligation (xc_part b) a \<le> reserved_balance H (bWorld b) a" for a
    using kept b by (simp_all add: sv_kept_def slack_kept_def sv_obligation_def bank_backed_def bank_obligation_def
        add.commute)
  have "bank_obligation p t a \<le> reserved_balance H (bWorld t) a" for a
    using slack_shared [OF slack now, of a] assms(3)
    by (simp add: bank_obligation_def add.commute)
  with b kept assms(3) show ?thesis by (simp add: bank_backed_def sv_kept_def)
qed

lemma bank_backed_sound_step:
  assumes laws: "currency_laws H"
  shows "bank_sound_step H p b l t \<Longrightarrow> bank_backed H p b \<Longrightarrow> bank_backed H p t"
proof (induction rule: bank_sound_step.induct)
  case (bsound_call c b origin)
  let ?t = "snd (bank_dispatch H p b origin c)"
  note parts = bank_backed_parts [OF bsound_call.prems]
  show ?case
  proof (cases c)
    case (TemplateCall tc)
    with bsound_call.prems show ?thesis
      by (auto simp: bank_backed_def bank_obligation_def split: prod.split)
  next
    case (XchangeCall xc)
    have "xc_kept H (xc_part b) (xc_part ?t)"
      using xc_kept_dispatch [OF laws parts(1), of xc origin] bsound_call.hyps
      unfolding XchangeCall bank_refused bank_call_parts bank_gives_back.simps by blast
    then show ?thesis
      by (rule bank_backed_xc [OF bsound_call.prems]) (simp only: XchangeCall bank_call_parts bank_call_world)
  next
    case (ServiceCall sc)
    have "sv_kept H (bank_service_config p) (sv_part b) (sv_part ?t)"
      using sv_kept_dispatch [OF laws bank_policy parts(2), of sc origin] bsound_call.hyps
      unfolding ServiceCall bank_refused bank_call_parts bank_gives_back.simps by blast
    then show ?thesis
      by (rule bank_backed_sv [OF bsound_call.prems]) (simp only: ServiceCall bank_call_parts bank_call_world)
  qed
next
  case (bsound_environment b w)
  then show ?case
    by (auto simp: bank_backed_def bank_obligation_def intro: le_trans)
qed

lemma bank_backed_init: "bank_init b \<Longrightarrow> bank_backed H p b"
  by (simp add: bank_init_def bank_backed_def bank_obligation_def xc_init_def sv_init_def xc_engaged_def
      sv_all_engaged_def xc_obligation_def sv_obligation_def collateral_def order_fees_def)

interpretation bank_escrow: transition_system bank_init "bank_sound_step H p"
    "\<lambda>b. currency_laws H \<longrightarrow> bank_backed H p b" for H p
  by unfold_locales (blast intro: bank_backed_init, blast dest: bank_backed_sound_step)

end
