(* ===== verification/Runtime_Xcm.thy ===== *)
theory Runtime_Xcm
  imports Bank_Runtime
begin

text \<open>
  The XCM configuration of the runtime (\<open>runtime/src/lib.rs\<close>): who a location is, with which
  origin a \<open>Transact\<close> is dispatched, which messages the barrier lets pass, where a message is
  sent.  The source composes converters, barriers and routers of the framework as tuples.  They,
  and what a tuple of them does, are the functions of \<open>xcm_framework\<close>, with their documented
  behaviour, the first element that applies decides, as \<open>converter_docs\<close>, \<open>barrier_docs\<close>,
  \<open>router_docs\<close> and \<open>sender_docs\<close>.  \<open>sample_framework\<close> satisfies all of them.
\<close>

section \<open>Locations and origins\<close>

datatype network = AnyNetwork | NamedNetwork nat
datatype body = Executive | OtherBody nat

datatype 'a xjunction =
  XParachain para_id | XAccountId32 network 'a | XPlurality body | XOther nat

record 'a location =
  parents :: nat
  interior :: "'a xjunction list"

datatype 'a runtime_origin =
  RootOrigin | SignedOrigin 'a | NoOrigin
| RelayOrigin | SiblingOrigin para_id | XcmOrigin "'a location"

datatype send_error = CannotReachDestination | SendFailed string

abbreviation relay_chain :: "'a location" where
  "relay_chain \<equiv> \<lparr>parents = 1, interior = []\<rparr>"

abbreviation sibling :: "para_id \<Rightarrow> 'a location" where
  "sibling p \<equiv> \<lparr>parents = 1, interior = [XParachain p]\<rparr>"

section \<open>The framework\<close>

type_synonym ('a, 'w) router = "'w \<Rightarrow> 'a location \<Rightarrow> xcm \<Rightarrow> (send_error + unit) \<times> 'w"
type_synonym 'a barrier = "'a location \<Rightarrow> xcm \<Rightarrow> weight \<Rightarrow> weight \<Rightarrow> bool"
type_synonym 'a origin_converter = "'a location \<Rightarrow> origin_kind \<Rightarrow> 'a runtime_origin option"
type_synonym 'a account_converter = "'a location \<Rightarrow> 'a option"

text \<open>\<open>own_parachain_id\<close> is what \<open>ParachainInfo\<close> stores.\<close>

record ('a, 'w) xcm_framework =
  own_parachain_id :: para_id
  account_tuple :: "'a account_converter list \<Rightarrow> 'a account_converter"
  origin_tuple :: "'a origin_converter list \<Rightarrow> 'a origin_converter"
  barrier_tuple :: "'a barrier list \<Rightarrow> 'a barrier"
  router_tuple :: "('a, 'w) router list \<Rightarrow> ('a, 'w) router"
  parent_is_default :: "'a location \<Rightarrow> 'a option"
  sibling_converts_via :: "'a location \<Rightarrow> 'a option"
  account_id32_aliases :: "network \<Rightarrow> 'a location \<Rightarrow> 'a option"
  sovereign_signed_via ::
    "('a location \<Rightarrow> 'a option) \<Rightarrow> 'a location \<Rightarrow> origin_kind \<Rightarrow> 'a runtime_origin option"
  relay_chain_as_native :: "'a runtime_origin \<Rightarrow> 'a location \<Rightarrow> origin_kind \<Rightarrow> 'a runtime_origin option"
  sibling_as_native :: "'a location \<Rightarrow> origin_kind \<Rightarrow> 'a runtime_origin option"
  signed_as_native :: "network \<Rightarrow> 'a location \<Rightarrow> origin_kind \<Rightarrow> 'a runtime_origin option"
  xcm_passthrough :: "'a location \<Rightarrow> origin_kind \<Rightarrow> 'a runtime_origin option"
  take_weight_credit :: "'a location \<Rightarrow> xcm \<Rightarrow> weight \<Rightarrow> weight \<Rightarrow> bool"
  allow_top_level_paid :: "('a location \<Rightarrow> bool) \<Rightarrow> 'a location \<Rightarrow> xcm \<Rightarrow> weight \<Rightarrow> weight \<Rightarrow> bool"
  allow_unpaid :: "('a location \<Rightarrow> bool) \<Rightarrow> 'a location \<Rightarrow> xcm \<Rightarrow> weight \<Rightarrow> weight \<Rightarrow> bool"
  fixed_weight_bounds :: "weight \<Rightarrow> 32 word \<Rightarrow> xcm \<Rightarrow> weight option"
  native_asset :: "'a location \<Rightarrow> 'a location \<Rightarrow> bool"
  is_concrete :: "'a location \<Rightarrow> 'a location \<Rightarrow> bool"
  parent_as_ump :: "'w \<Rightarrow> 'a location \<Rightarrow> xcm \<Rightarrow> (send_error + unit) \<times> 'w"
  xcmp_queue :: "'w \<Rightarrow> 'a location \<Rightarrow> xcm \<Rightarrow> (send_error + unit) \<times> 'w"
  ensure_xcm_origin ::
    "('a runtime_origin \<Rightarrow> 'a location option) \<Rightarrow> 'a runtime_origin \<Rightarrow> 'a location option"
  signed_to_account_id32 :: "network \<Rightarrow> 'a runtime_origin \<Rightarrow> 'a location option"

section \<open>Tuples\<close>

text \<open>The first element that converts decides, and the first router that can reach the
  destination sends.  The documents below refer to these.\<close>

fun first_of :: "('x \<Rightarrow> 'y option) list \<Rightarrow> 'x \<Rightarrow> 'y option" where
  "first_of [] x = None"
| "first_of (f # fs) x = (case f x of None \<Rightarrow> first_of fs x | Some y \<Rightarrow> Some y)"

fun send_first :: "('a, 'w) router list \<Rightarrow> ('a, 'w) router" where
  "send_first [] w dest message = (Inl CannotReachDestination, w)"
| "send_first (r # rs) w dest message =
     (case r w dest message of
        (Inl CannotReachDestination, w1) \<Rightarrow> send_first rs w1 dest message
      | other \<Rightarrow> other)"

lemma send_first_last: "send_first [r] w dest message = r w dest message"
  by (cases "r w dest message") (auto split: sum.split send_error.split)

lemma send_first_two [simp]:
  "send_first [r, q] w dest message = (case r w dest message of
     (Inl CannotReachDestination, w1) \<Rightarrow> q w1 dest message | other \<Rightarrow> other)"
  by (simp only: send_first.simps(2) [of r] send_first_last)

section \<open>The configuration\<close>

definition RelayLocation :: "'a location" where
  "RelayLocation = \<lparr>parents = 1, interior = []\<rparr>"

definition RelayNetwork :: network where
  "RelayNetwork = AnyNetwork"

definition Ancestry :: "('a, 'w) xcm_framework \<Rightarrow> 'a location" where
  "Ancestry F = \<lparr>parents = 0, interior = [XParachain (own_parachain_id F)]\<rparr>"

definition LocationToAccountId :: "('a, 'w) xcm_framework \<Rightarrow> 'a account_converter" where
  "LocationToAccountId F = account_tuple F
     [parent_is_default F, sibling_converts_via F, account_id32_aliases F RelayNetwork]"

definition XcmOriginToTransactDispatchOrigin :: "('a, 'w) xcm_framework \<Rightarrow> 'a origin_converter" where
  "XcmOriginToTransactDispatchOrigin F = origin_tuple F
     [sovereign_signed_via F (LocationToAccountId F),
      relay_chain_as_native F RelayOrigin,
      sibling_as_native F,
      signed_as_native F RelayNetwork,
      xcm_passthrough F]"

definition UnitWeightCost :: weight where "UnitWeightCost = 1000000000"
definition MaxInstructions :: "32 word" where "MaxInstructions = 100"

definition ParentOrParentsExecutivePlurality :: "'a location \<Rightarrow> bool" where
  "ParentOrParentsExecutivePlurality l \<longleftrightarrow>
     parents l = 1 \<and> (interior l = [] \<or> interior l = [XPlurality Executive])"

definition Barrier :: "('a, 'w) xcm_framework \<Rightarrow> 'a barrier" where
  "Barrier F = barrier_tuple F
     [take_weight_credit F,
      allow_top_level_paid F (\<lambda>l. True),
      allow_unpaid F ParentOrParentsExecutivePlurality]"

definition XcmRouter :: "('a, 'w) xcm_framework \<Rightarrow> ('a, 'w) router" where
  "XcmRouter F = router_tuple F [parent_as_ump F, xcmp_queue F]"

record 'a asset_transactor =
  AssetCurrency :: pallet
  AssetMatches :: "'a location \<Rightarrow> bool"
  AssetOwner :: "'a account_converter"
  TracksTeleports :: bool

record ('a, 'w) xcm_Config =
  XcmSender :: "('a, 'w) router"
  AssetTransactor :: "'a asset_transactor"
  OriginConverter :: "'a origin_converter"
  IsReserve :: "'a location \<Rightarrow> 'a location \<Rightarrow> bool"
  IsTeleporter :: "'a location \<Rightarrow> 'a location \<Rightarrow> bool"
  InvertAncestry :: "'a location"
  ConfigBarrier :: "'a barrier"
  Weigher :: "xcm \<Rightarrow> weight option"
  Trader :: "'a location \<times> pallet"
  ResponseHandler :: pallet
  AssetTrap :: pallet
  AssetClaims :: pallet
  SubscriptionService :: pallet

text \<open>Assets are transacted by a \<open>CurrencyAdapter\<close>: in which currency, for which assets, on whose
  account, and whether teleports are tracked.  Execution is bought in the same asset.\<close>

definition LocalAssetTransactor :: "('a, 'w) xcm_framework \<Rightarrow> 'a asset_transactor" where
  "LocalAssetTransactor F = \<lparr>
     AssetCurrency = Balances,
     AssetMatches = is_concrete F RelayLocation,
     AssetOwner = LocationToAccountId F,
     TracksTeleports = False\<rparr>"

definition XcmConfig :: "('a, 'w) xcm_framework \<Rightarrow> ('a, 'w) xcm_Config" where
  "XcmConfig F = \<lparr>
     XcmSender = XcmRouter F,
     AssetTransactor = LocalAssetTransactor F,
     OriginConverter = XcmOriginToTransactDispatchOrigin F,
     IsReserve = native_asset F,
     IsTeleporter = (\<lambda>asset origin. False),
     InvertAncestry = Ancestry F,
     ConfigBarrier = Barrier F,
     Weigher = fixed_weight_bounds F UnitWeightCost MaxInstructions,
     Trader = (RelayLocation, Balances),
     ResponseHandler = PolkadotXcm,
     AssetTrap = PolkadotXcm,
     AssetClaims = PolkadotXcm,
     SubscriptionService = PolkadotXcm\<rparr>"

definition LocalOriginToLocation ::
  "('a, 'w) xcm_framework \<Rightarrow> 'a runtime_origin \<Rightarrow> 'a location option" where
  "LocalOriginToLocation F = signed_to_account_id32 F RelayNetwork"

record ('a, 'w) pallet_xcm_Config =
  SendXcmOrigin :: "'a runtime_origin \<Rightarrow> 'a location option"
  PalletXcmRouter :: "('a, 'w) router"
  ExecuteXcmOrigin :: "'a runtime_origin \<Rightarrow> 'a location option"
  XcmExecuteFilter :: "'a location \<Rightarrow> xcm \<Rightarrow> bool"
  PalletXcmExecutor :: "('a, 'w) xcm_Config"
  XcmTeleportFilter :: "'a location \<Rightarrow> bool"
  XcmReserveTransferFilter :: "'a location \<Rightarrow> bool"
  PalletWeigher :: "xcm \<Rightarrow> weight option"
  PalletInvertAncestry :: "'a location"
  VERSION_DISCOVERY_QUEUE_SIZE :: "32 word"

definition pallet_xcm_config :: "('a, 'w) xcm_framework \<Rightarrow> ('a, 'w) pallet_xcm_Config" where
  "pallet_xcm_config F = \<lparr>
     SendXcmOrigin = ensure_xcm_origin F (LocalOriginToLocation F),
     PalletXcmRouter = XcmRouter F,
     ExecuteXcmOrigin = ensure_xcm_origin F (LocalOriginToLocation F),
     XcmExecuteFilter = (\<lambda>l m. False),
     PalletXcmExecutor = XcmConfig F,
     XcmTeleportFilter = (\<lambda>l. True),
     XcmReserveTransferFilter = (\<lambda>l. False),
     PalletWeigher = fixed_weight_bounds F UnitWeightCost MaxInstructions,
     PalletInvertAncestry = Ancestry F,
     VERSION_DISCOVERY_QUEUE_SIZE = 100\<rparr>"

lemmas xcm_defs = RelayLocation_def RelayNetwork_def LocationToAccountId_def
  XcmOriginToTransactDispatchOrigin_def ParentOrParentsExecutivePlurality_def Barrier_def XcmRouter_def
  LocalAssetTransactor_def XcmConfig_def LocalOriginToLocation_def pallet_xcm_config_def

section \<open>Documented behaviour of the framework\<close>

definition converter_docs :: "('a, 'w) xcm_framework \<Rightarrow> 'a \<Rightarrow> (para_id \<Rightarrow> 'a) \<Rightarrow> bool" where
  "converter_docs F default_account sovereign \<longleftrightarrow>
     (\<forall>fs l. account_tuple F fs l = first_of fs l)
   \<and> (\<forall>cs l k. origin_tuple F cs l k = first_of (map (\<lambda>c l. c l k) cs) l)
   \<and> (\<forall>l. parent_is_default F l = (if l = relay_chain then Some default_account else None))
   \<and> (\<forall>l a. sibling_converts_via F l = Some a \<longleftrightarrow> (\<exists>p. l = sibling p \<and> a = sovereign p))
   \<and> (\<forall>n l a. account_id32_aliases F n l = Some a \<longleftrightarrow>
        (\<exists>m. l = \<lparr>parents = 0, interior = [XAccountId32 m a]\<rparr> \<and> (m = AnyNetwork \<or> m = n)))
   \<and> (\<forall>f l k. sovereign_signed_via F f l k
        = (if k = SovereignAccount then map_option SignedOrigin (f l) else None))
   \<and> (\<forall>og l k. relay_chain_as_native F og l k = (if k = Native \<and> l = relay_chain then Some og else None))
   \<and> (\<forall>l k og. sibling_as_native F l k = Some og \<longleftrightarrow>
        (\<exists>p. k = Native \<and> l = sibling p \<and> og = SiblingOrigin p))
   \<and> (\<forall>n l k og. signed_as_native F n l k = Some og \<longleftrightarrow>
        (\<exists>m a. k = Native \<and> l = \<lparr>parents = 0, interior = [XAccountId32 m a]\<rparr>
           \<and> (m = AnyNetwork \<or> m = n) \<and> og = SignedOrigin a))
   \<and> (\<forall>l k. xcm_passthrough F l k = (if k = XcmKind then Some (XcmOrigin l) else None))"

text \<open>Paid execution must start with an instruction that brings assets, never with a \<open>Transact\<close>.\<close>

definition barrier_docs :: "('a, 'w) xcm_framework \<Rightarrow> bool" where
  "barrier_docs F \<longleftrightarrow>
     (\<forall>bs l m w c. barrier_tuple F bs l m w c \<longleftrightarrow> (\<exists>b\<in>set bs. b l m w c))
   \<and> (\<forall>l m w c. take_weight_credit F l m w c \<longleftrightarrow> w \<le> c)
   \<and> (\<forall>T l k n bs m w c. \<not> allow_top_level_paid F T l (Transact k n bs # m) w c)
   \<and> (\<forall>T l m w c. allow_unpaid F T l m w c \<longleftrightarrow> T l)
   \<and> (\<forall>u n k v bs. 0 < n \<longrightarrow> fixed_weight_bounds F u n [Transact k v bs] = Some (u + v))"

definition router_docs :: "('a, 'w) xcm_framework \<Rightarrow> bool" where
  "router_docs F \<longleftrightarrow>
     (\<forall>rs w l m. router_tuple F rs w l m = send_first rs w l m)
   \<and> (\<forall>w l m. l \<noteq> relay_chain \<longrightarrow> parent_as_ump F w l m = (Inl CannotReachDestination, w))
   \<and> (\<forall>w m. fst (parent_as_ump F w relay_chain m) \<noteq> Inl CannotReachDestination)
   \<and> (\<forall>w l m. (\<forall>p. l \<noteq> sibling p) \<longrightarrow> xcmp_queue F w l m = (Inl CannotReachDestination, w))"

definition sender_docs :: "('a, 'w) xcm_framework \<Rightarrow> bool" where
  "sender_docs F \<longleftrightarrow>
     (\<forall>f og. ensure_xcm_origin F f og = (case f og of
        Some l \<Rightarrow> Some l
      | None \<Rightarrow> if og = RootOrigin then Some \<lparr>parents = 0, interior = []\<rparr> else None))
   \<and> (\<forall>n og. signed_to_account_id32 F n og = (case og of
        SignedOrigin a \<Rightarrow> Some \<lparr>parents = 0, interior = [XAccountId32 n a]\<rparr> | _ \<Rightarrow> None))"

text \<open>A framework that behaves as documented; accounts are numbers, a world is the list of sent
  messages.\<close>

type_synonym sent_world = "(8 word location \<times> xcm) list"

fun first_instruction_pays :: "xcm \<Rightarrow> bool" where
  "first_instruction_pays (Transact k w bs # m) = False"
| "first_instruction_pays [] = False"

definition sample_framework :: "(8 word, sent_world) xcm_framework" where
  "sample_framework = \<lparr>
     own_parachain_id = 2000,
     account_tuple = first_of,
     origin_tuple = (\<lambda>cs l k. first_of (map (\<lambda>c l. c l k) cs) l),
     barrier_tuple = (\<lambda>bs l m w c. \<exists>b\<in>set bs. b l m w c),
     router_tuple = send_first,
     parent_is_default = (\<lambda>l. if l = relay_chain then Some 0 else None),
     sibling_converts_via = (\<lambda>l. case (parents l, interior l) of
       (Suc 0, [XParachain p]) \<Rightarrow> Some (ucast p) | _ \<Rightarrow> None),
     account_id32_aliases = (\<lambda>n l. case (parents l, interior l) of
       (0, [XAccountId32 m a]) \<Rightarrow> if m = AnyNetwork \<or> m = n then Some a else None | _ \<Rightarrow> None),
     sovereign_signed_via = (\<lambda>f l k. if k = SovereignAccount then map_option SignedOrigin (f l) else None),
     relay_chain_as_native = (\<lambda>og l k. if k = Native \<and> l = relay_chain then Some og else None),
     sibling_as_native = (\<lambda>l k. case (k, parents l, interior l) of
       (Native, Suc 0, [XParachain p]) \<Rightarrow> Some (SiblingOrigin p) | _ \<Rightarrow> None),
     signed_as_native = (\<lambda>n l k. case (k, parents l, interior l) of
       (Native, 0, [XAccountId32 m a]) \<Rightarrow> if m = AnyNetwork \<or> m = n then Some (SignedOrigin a) else None
     | _ \<Rightarrow> None),
     xcm_passthrough = (\<lambda>l k. if k = XcmKind then Some (XcmOrigin l) else None),
     take_weight_credit = (\<lambda>l m w c. w \<le> c),
     allow_top_level_paid = (\<lambda>T l m w c. T l \<and> first_instruction_pays m),
     allow_unpaid = (\<lambda>T l m w c. T l),
     fixed_weight_bounds = (\<lambda>u n m. if length m \<le> unat n
       then Some (sum_list (map (\<lambda>i. case i of Transact k w bs \<Rightarrow> u + w) m)) else None),
     native_asset = (\<lambda>asset origin. asset = origin),
     is_concrete = (\<lambda>l asset. asset = l),
     parent_as_ump = (\<lambda>w l m. if l = relay_chain then (Inr (), w @ [(l, m)]) else (Inl CannotReachDestination, w)),
     xcmp_queue = (\<lambda>w l m. if \<exists>p. l = sibling p then (Inr (), w @ [(l, m)]) else (Inl CannotReachDestination, w)),
     ensure_xcm_origin = (\<lambda>f og. case f og of
       Some l \<Rightarrow> Some l
     | None \<Rightarrow> if og = RootOrigin then Some \<lparr>parents = 0, interior = []\<rparr> else None),
     signed_to_account_id32 = (\<lambda>n og. case og of
       SignedOrigin a \<Rightarrow> Some \<lparr>parents = 0, interior = [XAccountId32 n a]\<rparr> | _ \<Rightarrow> None)\<rparr>"

lemma location_eq_iff: "l = \<lparr>parents = n, interior = js\<rparr> \<longleftrightarrow> parents l = n \<and> interior l = js"
  by (cases l) simp

lemma sample_converters: "converter_docs sample_framework 0 ucast"
  by (auto simp: converter_docs_def sample_framework_def location_eq_iff
      split: prod.splits list.splits xjunction.splits nat.splits origin_kind.splits if_splits)

lemma sample_barriers: "barrier_docs sample_framework"
  by (auto simp: barrier_docs_def sample_framework_def word_less_nat_alt)

lemma sample_routers: "router_docs sample_framework"
  by (auto simp: router_docs_def sample_framework_def)

lemma sample_senders: "sender_docs sample_framework"
  by (auto simp: sender_docs_def sample_framework_def split: runtime_origin.splits)

text \<open>What each converter yields, and where it yields nothing.\<close>

lemma first_of_iff [simp]:
  "first_of (f # fs) x = Some y \<longleftrightarrow> f x = Some y \<or> f x = None \<and> first_of fs x = Some y"
  by (simp split: option.split)

lemma converters:
  assumes "converter_docs F dflt sov"
  shows "account_tuple F fs l = first_of fs l"
    "origin_tuple F cs l k = first_of (map (\<lambda>c l. c l k) cs) l"
    "parent_is_default F l = (if l = relay_chain then Some dflt else None)"
    "sibling_converts_via F l = Some a \<longleftrightarrow> (\<exists>p. l = sibling p \<and> a = sov p)"
    "account_id32_aliases F n l = Some a \<longleftrightarrow>
       (\<exists>m. l = \<lparr>parents = 0, interior = [XAccountId32 m a]\<rparr> \<and> (m = AnyNetwork \<or> m = n))"
    "sovereign_signed_via F f l k = (if k = SovereignAccount then map_option SignedOrigin (f l) else None)"
    "relay_chain_as_native F og l k = (if k = Native \<and> l = relay_chain then Some og else None)"
    "sibling_as_native F l k = Some og \<longleftrightarrow> (\<exists>p. k = Native \<and> l = sibling p \<and> og = SiblingOrigin p)"
    "signed_as_native F n l k = Some og \<longleftrightarrow>
       (\<exists>m a. k = Native \<and> l = \<lparr>parents = 0, interior = [XAccountId32 m a]\<rparr>
          \<and> (m = AnyNetwork \<or> m = n) \<and> og = SignedOrigin a)"
    "xcm_passthrough F l k = (if k = XcmKind then Some (XcmOrigin l) else None)"
  using assms by (simp_all only: converter_docs_def)

lemma no_conversion:
  assumes "converter_docs F dflt sov"
  shows "sibling_converts_via F l = None \<longleftrightarrow> (\<forall>p. l \<noteq> sibling p)"
    "k \<noteq> Native \<Longrightarrow> sibling_as_native F l k = None" "k \<noteq> Native \<Longrightarrow> signed_as_native F n l k = None"
    "sibling_as_native F \<lparr>parents = 0, interior = js\<rparr> k = None"
  using converters(4,8,9) [OF assms] by (metis not_Some_eq, auto simp: not_Some_eq [symmetric] simp del: not_Some_eq)

lemma account_of_location:
  assumes "converter_docs F dflt sov"
  shows "LocationToAccountId F l = Some a \<longleftrightarrow> l = relay_chain \<and> a = dflt
    \<or> (\<exists>p. l = sibling p \<and> a = sov p) \<or> l = \<lparr>parents = 0, interior = [XAccountId32 AnyNetwork a]\<rparr>"
  by (auto simp: LocationToAccountId_def RelayNetwork_def converters [OF assms] no_conversion [OF assms]
      simp del: first_of.simps(2) split: if_splits)

lemma dispatch_origin:
  assumes "converter_docs F dflt sov"
  shows "XcmOriginToTransactDispatchOrigin F l Native = (if l = relay_chain then Some RelayOrigin
        else first_of [\<lambda>l. sibling_as_native F l Native, \<lambda>l. signed_as_native F RelayNetwork l Native] l)"
    "XcmOriginToTransactDispatchOrigin F l SovereignAccount = map_option SignedOrigin (LocationToAccountId F l)"
    "XcmOriginToTransactDispatchOrigin F l Superuser = None"
    "XcmOriginToTransactDispatchOrigin F l XcmKind = Some (XcmOrigin l)"
  by (simp_all add: XcmOriginToTransactDispatchOrigin_def converters(2,6,7,10) [OF assms] no_conversion [OF assms]
      split: option.split)

lemma native_origin:
  assumes "converter_docs F dflt sov"
  shows "XcmOriginToTransactDispatchOrigin F l Native = Some og \<longleftrightarrow>
      l = relay_chain \<and> og = RelayOrigin \<or> (\<exists>p. l = sibling p \<and> og = SiblingOrigin p)
    \<or> (\<exists>a. l = \<lparr>parents = 0, interior = [XAccountId32 AnyNetwork a]\<rparr> \<and> og = SignedOrigin a)"
  unfolding dispatch_origin [OF assms]
  by (auto simp: RelayNetwork_def converters(8,9) [OF assms] no_conversion(4) [OF assms] simp del: first_of.simps(2))

section \<open>Properties\<close>

text \<open>C31: The origin of a \<open>Transact\<close> from elsewhere: a parachain acts as its sovereign account or
  as itself, the relay chain as the default account or as itself, and nothing is dispatched as
  root.  A signed origin is always the sender's own account.\<close>

theorem xcm_dispatch_origins:
  assumes "converter_docs F default_account sovereign"
  shows "OriginConverter (XcmConfig F) (sibling p) Native = Some (SiblingOrigin p)
    \<and> OriginConverter (XcmConfig F) (sibling p) SovereignAccount = Some (SignedOrigin (sovereign p))
    \<and> OriginConverter (XcmConfig F) relay_chain Native = Some RelayOrigin
    \<and> OriginConverter (XcmConfig F) relay_chain SovereignAccount = Some (SignedOrigin default_account)
    \<and> OriginConverter (XcmConfig F) l Superuser = None
    \<and> OriginConverter (XcmConfig F) l k \<noteq> Some RootOrigin
    \<and> (OriginConverter (XcmConfig F) l k = Some (SignedOrigin a) \<longrightarrow>
        l = relay_chain \<and> k = SovereignAccount \<and> a = default_account
        \<or> (\<exists>p. l = sibling p \<and> k = SovereignAccount \<and> a = sovereign p)
        \<or> (k = Native \<or> k = SovereignAccount) \<and> l = \<lparr>parents = 0, interior = [XAccountId32 AnyNetwork a]\<rparr>)"
proof -
  have conv: "OriginConverter (XcmConfig F) = XcmOriginToTransactDispatchOrigin F" by (simp add: XcmConfig_def)
  have sovereign: "XcmOriginToTransactDispatchOrigin F l SovereignAccount = Some og \<longleftrightarrow>
      (\<exists>a. og = SignedOrigin a \<and> LocationToAccountId F l = Some a)" for l og
    by (auto simp: dispatch_origin [OF assms])
  show ?thesis
    unfolding conv
    by (cases k) (auto simp: native_origin [OF assms] sovereign dispatch_origin(3,4) [OF assms]
        account_of_location [OF assms])
qed

theorem xcm_dispatch_origins_witness:
  "OriginConverter (XcmConfig sample_framework) (sibling 2000) SovereignAccount = Some (SignedOrigin (ucast (2000 :: para_id)))"
  using xcm_dispatch_origins [OF sample_converters] by blast

text \<open>C30: The messages of both pallets ask for a \<open>Transact\<close> and pay for nothing.  On a runtime with
  this configuration the barrier refuses them from every sibling parachain, since \<open>XcmpQueue\<close>
  executes them with no weight credit.\<close>

theorem market_messages_blocked:
  assumes "barrier_docs F"
  shows "Weigher (XcmConfig F) (snd (xc_order_message H who ob pid)) = Some UnitWeightCost
    \<and> \<not> ConfigBarrier (XcmConfig F) (sibling p) (snd (xc_order_message H who ob pid)) UnitWeightCost 0
    \<and> (\<exists>x. sWorld (sv_send K pid m s) = snd (send_xcm K (sWorld s) (Parent, Parachain pid) x)
        \<and> Weigher (XcmConfig F) x = Some UnitWeightCost
        \<and> \<not> ConfigBarrier (XcmConfig F) (sibling p) x UnitWeightCost 0)"
proof -
  have "Weigher (XcmConfig F) [Transact Native 0 bs] = Some UnitWeightCost" for bs
    using assms by (simp add: XcmConfig_def barrier_docs_def MaxInstructions_def)
  moreover have "\<not> ConfigBarrier (XcmConfig F) (sibling p) [Transact Native 0 bs] UnitWeightCost 0" for bs
    using assms by (simp add: XcmConfig_def barrier_docs_def Barrier_def UnitWeightCost_def
        ParentOrParentsExecutivePlurality_def)
  ultimately show ?thesis
    by (intro conjI exI [of _ "[Transact Native 0 (encode_message K m)]"])
      (simp_all add: xc_order_message_def Let_def)
qed

theorem market_messages_blocked_witness:
  "\<not> ConfigBarrier (XcmConfig sample_framework) (sibling 2000)
     (snd (xc_order_message ledger_host 9 xw_base 2001)) UnitWeightCost 0"
  by (rule conjunct1 [OF conjunct2 [OF market_messages_blocked [OF sample_barriers]]])

text \<open>A message for the relay chain goes up, one for a sibling parachain, as all messages of the
  marketplace, to the XCMP queue, and every other destination is refused without any effect.\<close>

theorem xcm_router_routes:
  assumes "router_docs F"
  shows "XcmSender (XcmConfig F) w relay_chain x = parent_as_ump F w relay_chain x
    \<and> XcmSender (XcmConfig F) w (sibling p) x = xcmp_queue F w (sibling p) x
    \<and> (l \<noteq> relay_chain \<and> (\<forall>p. l \<noteq> sibling p) \<longrightarrow> XcmSender (XcmConfig F) w l x = (Inl CannotReachDestination, w))"
proof -
  have "fst (parent_as_ump F w relay_chain x) \<noteq> Inl CannotReachDestination"
    using assms by (simp add: router_docs_def)
  then show ?thesis
    using assms
    by (cases "parent_as_ump F w relay_chain x")
      (auto simp: XcmConfig_def XcmRouter_def router_docs_def
        simp del: send_first.simps(2) split: sum.split send_error.split)
qed

theorem xcm_router_routes_witness:
  "XcmSender (XcmConfig sample_framework) [] (sibling 2001) [] = (Inr (), [(sibling 2001, [])])"
  using conjunct1 [OF conjunct2 [OF xcm_router_routes [OF sample_routers, of "[]" "[]" 2001 relay_chain]]]
  by (simp add: sample_framework_def)

text \<open>Every signed account may send any XCM message, although nobody may execute one locally.\<close>

lemma xcm_sends:
  assumes "sender_docs F"
  shows "SendXcmOrigin (pallet_xcm_config F) (SignedOrigin a)
      = Some \<lparr>parents = 0, interior = [XAccountId32 AnyNetwork a]\<rparr>
    \<and> \<not> XcmExecuteFilter (pallet_xcm_config F) l x"
  using assms by (simp add: pallet_xcm_config_def LocalOriginToLocation_def sender_docs_def RelayNetwork_def)

end
