(* ===== verification/Runtime_Pallets.thy ===== *)
theory Runtime_Pallets
  imports Runtime_Xcm
begin

text \<open>
  How the runtime configures its pallets (the \<open>impl ...::Config for Runtime\<close> blocks of
  \<open>runtime/src/lib.rs\<close>).  A field that names another pallet of the runtime holds that pallet, a
  tuple of handlers is the list of the pallets it notifies, with \<open>()\<close> the empty list, and a
  filter is a predicate.  Choices among the framework's own types that have no effect on the
  market (hashing, weights of the framework's calls, identifiers) are left out.  \<open>notified\<close>
  lists the handlers a configuration names for an event.
\<close>

section \<open>System, time and fees\<close>

text \<open>\<open>Everything\<close> lets the calls of every pallet pass.\<close>

record system_Config =
  OnNewAccount :: "pallet list"
  OnKilledAccount :: "pallet list"
  BaseCallFilter :: "pallet \<Rightarrow> bool"
  SystemBlockWeights :: block_weights
  SS58Prefix :: "16 word"
  OnSetCode :: "pallet list"

definition system_config :: "block_weights \<Rightarrow> system_Config" where
  "system_config weights = \<lparr>OnNewAccount = [], OnKilledAccount = [], BaseCallFilter = (\<lambda>p. True),
     SystemBlockWeights = weights, SS58Prefix = 42, OnSetCode = [ParachainSystem]\<rparr>"

record timestamp_Config =
  OnTimestampSet :: "pallet list"
  TimestampMinimumPeriod :: moment

definition timestamp_config :: timestamp_Config where
  "timestamp_config = \<lparr>OnTimestampSet = [], TimestampMinimumPeriod = MinimumPeriod\<rparr>"

text \<open>The author of a block is the account that the session maps an \<open>Aura\<close> index to.\<close>

record authorship_Config =
  FindAuthor :: "pallet \<times> pallet"
  UncleGenerations :: "32 word"
  AuthorHandler :: "pallet list"

definition authorship_config :: authorship_Config where
  "authorship_config = \<lparr>FindAuthor = (Session, Aura), UncleGenerations = 0,
     AuthorHandler = [CollatorSelection]\<rparr>"

record balances_Config =
  MaxLocks :: "32 word"
  MaxReserves :: "32 word"
  DustRemoval :: "pallet list"
  ExistentialDeposit :: balance
  AccountStore :: pallet

definition balances_config :: balances_Config where
  "balances_config = \<lparr>MaxLocks = 50, MaxReserves = 50, DustRemoval = [],
     ExistentialDeposit = EXISTENTIAL_DEPOSIT, AccountStore = System\<rparr>"

text \<open>Fees are charged from a currency; what is charged is handed to the second part of the
  \<open>CurrencyAdapter\<close>, nobody here.\<close>

record payment_Config =
  OnChargeTransaction :: "pallet \<times> pallet list"
  ByteFee :: balance
  WeightToFee :: "coefficient list"
  OperationalFeeMultiplier :: "8 word"

definition transaction_payment_config ::
  "(balance \<Rightarrow> balance \<Rightarrow> 32 word) \<Rightarrow> weight \<Rightarrow> payment_Config" where
  "transaction_payment_config from_rational extrinsic_base = \<lparr>OnChargeTransaction = (Balances, []),
     ByteFee = TransactionByteFee,
     WeightToFee = weight_to_fee_polynomial from_rational extrinsic_base,
     OperationalFeeMultiplier = 5\<rparr>"

section \<open>Messages\<close>

record parachain_Config =
  OnValidationData :: "pallet list"
  ParaIdSource :: pallet
  DmpMessageHandler :: pallet
  DmpWeight :: weight
  OutboundXcmpMessageSource :: pallet
  XcmpMessageHandler :: pallet
  XcmpWeight :: weight

definition parachain_system_config :: "weight \<Rightarrow> parachain_Config" where
  "parachain_system_config wps = \<lparr>OnValidationData = [], ParaIdSource = ParachainInfo,
     DmpMessageHandler = DmpQueue, DmpWeight = ReservedDmpWeight wps,
     OutboundXcmpMessageSource = XcmpQueue, XcmpMessageHandler = XcmpQueue,
     XcmpWeight = ReservedXcmpWeight wps\<rparr>"

text \<open>Messages of sibling chains wait in a queue of their own, those of the relay chain in another,
  for which root may execute what exceeded its weight.\<close>

record ('a, 'w) xcmp_queue_Config =
  XcmpExecutor :: "('a, 'w) xcm_Config"
  ChannelInfo :: pallet
  VersionWrapper :: "pallet list"

definition xcmp_queue_config :: "('a, 'w) xcm_framework \<Rightarrow> ('a, 'w) xcmp_queue_Config" where
  "xcmp_queue_config F = \<lparr>XcmpExecutor = XcmConfig F, ChannelInfo = ParachainSystem,
     VersionWrapper = []\<rparr>"

record ('a, 'w) dmp_queue_Config =
  DmpExecutor :: "('a, 'w) xcm_Config"
  ExecuteOverweightOrigin :: "'a runtime_origin \<Rightarrow> bool"

definition dmp_queue_config :: "('a, 'w) xcm_framework \<Rightarrow> ('a, 'w) dmp_queue_Config" where
  "dmp_queue_config F = \<lparr>DmpExecutor = XcmConfig F, ExecuteOverweightOrigin = (\<lambda>og. og = RootOrigin)\<rparr>"

section \<open>Collators\<close>

record session_Config =
  ShouldEndSession :: "block_number \<times> block_number"
  NextSessionRotation :: "block_number \<times> block_number"
  SessionManager :: pallet
  SessionHandler :: "pallet list"

text \<open>\<open>SessionKeys\<close> holds one key, that of \<open>Aura\<close>.\<close>

definition SessionKeys :: "pallet list" where
  "SessionKeys = [Aura]"

definition session_config :: session_Config where
  "session_config = \<lparr>ShouldEndSession = (Period, Offset), NextSessionRotation = (Period, Offset),
     SessionManager = CollatorSelection, SessionHandler = SessionKeys\<rparr>"

record aura_Config =
  DisabledValidators :: "pallet list"
  AuraMaxAuthorities :: nat

definition aura_config :: aura_Config where
  "aura_config = \<lparr>DisabledValidators = [], AuraMaxAuthorities = MaxAuthorities\<rparr>"

record 'a collator_Config =
  CollatorCurrency :: pallet
  UpdateOrigin :: "'a runtime_origin \<Rightarrow> bool"
  PotId :: string
  CollatorMaxCandidates :: nat
  CollatorMinCandidates :: nat
  CollatorMaxInvulnerables :: nat
  KickThreshold :: block_number
  ValidatorRegistration :: pallet

definition CollatorSelectionUpdateOrigin :: "'a runtime_origin \<Rightarrow> bool" where
  "CollatorSelectionUpdateOrigin og \<longleftrightarrow> og = RootOrigin"

definition collator_selection_config :: "'a collator_Config" where
  "collator_selection_config = \<lparr>CollatorCurrency = Balances,
     UpdateOrigin = CollatorSelectionUpdateOrigin, PotId = ''PotStake'',
     CollatorMaxCandidates = MaxCandidates, CollatorMinCandidates = MinCandidates,
     CollatorMaxInvulnerables = MaxInvulnerables, KickThreshold = Period,
     ValidatorRegistration = Session\<rparr>"

section \<open>The market\<close>

record ('a, 'w) market_Config =
  XcmpMessageSender :: "('a, 'w) router"
  MarketCurrency :: pallet
  MarketParaId :: "pallet option"

definition xchange_config :: "('a, 'w) xcm_framework \<Rightarrow> ('a, 'w) market_Config" where
  "xchange_config F = \<lparr>XcmpMessageSender = XcmRouter F, MarketCurrency = Balances, MarketParaId = None\<rparr>"

definition xchange_service_config :: "('a, 'w) xcm_framework \<Rightarrow> ('a, 'w) market_Config" where
  "xchange_service_config F = \<lparr>XcmpMessageSender = XcmRouter F, MarketCurrency = Balances,
     MarketParaId = Some ParachainInfo\<rparr>"

lemmas pallet_config_defs = system_config_def timestamp_config_def authorship_config_def
  balances_config_def transaction_payment_config_def parachain_system_config_def session_config_def
  SessionKeys_def aura_config_def collator_selection_config_def CollatorSelectionUpdateOrigin_def
  xchange_config_def xchange_service_config_def xcmp_queue_config_def dmp_queue_config_def

section \<open>The runtime\<close>

text \<open>All of it, for given block weights and fees.\<close>

record ('a, 'w) runtime_Config =
  of_system :: system_Config
  of_timestamp :: timestamp_Config
  of_authorship :: authorship_Config
  of_balances :: balances_Config
  of_payment :: payment_Config
  of_parachain_system :: parachain_Config
  of_xcmp_queue :: "('a, 'w) xcmp_queue_Config"
  of_dmp_queue :: "('a, 'w) dmp_queue_Config"
  of_session :: session_Config
  of_aura :: aura_Config
  of_collators :: "'a collator_Config"
  of_xchange :: "('a, 'w) market_Config"
  of_service :: "('a, 'w) market_Config"

definition Runtime ::
  "('a, 'w) xcm_framework \<Rightarrow> (nat \<Rightarrow> weight \<Rightarrow> weight) \<Rightarrow> (balance \<Rightarrow> balance \<Rightarrow> 32 word)
     \<Rightarrow> weight \<Rightarrow> weight \<Rightarrow> weight \<Rightarrow> block_weights \<Rightarrow> ('a, 'w) runtime_Config" where
  "Runtime F part from_rational wps block_execution extrinsic_base defaults = \<lparr>
     of_system = system_config (RuntimeBlockWeights part wps block_execution extrinsic_base defaults),
     of_timestamp = timestamp_config,
     of_authorship = authorship_config,
     of_balances = balances_config,
     of_payment = transaction_payment_config from_rational extrinsic_base,
     of_parachain_system = parachain_system_config wps,
     of_xcmp_queue = xcmp_queue_config F,
     of_dmp_queue = dmp_queue_config F,
     of_session = session_config,
     of_aura = aura_config,
     of_collators = collator_selection_config,
     of_xchange = xchange_config F,
     of_service = xchange_service_config F\<rparr>"

text \<open>What happens on the chain, and the pallets that a configuration has notified of it.\<close>

datatype notification =
  NewAccount | KilledAccount | TimestampSet | BlockAuthored | DustRemoved | FeeCharged
| ValidationData | DownwardMessage | SiblingMessage | SessionChange

fun notified :: "('a, 'w) runtime_Config \<Rightarrow> notification \<Rightarrow> pallet list" where
  "notified R NewAccount = OnNewAccount (of_system R)"
| "notified R KilledAccount = OnKilledAccount (of_system R)"
| "notified R TimestampSet = OnTimestampSet (of_timestamp R)"
| "notified R BlockAuthored = AuthorHandler (of_authorship R)"
| "notified R DustRemoved = DustRemoval (of_balances R)"
| "notified R FeeCharged = snd (OnChargeTransaction (of_payment R))"
| "notified R ValidationData = OnValidationData (of_parachain_system R)"
| "notified R DownwardMessage = [DmpMessageHandler (of_parachain_system R)]"
| "notified R SiblingMessage = [XcmpMessageHandler (of_parachain_system R)]"
| "notified R SessionChange = SessionManager (of_session R) # SessionHandler (of_session R)"

section \<open>Properties\<close>

lemma notified_runtime:
  "set (notified (Runtime F part from_rational wps be base d) n)
     \<subseteq> {CollatorSelection, Aura, DmpQueue, XcmpQueue}"
  by (cases n) (simp_all add: Runtime_def pallet_config_defs)


text \<open>Orders of both pallets are paid in the currency of fees, collators' bonds and XCM assets,
  whose accounts \<open>System\<close> keeps, and their messages leave through the executor's own router.\<close>

theorem market_shares_currency_and_router:
  assumes "R = Runtime F part from_rational wps be base d"
  shows "MarketCurrency (of_xchange R) = Balances \<and> MarketCurrency (of_service R) = Balances
    \<and> fst (OnChargeTransaction (of_payment R)) = Balances \<and> CollatorCurrency (of_collators R) = Balances
    \<and> AssetCurrency (AssetTransactor (XcmpExecutor (of_xcmp_queue R))) = Balances
    \<and> AccountStore (of_balances R) = System
    \<and> XcmpMessageSender (of_xchange R) = XcmSender (XcmpExecutor (of_xcmp_queue R))
    \<and> XcmpMessageSender (of_service R) = XcmSender (DmpExecutor (of_dmp_queue R))"
  by (simp add: assms Runtime_def pallet_config_defs XcmConfig_def LocalAssetTransactor_def)

text \<open>Sessions and the eviction of idle collators keep the same time: the threshold is one session,
  six hours of blocks, counted from block 0, and the limits of collators and authorities are
  consistent.  All privileged origins are root.\<close>

theorem collators_follow_sessions:
  assumes "R = Runtime F part from_rational wps be base d"
  shows "ShouldEndSession (of_session R) = NextSessionRotation (of_session R)
    \<and> KickThreshold (of_collators R) = fst (ShouldEndSession (of_session R))
    \<and> snd (ShouldEndSession (of_session R)) = 0
    \<and> unat (KickThreshold (of_collators R)) * unat MILLISECS_PER_BLOCK = 6 * 60 * 60 * 1000
    \<and> CollatorMinCandidates (of_collators R) \<le> CollatorMaxCandidates (of_collators R)
    \<and> CollatorMaxCandidates (of_collators R) + CollatorMaxInvulnerables (of_collators R)
        \<le> AuraMaxAuthorities (of_aura R)
    \<and> UpdateOrigin (of_collators R) = ExecuteOverweightOrigin (of_dmp_queue R)"
  by (simp add: assms Runtime_def pallet_config_defs unit_defs MinCandidates_def MaxCandidates_def
      MaxInvulnerables_def MaxAuthorities_def fun_eq_iff)

end
