(* ===== verification/Template_Tests.thy ===== *)
theory Template_Tests
  imports Template_Pallet Runtime_Pallets
begin

text \<open>
  The test bed of the template pallet: the mock runtime of \<open>pallets/template/src/mock.rs\<close>, the
  unit tests of \<open>tests.rs\<close> and the benchmark of \<open>benchmarking.rs\<close>, run on the model of the
  pallet; and the whole of \<open>frame_system::Config\<close>, for the mock runtime and for the runtime of
  the chain, so that what the tests assume can be compared with what the chain has.
\<close>

section \<open>The system configuration in full\<close>

text \<open>Besides what \<open>system_Config\<close> holds: the lengths of blocks and the types, under the names the
  source gives them, with the aliases for numbers and hashes expanded; \<open>()\<close> is a name too.\<close>

record 'l frame_system_Config = system_Config +
  AccountIdType :: string
  CallType :: string
  LookupType :: string
  IndexType :: string
  BlockNumberType :: string
  HashType :: string
  HashingType :: string
  HeaderType :: string
  EventType :: string
  OriginType :: string
  VersionType :: string
  PalletInfoType :: string
  AccountDataType :: string
  DbWeight :: string
  SystemWeightInfo :: string
  BlockHashCount :: nat
  SystemBlockLength :: 'l

definition RuntimeBlockLength :: "(nat \<Rightarrow> nat \<Rightarrow> 'l) \<Rightarrow> 'l" where
  "RuntimeBlockLength max_with_normal_ratio = max_with_normal_ratio (5 * 1024 * 1024) NORMAL_DISPATCH_RATIO"

definition runtime_frame_system ::
  "block_weights \<Rightarrow> (nat \<Rightarrow> nat \<Rightarrow> 'l) \<Rightarrow> nat \<Rightarrow> 'l frame_system_Config" where
  "runtime_frame_system weights max_with_normal_ratio block_hash_count =
     system_Config.extend (system_config weights)
       (frame_system_Config.fields ''AccountId'' ''Call'' ''AccountIdLookup<AccountId, ()>'' ''u32'' ''u32''
          ''sp_core::H256'' ''BlakeTwo256'' ''generic::Header<BlockNumber, BlakeTwo256>'' ''Event'' ''Origin''
          ''Version'' ''PalletInfo'' ''pallet_balances::AccountData<Balance>'' ''RocksDbWeight'' ''()''
          block_hash_count (RuntimeBlockLength max_with_normal_ratio))"

section \<open>The mock runtime\<close>

datatype mock_pallet = MockSystem | TemplateModule

text \<open>Indices are implicit: the place in the list of \<open>construct_runtime!\<close>.\<close>

definition mock_pallets :: "mock_pallet list" where
  "mock_pallets = [MockSystem, TemplateModule]"

definition MockBlockHashCount :: nat where
  "MockBlockHashCount = 250"

definition MockSS58Prefix :: "8 word" where
  "MockSS58Prefix = 42"

text \<open>\<open>()\<close> stands for the framework's default weights and lengths, two arguments.\<close>

definition mock_frame_system :: "block_weights \<Rightarrow> 'l \<Rightarrow> 'l frame_system_Config" where
  "mock_frame_system default_weights default_length =
     \<lparr>OnNewAccount = [], OnKilledAccount = [], BaseCallFilter = (\<lambda>p. True),
      SystemBlockWeights = default_weights, SS58Prefix = ucast MockSS58Prefix, OnSetCode = [],
      AccountIdType = ''u64'', CallType = ''Call'', LookupType = ''IdentityLookup<Self::AccountId>'',
      IndexType = ''u64'', BlockNumberType = ''u64'', HashType = ''H256'', HashingType = ''BlakeTwo256'',
      HeaderType = ''Header'', EventType = ''Event'', OriginType = ''Origin'', VersionType = ''()'',
      PalletInfoType = ''PalletInfo'', AccountDataType = ''()'', DbWeight = ''()'', SystemWeightInfo = ''()'',
      BlockHashCount = MockBlockHashCount, SystemBlockLength = default_length\<rparr>"

text \<open>Accounts are \<open>u64\<close>; an origin is root, a signer or nobody, and \<open>ensure_signed\<close> is that of
  frame_system.  The pallet has no genesis configuration, so its storage starts empty.\<close>

datatype mock_origin = MockRoot | MockSigned "64 word" | MockNone

fun mock_ensure_signed :: "mock_origin \<Rightarrow> string + 64 word" where
  "mock_ensure_signed (MockSigned who) = Inr who"
| "mock_ensure_signed MockRoot = Inl ''BadOrigin''"
| "mock_ensure_signed MockNone = Inl ''BadOrigin''"

definition new_test_ext :: "64 word template" where
  "new_test_ext = \<lparr>something = None, t_events = []\<rparr>"

section \<open>The tests\<close>

definition assert_ok :: "('e, 's) outcome \<Rightarrow> bool" where
  "assert_ok r \<longleftrightarrow> fst r = Inr ()"

text \<open>\<open>assert_noop!\<close> also compares the storage root, of the pallet's storage here.\<close>

definition assert_noop :: "('e, 'a template) outcome \<Rightarrow> 'a template \<Rightarrow> 'e \<Rightarrow> bool" where
  "assert_noop r before e \<longleftrightarrow> fst r = Inl (Module e) \<and> something (snd r) = something before"

definition it_works_for_default_value :: bool where
  "it_works_for_default_value \<longleftrightarrow>
     (let r = do_something mock_ensure_signed new_test_ext (MockSigned 1) 42
      in assert_ok r \<and> something (snd r) = Some 42)"

definition correct_error_for_none_value :: bool where
  "correct_error_for_none_value \<longleftrightarrow>
     assert_noop (cause_error mock_ensure_signed new_test_ext (MockSigned 1)) new_test_ext NoneValue"

section \<open>The benchmark\<close>

text \<open>The component \<open>s\<close> ranges over \<open>0 .. 100\<close>; the dispatch must succeed and the value be stored.\<close>

definition benchmark_components :: "32 word list" where
  "benchmark_components = map of_nat [0..<101]"

definition benchmark_do_something :: "64 word template \<Rightarrow> 64 word \<Rightarrow> 32 word \<Rightarrow> bool" where
  "benchmark_do_something st whitelisted_caller s \<longleftrightarrow>
     (let r = do_something mock_ensure_signed st (MockSigned whitelisted_caller) s
      in assert_ok r \<and> something (snd r) = Some s)"

section \<open>Properties\<close>

text \<open>The unit tests pass, and the benchmark verifies for every caller, component and storage.\<close>

theorem template_tests_pass:
  "it_works_for_default_value \<and> correct_error_for_none_value
    \<and> list_all (benchmark_do_something st caller) benchmark_components"
  by (simp add: it_works_for_default_value_def correct_error_for_none_value_def assert_ok_def assert_noop_def
      benchmark_do_something_def do_something_def cause_error_def new_test_ext_def list_all_iff Let_def)

text \<open>What the tests rest on holds in the chain's runtime as well: both configurations let every
  call pass, notify nobody of accounts and have the same address prefix; and neither the mock's
  own accounts and origins nor the rest of its configuration matter to the pallet, whose calls
  look at their origin only through \<open>ensure_signed\<close>.\<close>

theorem mock_agrees_with_runtime:
  "BaseCallFilter (mock_frame_system w l) = BaseCallFilter (runtime_frame_system w' mx n)
    \<and> OnKilledAccount (mock_frame_system w l) = OnKilledAccount (runtime_frame_system w' mx n)
    \<and> OnNewAccount (mock_frame_system w l) = OnNewAccount (runtime_frame_system w' mx n)
    \<and> SS58Prefix (mock_frame_system w l) = SS58Prefix (runtime_frame_system w' mx n)
    \<and> HashingType (mock_frame_system w l) = HashingType (runtime_frame_system w' mx n)
    \<and> distinct mock_pallets \<and> set mock_pallets = UNIV"
proof -
  have "p \<in> set mock_pallets" for p by (cases p) (simp_all add: mock_pallets_def)
  then show ?thesis
    by (auto simp: mock_frame_system_def runtime_frame_system_def system_config_def MockSS58Prefix_def
        mock_pallets_def frame_system_Config.defs system_Config.defs)
qed

lemma template_reads_signer_only:
  "signer origin = signer' origin' \<Longrightarrow> do_something signer s origin x = do_something signer' s origin' x"
  "signer origin = signer' origin' \<Longrightarrow> cause_error signer s origin = cause_error signer' s origin'"
  by (simp_all add: do_something_def cause_error_def)

end
