(* ===== verification/Bank_Properties.thy ===== *)
theory Bank_Properties
  imports Bank_Runtime
begin

text \<open>
  The properties of the runtime as a whole: both pallets on one ledger, the conservation of
  funds, and what the wiring of the handlers makes of the two life cycles.
\<close>

section \<open>Conservation of funds\<close>

text \<open>Account identifiers are byte strings of fixed length, so there are finitely many.\<close>

definition total_funds :: "('o, 'a :: finite, 'd, 'w) host \<Rightarrow> 'w \<Rightarrow> nat" where
  "total_funds H w = (\<Sum>a\<in>UNIV. holdings H w a)"

lemma total_same: "same_funds H w w' \<Longrightarrow> total_funds H w' = total_funds H w"
  by (simp add: total_funds_def holdings_same_funds)

lemma total_to_reserved: "moved_to_reserved H w a n w' \<Longrightarrow> total_funds H w' = total_funds H w"
  by (simp add: total_funds_def holdings_to_reserved)

lemma total_from_reserved: "moved_from_reserved H w a b n w' \<Longrightarrow> total_funds H w' = total_funds H w"
  by (simp add: total_funds_def holdings_sum_from_reserved [where A = UNIV])

lemma total_reserve:
  assumes "currency_laws H" "reserve H w a v = (r, w')"
  shows "total_funds H w' = total_funds H w"
  using assms(2) total_to_reserved [OF reserve_ok [OF assms(1)]] total_same [OF reserve_err [OF assms(1)]]
  by (cases r) auto

lemma total_repatriate:
  assumes "currency_laws H" "repatriate_reserved H w a b v Free = (r, w')"
  shows "total_funds H w' = total_funds H w"
  using assms(2) total_from_reserved [OF repatriate_ok [OF assms(1)]] total_same [OF repatriate_err [OF assms(1)]]
  by (cases r) auto

lemma total_unreserve [simp]:
  "currency_laws H \<Longrightarrow> total_funds H (snd (unreserve H w a v)) = total_funds H w"
  by (metis prod.collapse total_from_reserved unreserve_moves)

lemma total_send [simp]:
  "currency_laws H \<Longrightarrow> total_funds H (snd (send_xcm H w d x)) = total_funds H w"
  by (metis prod.collapse total_same send_same)

lemma total_sv_send [simp]:
  "currency_laws H \<Longrightarrow> total_funds H (sWorld (sv_send H p m s)) = total_funds H (sWorld s)"
  by (simp add: sv_send_def Let_def)

lemma total_xc_dispatch:
  assumes laws: "currency_laws H"
  shows "total_funds H (xWorld (snd (xc_dispatch H s origin c))) = total_funds H (xWorld s)"
proof (cases c)
  case xc_call_test
  have "total_funds H w' = total_funds H w" if "send_xcm H w d x = (r, w')" for w d x r w'
    using total_send [OF laws, of w d x] that by simp
  with xc_call_test show ?thesis by (auto simp: xc_test_def split: result_splits)
next
  case (xc_call_order ob)
  then show ?thesis
    using laws by (auto simp: xc_order_def Let_def total_reserve split: result_splits)
next
  case (xc_call_cancel d)
  have "total_funds H w' = total_funds H w" if "unreserve H w a v = (r, w')" for w a v r w'
    using total_unreserve [OF laws, of w a v] that by simp
  with xc_call_cancel show ?thesis
    using laws by (auto simp: xc_cancel_def xc_order_reject_def xc_deposit_event_def Let_def total_repatriate
        split: result_splits)
next
  case (xc_call_register p pen wcd onoff)
  then show ?thesis by (auto simp: xc_register_def xc_deposit_event_def split: result_splits)
qed

lemma total_pay_penalty:
  "currency_laws H \<Longrightarrow> sv_pay_penalty H w oo now d dev = (r, w') \<Longrightarrow> total_funds H w' = total_funds H w"
  by (auto simp: sv_pay_penalty_def total_repatriate split: if_splits)

lemma total_reject:
  assumes laws: "currency_laws H"
  shows "total_funds H (sWorld (snd (sv_order_reject H C s oo now d dev onoff))) = total_funds H (sWorld s)"
  using laws by (auto simp: sv_order_reject_def Let_def total_pay_penalty [OF laws] simp del: sv_send_simps(4)
      split: result_splits)

lemma total_sv_dispatch:
  assumes laws: "currency_laws H"
  shows "total_funds H (sWorld (snd (sv_dispatch H C s origin c))) = total_funds H (sWorld s)"
proof (cases c)
  case (sv_call_order ob)
  then show ?thesis
    using laws by (auto simp: sv_order_def sv_order_received_def Let_def total_reserve
        simp del: sv_send_simps(4) split: result_splits)
next
  case (sv_call_cancel d)
  then show ?thesis using total_reject [OF laws] by (auto simp: sv_cancel_def Let_def split: result_splits)
next
  case (sv_call_accept reject onoff)
  then show ?thesis using total_reject [OF laws] laws
    by (auto simp: sv_accept_def Let_def simp del: sv_send_simps(4) split: result_splits)
next
  case (sv_call_done onoff)
  then show ?thesis using laws
    by (auto simp: sv_done_def sv_order_done_def Let_def total_repatriate total_pay_penalty
        simp del: sv_send_simps(4) split: result_splits)
qed (auto simp: sv_register_def sv_set_state_def split: result_splits)

section \<open>What the calls of the runtime can and cannot do\<close>

text \<open>The events a client-side call logs.\<close>

fun xc_call_event :: "'a xc_Event \<Rightarrow> bool" where
  "xc_call_event (XNewDevice d) = True"
| "xc_call_event (XNewOrder c d) = True"
| "xc_call_event (XReject c d) = True"
| "xc_call_event _ = False"

definition xc_call_state :: "('a, 'd, 'w) xchange \<Rightarrow> bool" where
  "xc_call_state s \<longleftrightarrow> (\<forall>e\<in>set (xEvents s). xc_call_event e)
     \<and> (\<forall>d dev. xDevice s d = Some dev \<longrightarrow> xp_state dev \<noteq> Timewait)"

lemma xc_call_state_dispatch:
  assumes "xc_call_state s"
  shows "xc_call_state (snd (xc_dispatch H s origin c))"
proof (cases c)
  case xc_call_test
  with assms show ?thesis by (auto simp: xc_test_def xc_call_state_def split: result_splits)
next
  case (xc_call_order ob)
  with assms show ?thesis by (auto simp: xc_order_def Let_def xc_call_state_def split: result_splits)
next
  case (xc_call_cancel d)
  with assms show ?thesis
    by (auto simp: xc_cancel_def xc_order_reject_def xc_deposit_event_def Let_def xc_call_state_def
        split: result_splits)
next
  case (xc_call_register p pen wcd onoff)
  with assms show ?thesis
    by (auto simp: xc_register_def xc_deposit_event_def xc_call_state_def split: result_splits)
qed

lemma xc_call_closes:
  assumes "xOrders s d = Some oo" "xOrders (snd (xc_dispatch H s origin c)) d = None"
  shows "c = xc_call_cancel d \<and> ensure_signed H origin = Inr (o_client oo)
    \<and> o_until oo \<le> timestamp_get H (xWorld s)"
proof (cases c)
  case xc_call_test
  with assms show ?thesis by (auto simp: xc_test_def split: result_splits)
next
  case (xc_call_order ob)
  with assms show ?thesis by (auto simp: xc_order_def Let_def split: result_splits)
next
  case (xc_call_cancel d')
  with assms show ?thesis
    by (auto simp: xc_cancel_def xc_order_reject_def xc_deposit_event_def Let_def not_less
        split: result_splits)
next
  case (xc_call_register p pen wcd onoff)
  with assms show ?thesis by (auto simp: xc_register_def xc_deposit_event_def split: result_splits)
qed

text \<open>Service devices under \<open>AcceptOnReceive\<close>.\<close>

definition sv_call_state :: "para_id \<Rightarrow> ('a, 'd, 'w) service \<Rightarrow> bool" where
  "sv_call_state p s \<longleftrightarrow> (\<forall>d dev. sDevice s d = Some dev \<longrightarrow> sp_state dev \<noteq> Busy)
     \<and> (\<forall>d oo. sOrders s d = Some oo \<longrightarrow> o_paraid oo = p)"

lemma sv_switch_not_busy: "sv_switch b x = Some y \<Longrightarrow> y \<noteq> Busy"
  by (cases b; cases x) auto

lemma sv_call_state_dispatch:
  assumes "sv_call_state p s"
  shows "sv_call_state p (snd (sv_dispatch H (bank_service_config p) s origin c))"
proof (cases c)
  case (sv_call_order ob)
  with assms show ?thesis
    by (auto simp: sv_order_def sv_order_received_def AcceptOnReceive_def Let_def sv_call_state_def
        split: result_splits)
next
  case (sv_call_cancel d)
  with assms show ?thesis
    by (auto simp: sv_cancel_def sv_order_reject_def Let_def sv_call_state_def split: result_splits)
next
  case (sv_call_accept reject onoff)
  with assms show ?thesis
    by (auto simp: sv_accept_def sv_order_reject_def Let_def sv_call_state_def split: result_splits)
next
  case (sv_call_done onoff)
  with assms show ?thesis
    by (auto simp: sv_done_def sv_order_done_def Let_def sv_call_state_def split: result_splits)
next
  case (sv_call_register pen wcd onoff)
  with assms show ?thesis by (auto simp: sv_register_def sv_call_state_def split: result_splits)
next
  case (sv_call_set_state onoff)
  with assms show ?thesis
    by (auto simp: sv_set_state_def sv_call_state_def dest: sv_switch_not_busy split: result_splits)
qed

lemma call_states_world [simp]:
  "xc_call_state (s\<lparr>xWorld := w\<rparr>) = xc_call_state s"
  "sv_call_state p (s'\<lparr>sWorld := w\<rparr>) = sv_call_state p s'"
  by (simp_all add: xc_call_state_def sv_call_state_def)

lemma bank_call_state_step:
  "bank_step H p b l t \<Longrightarrow> xc_call_state (xc_part b) \<and> sv_call_state p (sv_part b)
     \<Longrightarrow> xc_call_state (xc_part t) \<and> sv_call_state p (sv_part t)"
proof (induction rule: bank_step.induct)
  case (bstep_call b origin c)
  then show ?case
    by (cases c) (simp_all add: bank_call_parts xc_call_state_dispatch sv_call_state_dispatch
      del: bank_dispatch.simps)
qed simp

interpretation bank_calls: transition_system bank_init "bank_step H p"
    "\<lambda>b. xc_call_state (xc_part b) \<and> sv_call_state p (sv_part b)" for H p
  by unfold_locales
    (simp add: bank_init_def xc_init_def sv_init_def xc_call_state_def sv_call_state_def,
      rule bank_call_state_step)

lemma bank_step_view: "bank_step H p b l t \<Longrightarrow> sv_life\<^sup>*\<^sup>* (sv_view (sv_part b) d) (sv_view (sv_part t) d)"
proof -
  assume "bank_step H p b l t"
  from bank_step_sv [OF this] obtain sl where "sv_step H (bank_service_config p) (sv_part b) sl (sv_part t)"
    by blast
  then show ?thesis by (rule bank_market.step_life)
qed

interpretation bank_service_life: device_machine bank_init "bank_step H p" "\<lambda>b. sv_view (sv_part b)"
    "\<lambda>v. v = (None, False)" sv_life for H p
  by unfold_locales (simp add: bank_init_def sv_init_def sv_view_def, rule bank_step_view)

section \<open>A small run of the runtime\<close>

text \<open>Device 7 registers with the client-side pallet (penalty 10) and device 8 with the service
  (penalty 5); client 9 orders 7 for a fee of 40 and 8 for a fee of 30; later the deadline of
  both orders, time 1100, has passed.\<close>

definition bw_start :: "(8 word, 8 word, ledger) bank" where
  "bw_start = \<lparr>bTemplate = \<lparr>something = None, t_events = []\<rparr>,
     bXchange = \<lparr>xDevice = Map.empty, xOrders = Map.empty, xEvents = [], xWorld = ()\<rparr>,
     bService = \<lparr>sDevice = Map.empty, sOrders = Map.empty, sEvents = [], sWorld = ()\<rparr>,
     bWorld = \<lparr>l_free = (\<lambda>_. 0)(7 := 100, 8 := 50, 9 := 500), l_reserved = (\<lambda>_. 0), l_now = 1000,
       l_outbox = []\<rparr>\<rparr>"

definition bw_order :: "8 word \<Rightarrow> balance \<Rightarrow> (8 word, 8 word) OrderBase" where
  "bw_order d fee = \<lparr>ob_until = 1100, ob_data = 3, ob_fee = fee, ob_device = d\<rparr>"

fun bw_run :: "(8 word, 8 word, ledger) bank \<Rightarrow> (8 word \<times> (8 word, 8 word) bank_Call) list
    \<Rightarrow> (8 word, 8 word, ledger) bank" where
  "bw_run b [] = b"
| "bw_run b ((who, c) # cs) = bw_run (snd (bank_dispatch ledger_host 2000 b (Some who) c)) cs"

definition bw_ordered :: "(8 word, 8 word, ledger) bank" where
  "bw_ordered = bw_run bw_start
     [(7, XchangeCall (xc_call_register 2001 10 5 True)), (8, ServiceCall (sv_call_register 5 5 True)),
      (9, XchangeCall (xc_call_order (bw_order 7 40))), (9, ServiceCall (sv_call_order (bw_order 8 30)))]"

definition bw_late :: "(8 word, 8 word, ledger) bank" where
  "bw_late = bw_ordered\<lparr>bWorld := (bWorld bw_ordered)\<lparr>l_now := 1200\<rparr>\<rparr>"

lemma bw_run_reach:
  "reachable bank_init (bank_sound_step ledger_host 2000) b
     \<Longrightarrow> \<forall>(who, c)\<in>set cs. \<not> bank_gives_back c
     \<Longrightarrow> reachable bank_init (bank_sound_step ledger_host 2000) (bw_run b cs)"
proof (induction cs arbitrary: b)
  case (Cons m cs)
  obtain who c where m: "m = (who, c)" by (cases m)
  have "bank_sound_step ledger_host 2000 b (BCall (Some who) c) (snd (bank_dispatch ledger_host 2000 b (Some who) c))"
    by (rule bsound_call) (use Cons.prems(2) m in simp)
  from Cons.IH [OF reachable_step [OF Cons.prems(1) this]] Cons.prems(2) m show ?case by simp
qed simp

lemma bw_ordered_reach: "reachable bank_init (bank_sound_step ledger_host 2000) bw_ordered"
  unfolding bw_ordered_def
  by (rule bw_run_reach, rule reachable_init)
    (simp_all add: bank_init_def xc_init_def sv_init_def xc_part_def sv_part_def bw_start_def)

lemma bw_late_reach: "reachable bank_init (bank_sound_step ledger_host 2000) bw_late"
  unfolding bw_late_def by (rule reachable_step [OF bw_ordered_reach], rule bsound_environment) simp

lemma bank_sound_reachable:
  "reachable bank_init (bank_sound_step H p) b \<Longrightarrow> reachable bank_init (bank_step H p) b"
proof (induction rule: reachable.induct)
  case (reachable_step s l t)
  from reachable_step(2) have "bank_step H p s l t"
    by (cases rule: bank_sound_step.cases) (auto intro: bank_step.intros)
  with reachable_step(3) show ?case by (rule reachable.reachable_step)
qed (rule reachable.reachable_init)

lemma bw_ordered_eq:
  "xOrders (xc_part bw_ordered) = [7 \<mapsto> OrderBase_convert (bw_order 7 40) 9]"
  "sOrders (sv_part bw_ordered) = [8 \<mapsto> \<lparr>o_until = 1100, o_data = 3, o_fee = 30, o_client = 9, o_paraid = 2000\<rparr>]"
  "xDevice (xc_part bw_ordered) = [7 \<mapsto> \<lparr>xp_penalty = 10, xp_wcd = 5, xp_para_id = 2001, xp_state = Busy\<rparr>]"
  "sDevice (sv_part bw_ordered) = [8 \<mapsto> \<lparr>sp_penalty = 5, sp_wcd = 5, sp_state = Accepted\<rparr>]"
  "l_reserved (bWorld bw_ordered) = (\<lambda>_. 0)(7 := 10, 8 := 5, 9 := 70)"
  "l_free (bWorld bw_ordered) = (\<lambda>_. 0)(7 := 90, 8 := 45, 9 := 430)"
  "l_now (bWorld bw_ordered) = 1000"
  "xEvents (xc_part bw_ordered) = [XNewDevice 7, XNewOrder 9 7]"
  by (simp_all add: bw_ordered_def bw_start_def bw_order_def op_defs xc_part_def sv_part_def put_xc_def
      put_sv_def ledger_reserve_def Let_def AcceptOnReceive_def fun_eq_iff OrderBase_convert_def)

section \<open>Properties\<close>





text \<open>C35: In this runtime a client-side order ends in one way only: its own client cancels it, at or
  after its deadline.  No answer of the device's chain can end it, because sibling messages do
  not reach the pallet.\<close>

theorem bank_client_orders_end_by_cancel:
  assumes "bank_step H p b l t" and "xOrders (xc_part b) d = Some oo" and "xOrders (xc_part t) d = None"
  shows "\<exists>origin. l = BCall origin (XchangeCall (xc_call_cancel d))
     \<and> ensure_signed H origin = Inr (o_client oo) \<and> o_until oo \<le> timestamp_get H (bWorld b)"
  using assms(1)
proof (cases rule: bank_step.cases)
  case (bstep_call origin c)
  show ?thesis
  proof (cases c)
    case (XchangeCall xc)
    have "xOrders (snd (xc_dispatch H (xc_part b) origin xc)) d = None"
      using assms(3) unfolding bstep_call(2) XchangeCall bank_call_parts .
    from xc_call_closes [OF assms(2) this] show ?thesis by (simp add: bstep_call(1) XchangeCall)
  qed (use assms(2,3) in \<open>simp_all add: bstep_call(2) bank_call_parts del: bank_dispatch.simps\<close>)
qed (use assms(2,3) in simp)

theorem bank_client_orders_end_by_cancel_witness:
  "\<exists>t. bank_step ledger_host 2000 bw_late (BCall (Some 9) (XchangeCall (xc_call_cancel 7))) t
     \<and> xOrders (xc_part t) 7 = None \<and> 1100 \<le> timestamp_get ledger_host (bWorld bw_late)"
proof -
  let ?t = "snd (bank_dispatch ledger_host 2000 bw_late (Some 9) (XchangeCall (xc_call_cancel 7)))"
  have late: "xc_part bw_late = (xc_part bw_ordered)\<lparr>xWorld := (bWorld bw_ordered)\<lparr>l_now := 1200\<rparr>\<rparr>"
    by (simp add: bw_late_def)
  have step: "bank_step ledger_host 2000 bw_late (BCall (Some 9) (XchangeCall (xc_call_cancel 7))) ?t"
    by (rule bstep_call)
  have "xOrders (xc_part bw_late) 7 = Some (OrderBase_convert (bw_order 7 40) 9)"
    by (simp add: late bw_ordered_eq)
  moreover have closed: "xOrders (xc_part ?t) 7 = None"
    unfolding bank_call_parts late
    by (simp add: bw_ordered_eq op_defs ledger_move_def ledger_repatriate_def Let_def bw_order_def)
  ultimately have "o_until (OrderBase_convert (bw_order 7 40) 9) \<le> timestamp_get ledger_host (bWorld bw_late)"
    using bank_client_orders_end_by_cancel [OF step] by blast
  with step closed show ?thesis by (intro exI [of _ ?t]) (simp add: bw_order_def del: bank_dispatch.simps)
qed

text \<open>In a reachable state of this runtime the client-side pallet has only logged new devices, new
  orders and rejections: no order was ever accepted or completed, and no device was ever
  abandoned.\<close>

theorem bank_client_orders_never_answered:
  assumes "reachable bank_init (bank_step H p) b" and "e \<in> set (xEvents (xc_part b))"
  shows "((\<exists>d. e = XNewDevice d) \<or> (\<exists>c d. e = XNewOrder c d) \<or> (\<exists>c d. e = XReject c d))
    \<and> map_option xp_state (xDevice (xc_part b) d) \<noteq> Some Timewait"
proof -
  have calls: "xc_call_state (xc_part b)" using bank_calls.inv_reachable [OF assms(1)] by simp
  then have "xc_call_event e" using assms(2) by (simp add: xc_call_state_def)
  moreover have "map_option xp_state (xDevice (xc_part b) d) \<noteq> Some Timewait"
    using calls by (auto simp: xc_call_state_def)
  ultimately show ?thesis by (cases e) simp_all
qed

theorem bank_client_orders_never_answered_witness:
  "XNewOrder 9 7 \<in> set (xEvents (xc_part bw_ordered))
     \<and> map_option xp_state (xDevice (xc_part bw_ordered) 7) \<noteq> Some Timewait"
proof -
  have e: "XNewOrder 9 7 \<in> set (xEvents (xc_part bw_ordered))" by (simp add: bw_ordered_eq)
  with bank_client_orders_never_answered [OF bank_sound_reachable [OF bw_ordered_reach] e, of 7]
  show ?thesis by blast
qed

text \<open>In a reachable state of this runtime no service device is ever busy, every order it holds is
  one of its own chain, and the device of an open order has accepted it at once.  So a device's
  own acceptance never succeeds.\<close>

theorem bank_service_accepts_at_once:
  assumes "reachable bank_init (bank_step H p) b"
  shows "map_option sp_state (sDevice (sv_part b) d) \<noteq> Some Busy
    \<and> (sOrders (sv_part b) d \<noteq> None \<longrightarrow> map_option sp_state (sDevice (sv_part b) d) = Some Accepted
         \<and> map_option o_paraid (sOrders (sv_part b) d) = Some p)
    \<and> fst (bank_dispatch H p b origin (ServiceCall (sv_call_accept False onoff))) \<noteq> Inr ()"
proof -
  have calls: "sv_call_state p (sv_part b)" using bank_calls.inv_reachable [OF assms] by simp
  have "snd (sv_view (sv_part b) d) \<longrightarrow> fst (sv_view (sv_part b) d) \<in> {Some Busy, Some Accepted}"
    by (rule bank_service_life.life_invariant [OF assms, where P = "\<lambda>v. snd v \<longrightarrow> fst v \<in> {Some Busy, Some Accepted}"])
      (auto elim: sv_life.cases)
  then have "sOrders (sv_part b) d \<noteq> None \<longrightarrow> map_option sp_state (sDevice (sv_part b) d) = Some Accepted
      \<and> map_option o_paraid (sOrders (sv_part b) d) = Some p"
    using calls by (auto simp: sv_view_def sv_call_state_def)
  moreover have "map_option sp_state (sDevice (sv_part b) d) \<noteq> Some Busy"
    using calls by (auto simp: sv_call_state_def)
  moreover have "fst (sv_accept H (bank_service_config p) (sv_part b) origin False onoff) \<noteq> Inr ()"
    using calls by (auto simp: sv_accept_def Let_def sv_call_state_def split: result_splits)
  then have "fst (bank_dispatch H p b origin (ServiceCall (sv_call_accept False onoff))) \<noteq> Inr ()"
    by (cases "fst (sv_accept H (bank_service_config p) (sv_part b) origin False onoff)" rule: sum.exhaust;
        cases "projl (fst (sv_accept H (bank_service_config p) (sv_part b) origin False onoff))")
      (auto split: prod.split)
  ultimately show ?thesis by blast
qed

theorem bank_service_accepts_at_once_witness:
  "map_option sp_state (sDevice (sv_part bw_ordered) 8) = Some Accepted
    \<and> fst (bank_dispatch ledger_host 2000 bw_ordered (Some 8) (ServiceCall (sv_call_accept False True))) \<noteq> Inr ()"
  using bank_service_accepts_at_once [OF bank_sound_reachable [OF bw_ordered_reach], of 8 "Some 8" True]
  by (simp add: bw_ordered_eq del: bank_dispatch.simps)

text \<open>A call reaches the pallet that the runtime's table names for it: the three pallets have
  calls, their indices differ, and looking up the index of the call's pallet gives it back.\<close>

theorem bank_call_index_roundtrip:
  "pallet_of_index (pallet_index (call_pallet c)) = Some (call_pallet c)"
  by (cases c) (simp_all add: pallet_of_index_def all_pallets_def has_call_def)

end
