(* ===== verification/Spending.thy ===== *)
theory Spending
  imports Bank_Properties
begin

text \<open>
  What the market can take from an account.  The free balance of an account falls only when the
  account itself places an order, by the fee, or when an order is placed on its device, by the
  penalty it registered; answers, whatever they say and whoever sends them, settlements, hooks
  and the calls of others leave it alone or add to it.  Over a run the losses add up to no more
  than that.
\<close>

section \<open>Runs with a budget\<close>

text \<open>A run as the list of its steps: where each began, its label, where it ended.\<close>

inductive run_of :: "('s \<Rightarrow> 'l \<Rightarrow> 's \<Rightarrow> bool) \<Rightarrow> 's \<Rightarrow> ('s \<times> 'l \<times> 's) list \<Rightarrow> 's \<Rightarrow> bool"
  for step :: "'s \<Rightarrow> 'l \<Rightarrow> 's \<Rightarrow> bool"
where
  run_nil: "run_of step s [] s"
| run_cons: "step s l t \<Longrightarrow> run_of step t r u \<Longrightarrow> run_of step s ((s, l, t) # r) u"

text \<open>The interface: in every step each account loses at most what the step lets it spend.\<close>

locale budget =
  fixes step :: "'s \<Rightarrow> 'l \<Rightarrow> 's \<Rightarrow> bool"
    and funds :: "'s \<Rightarrow> 'a \<Rightarrow> nat"
    and spends :: "'s \<Rightarrow> 'l \<Rightarrow> 's \<Rightarrow> 'a \<Rightarrow> nat"
  assumes spends_step: "step s l t \<Longrightarrow> funds s a \<le> funds t a + spends s l t a"
begin

lemma spends_run: "run_of step s r t \<Longrightarrow> funds s a \<le> funds t a + (\<Sum>(u, l, v)\<leftarrow>r. spends u l v a)"
proof (induction rule: run_of.induct)
  case (run_cons s l t r u)
  from spends_step [OF run_cons.hyps(1), of a] run_cons.IH show ?case by simp
qed simp

text \<open>Who spends nothing loses nothing.\<close>

lemma bystander_run:
  assumes "run_of step s r t" "\<And>u l v. (u, l, v) \<in> set r \<Longrightarrow> spends u l v a = 0"
  shows "funds s a \<le> funds t a"
proof -
  have "(\<Sum>(u, l, v)\<leftarrow>r. spends u l v a) = 0" using assms(2) by (induction r) auto
  with spends_run [OF assms(1), of a] show ?thesis by simp
qed

end

section \<open>What the currency's functions leave alone\<close>

definition free_kept :: "('o, 'a, 'd, 'w) host \<Rightarrow> 'w \<Rightarrow> 'w \<Rightarrow> bool" where
  "free_kept H w w' \<longleftrightarrow> (\<forall>a. free_balance H w a \<le> free_balance H w' a)"

lemma free_kept_refl [simp]: "free_kept H w w"
  by (simp add: free_kept_def)

lemma free_kept_trans [trans]: "free_kept H u v \<Longrightarrow> free_kept H v w \<Longrightarrow> free_kept H u w"
  unfolding free_kept_def using le_trans by blast

lemma free_kept_same: "same_funds H w w' \<Longrightarrow> free_kept H w w'"
  by (simp add: same_funds_def free_kept_def)

lemma free_kept_moved: "moved_from_reserved H w a b n w' \<Longrightarrow> free_kept H w w'"
  by (simp add: moved_from_reserved_def free_kept_def)

lemma free_kept_unreserve [simp]: "currency_laws H \<Longrightarrow> free_kept H w (snd (unreserve H w a v))"
  by (metis free_kept_moved prod.collapse unreserve_moves)

lemma free_kept_repatriate:
  assumes "currency_laws H" "repatriate_reserved H w a b v Free = (r, w')"
  shows "free_kept H w w'"
  using assms(2) free_kept_moved [OF repatriate_ok [OF assms(1)]] free_kept_same [OF repatriate_err [OF assms(1)]]
  by (cases r) auto

lemma free_kept_send [simp]: "currency_laws H \<Longrightarrow> free_kept H w (snd (send_xcm H w d x))"
  by (metis free_kept_same prod.collapse send_same)

section \<open>The client-side pallet\<close>

fun xc_spends ::
  "('o, 'a, 'd, 'w) host \<Rightarrow> ('a, 'd, 'w) xchange \<Rightarrow> ('o, 'a, 'd) xc_label \<Rightarrow> ('a, 'd, 'w) xchange
     \<Rightarrow> 'a \<Rightarrow> nat" where
  "xc_spends H s (XCall origin (xc_call_order ob)) t a =
     (if ensure_signed H origin = Inr a then unat (ob_fee ob) else 0)
       + (if a = ob_device ob then xc_penalty s a else 0)"
| "xc_spends H s XEnvironment t a = free_balance H (xWorld s) a - free_balance H (xWorld t) a"
| "xc_spends H s _ t a = 0"

lemma xc_order_spends:
  assumes laws: "currency_laws H"
  shows "free_balance H (xWorld s) a \<le> free_balance H (xWorld (snd (xc_order H s origin ob))) a
    + (if ensure_signed H origin = Inr a then unat (ob_fee ob) else 0)
    + (if a = ob_device ob then xc_penalty s a else 0)"
proof -
  obtain r t where r: "xc_order H s origin ob = (r, t)" by fastforce
  show ?thesis
  proof (cases r)
    case (Inl e)
    from xc_order_failed [OF laws r [unfolded Inl]] show ?thesis
      by (auto simp: r same_funds_def moved_to_reserved_def)
  next
    case (Inr u)
    then have ok: "xc_order H s origin ob = (Inr (), t)" using r by simp
    obtain who dev w1 w2 where o: "ensure_signed H origin = Inr who" "xDevice s (ob_device ob) = Some dev"
        "reserve H (xWorld s) (ob_device ob) (xp_penalty dev) = (Inr (), w1)"
        "reserve H w1 who (ob_fee ob) = (Inr (), w2)" "t = xc_place_order H (s\<lparr>xWorld := w2\<rparr>) who ob dev"
      by (rule xc_order_okE [OF ok]) blast
    have "same_funds H w2 (xWorld t)" using send_same [OF laws] by (simp add: o(5)) (metis prod.collapse)
    from reserves_for_order(2) [OF laws o(3,4) this, of a] o(1,2) show ?thesis
      by (auto simp: r split: if_splits)
  qed
qed

lemma xc_reject_free:
  assumes "currency_laws H"
  shows "free_kept H (xWorld s) (xWorld (snd (xc_order_reject H s who oo now d dev)))"
  using free_kept_trans [OF free_kept_unreserve [OF assms] free_kept_unreserve [OF assms]]
    free_kept_trans [OF free_kept_unreserve [OF assms] free_kept_repatriate [OF assms]]
  by (auto simp: xc_order_reject_def xc_deposit_event_def Let_def split: sum.split prod.split)

lemma xc_done_free:
  assumes laws: "currency_laws H"
  shows "free_kept H (xWorld s) (xWorld (snd (xc_on_done H s who d onoff)))"
proof (cases "\<exists>oo dev. xOrders s d = Some oo \<and> xDevice s d = Some dev")
  case True
  then obtain oo dev where o: "xOrders s d = Some oo" "xDevice s d = Some dev" by blast
  obtain r w1 where w1: "repatriate_reserved H (xWorld s) who d (o_fee oo) Free = (r, w1)" by fastforce
  note one = free_kept_repatriate [OF laws w1]
  show ?thesis
    using one free_kept_trans [OF one free_kept_unreserve [OF laws]]
      free_kept_trans [OF one free_kept_repatriate [OF laws]]
    by (auto simp: xc_on_done_def xc_deposit_event_def Let_def o w1 split: sum.split prod.split)
qed (auto simp: xc_on_done_def split: option.split)

lemma xc_dispatch_free:
  assumes "currency_laws H" "\<And>ob. c \<noteq> xc_call_order ob"
  shows "free_kept H (xWorld s) (xWorld (snd (xc_dispatch H s origin c)))"
proof (cases c)
  case xc_call_test
  then show ?thesis using free_kept_same [OF send_same [OF assms(1)]]
    by (auto simp: xc_test_def Let_def split: sum.split prod.split)
next
  case (xc_call_cancel d)
  then show ?thesis using xc_reject_free [OF assms(1)]
    by (auto simp: xc_cancel_def Let_def split: option.split sum.split)
next
  case (xc_call_register p pen wcd onoff)
  then show ?thesis by (simp add: xc_register_def xc_deposit_event_def split: sum.split)
qed (use assms(2) in simp)

lemma xc_one_free:
  assumes "currency_laws H" "xc_handle_one H s data = Some t"
  shows "free_kept H (xWorld s) (xWorld t)"
  using assms(2) xc_reject_free [OF assms(1)] xc_done_free [OF assms(1)]
  by (auto simp: xc_handle_one_def xc_on_accept_def xc_on_reject_def xc_deposit_event_def Let_def
      split: sum.splits XCMPMessage.splits option.splits)

lemma xc_deliver_free:
  assumes "currency_laws H"
  shows "free_kept H (xWorld s) (xWorld (snd (xc_handle_xcmp_messages H s msgs w)))"
proof (induction msgs arbitrary: s)
  case (Cons m msgs)
  obtain sender sent_at data where m: "m = (sender, sent_at, data)" by (cases m)
  from Cons.IH show ?case
    by (auto simp: m split: option.split intro: free_kept_trans [OF xc_one_free [OF assms]])
qed simp

lemma xc_spends_call:
  assumes "currency_laws H"
  shows "free_balance H (xWorld s) a \<le> free_balance H (xWorld (snd (xc_dispatch H s origin c))) a
    + xc_spends H s (XCall origin c) t a"
  using xc_order_spends [OF assms, of s a origin] xc_dispatch_free [OF assms, of c s origin]
  by (cases c) (simp_all add: free_kept_def add.assoc)

lemma xc_spends_step:
  assumes "currency_laws H"
  shows "xc_step H s l t \<Longrightarrow> free_balance H (xWorld s) a \<le> free_balance H (xWorld t) a + xc_spends H s l t a"
proof (induction rule: xc_step.induct)
  case (xstep_call s origin c)
  show ?case by (rule xc_spends_call [OF assms])
next
  case (xstep_deliver s msgs w)
  show ?case using xc_deliver_free [OF assms, of s msgs w] by (simp add: free_kept_def)
qed (simp_all add: xc_on_killed_account_def split: option.split)

text \<open>A currency that keeps its laws is all that is needed.\<close>

definition lawful :: "('o, 'a, 'd, 'w) host \<Rightarrow> ('s \<Rightarrow> 'l \<Rightarrow> 's \<Rightarrow> bool) \<Rightarrow> 's \<Rightarrow> 'l \<Rightarrow> 's \<Rightarrow> bool" where
  "lawful H step s l t \<longleftrightarrow> currency_laws H \<and> step s l t"

interpretation xc_budget: budget "lawful H (xc_step H)" "\<lambda>s. free_balance H (xWorld s)" "xc_spends H"
  for H :: "('o, 'a, 'd, 'w) host"
  by unfold_locales (auto simp: lawful_def intro: xc_spends_step)

lemma lawful_run: "currency_laws H \<Longrightarrow> run_of step s r t \<Longrightarrow> run_of (lawful H step) s r t"
proof -
  assume "currency_laws H"
  then have "lawful H step = step" by (simp add: lawful_def fun_eq_iff)
  then show "run_of step s r t \<Longrightarrow> run_of (lawful H step) s r t" by simp
qed

section \<open>The service-side pallet\<close>

text \<open>Messages come from other chains, so none carries an order that counts as local.\<close>

definition sv_foreign_step ::
  "('o, 'a, 'd, 'w) host \<Rightarrow> ('a, 'd) sv_Config \<Rightarrow> ('a, 'd, 'w) service
     \<Rightarrow> ('o, 'a, 'd) sv_label \<Rightarrow> ('a, 'd, 'w) service \<Rightarrow> bool" where
  "sv_foreign_step H C s l t \<longleftrightarrow> sv_step H C s l t
     \<and> (\<forall>msgs w. l = SDeliver msgs w \<longrightarrow> (\<forall>(sender, sent_at, data)\<in>set msgs. sender \<noteq> SelfParaId C))"

fun sv_spends ::
  "('o, 'a, 'd, 'w) host \<Rightarrow> ('a, 'd, 'w) service \<Rightarrow> ('o, 'a, 'd) sv_label \<Rightarrow> ('a, 'd, 'w) service
     \<Rightarrow> 'a \<Rightarrow> nat" where
  "sv_spends H s (SCall origin (sv_call_order ob)) t a =
     (if ensure_signed H origin = Inr a then unat (ob_fee ob) else 0)
       + (if a = ob_device ob then sv_penalty s a else 0)"
| "sv_spends H s SEnvironment t a = free_balance H (sWorld s) a - free_balance H (sWorld t) a"
| "sv_spends H s _ t a = 0"

lemma sv_send_free [simp]: "currency_laws H \<Longrightarrow> free_kept H (sWorld s) (sWorld (sv_send H p m s))"
  by (rule free_kept_same [OF sv_send_same])

lemma sv_received_spends:
  assumes laws: "currency_laws H"
  shows "free_balance H (sWorld s) a \<le> free_balance H (sWorld (snd (sv_order_received H C s oo d))) a
    + (if a = o_client oo then unat (o_fee oo) else 0) + (if a = d then sv_penalty s a else 0)"
proof -
  obtain r t where r: "sv_order_received H C s oo d = (r, t)" by fastforce
  show ?thesis
  proof (cases r)
    case (Inl e)
    from sv_order_received_failed [OF laws r [unfolded Inl]] show ?thesis
      by (auto simp: r same_funds_def moved_to_reserved_def)
  next
    case (Inr u)
    then have ok: "sv_order_received H C s oo d = (Inr (), t)" using r by simp
    obtain dev where dev: "sDevice s d = Some dev" by (rule sv_order_received_okE [OF ok]) blast
    from sv_order_received_moves [OF laws ok dev, of a] dev show ?thesis
      by (auto simp: r holdings_def split: if_splits)
  qed
qed

lemma sv_pay_penalty_free:
  "currency_laws H \<Longrightarrow> sv_pay_penalty H w oo now d dev = (r, w') \<Longrightarrow> free_kept H w w'"
  by (auto simp: sv_pay_penalty_def split: if_splits intro: free_kept_repatriate)

lemma sv_reject_free:
  assumes "currency_laws H"
  shows "free_kept H (sWorld s) (sWorld (snd (sv_order_reject H C s oo now d dev onoff)))"
  using free_kept_trans [OF free_kept_unreserve [OF assms] sv_pay_penalty_free [OF assms]] sv_send_free [OF assms]
  by (auto simp: sv_order_reject_def Let_def simp del: sv_send_simps(4)
      split: option.split sum.split prod.split)

lemma sv_order_done_free:
  assumes laws: "currency_laws H"
  shows "free_kept H (sWorld s) (sWorld (snd (sv_order_done H C s oo now d dev onoff)))"
proof (cases "o_paraid oo = SelfParaId C")
  case True
  obtain r w1 where w1: "repatriate_reserved H (sWorld s) (o_client oo) d (o_fee oo) Free = (r, w1)" by fastforce
  note one = free_kept_repatriate [OF laws w1]
  show ?thesis
    using one free_kept_trans [OF one sv_pay_penalty_free [OF laws]]
    by (auto simp: sv_order_done_def Let_def True w1 split: sum.split prod.split)
next
  case False
  let ?s = "s\<lparr>sDevice := (sDevice s)(d \<mapsto> dev\<lparr>sp_state := (if onoff then Ready else Off)\<rparr>)\<rparr>"
  from False sv_send_free [OF laws, of ?s "o_paraid oo" "OrderDone (o_client oo) d onoff"]
  show ?thesis by (simp add: sv_order_done_def Let_def del: sv_send_simps(4))
qed

lemma sv_dispatch_free:
  assumes laws: "currency_laws H" "\<And>ob. c \<noteq> sv_call_order ob"
  shows "free_kept H (sWorld s) (sWorld (snd (sv_dispatch H C s origin c)))"
proof (cases c)
  case (sv_call_cancel d)
  then show ?thesis using sv_reject_free [OF laws(1)]
    by (auto simp: sv_cancel_def Let_def split: option.split sum.split)
next
  case (sv_call_accept reject onoff)
  then show ?thesis using sv_reject_free [OF laws(1)] sv_send_free [OF laws(1)]
    by (auto simp: sv_accept_def Let_def simp del: sv_send_simps(4) split: option.split sum.split)
next
  case (sv_call_done onoff)
  have "free_kept H (sWorld s) (sWorld (snd (sv_order_done H C (s\<lparr>sOrders := os\<rparr>) oo now d dev onoff)))"
    for oo now d dev os
    using sv_order_done_free [OF laws(1), of "s\<lparr>sOrders := os\<rparr>"] by simp
  with sv_call_done show ?thesis by (simp add: sv_done_def Let_def split: option.split sum.split)
qed (use laws(2) in \<open>auto simp: sv_register_def sv_set_state_def split: option.split sum.split\<close>)

lemma sv_spends_call:
  assumes "currency_laws H"
  shows "free_balance H (sWorld s) a \<le> free_balance H (sWorld (snd (sv_dispatch H C s origin c))) a
    + sv_spends H s (SCall origin c) t a"
proof (cases "\<exists>ob. c = sv_call_order ob")
  case True
  then obtain ob where c: "c = sv_call_order ob" by blast
  show ?thesis
  proof (cases "ensure_signed H origin")
    case (Inr who)
    let ?oo = "\<lparr>o_until = ob_until ob, o_data = ob_data ob, o_fee = ob_fee ob, o_client = who,
      o_paraid = SelfParaId C\<rparr>"
    from sv_received_spends [OF assms, of s a C ?oo "ob_device ob"] show ?thesis
      by (cases "a = who"; cases "a = ob_device ob") (simp_all add: c sv_order_def Inr)
  qed (simp add: c sv_order_def)
next
  case False
  then have "free_kept H (sWorld s) (sWorld (snd (sv_dispatch H C s origin c)))"
    by (intro sv_dispatch_free [OF assms]) blast
  then show ?thesis by (simp add: free_kept_def trans_le_add1)
qed

lemma sv_spends_step:
  assumes laws: "currency_laws H" and "sv_foreign_step H C s l t"
  shows "free_balance H (sWorld s) a \<le> free_balance H (sWorld t) a + sv_spends H s l t a"
proof -
  from assms(2) have "sv_step H C s l t" by (simp add: sv_foreign_step_def)
  then show ?thesis
  proof cases
    case (sstep_call origin c)
    show ?thesis unfolding sstep_call by (rule sv_spends_call [OF laws])
  next
    case (sstep_deliver msgs w)
    with assms(2) have "same_funds H (sWorld s) (sWorld t)"
      by (auto simp: sv_foreign_step_def intro!: sv_deliver_same_funds [OF laws])
    then show ?thesis by (simp add: same_funds_def)
  qed (simp_all add: sv_on_killed_account_def split: option.split)
qed

interpretation sv_budget: budget "lawful H (sv_foreign_step H C)" "\<lambda>s. free_balance H (sWorld s)" "sv_spends H"
  for H :: "('o, 'a, 'd, 'w) host" and C :: "('a, 'd) sv_Config"
  by unfold_locales (auto simp: lawful_def intro: sv_spends_step)

section \<open>The runtime\<close>

fun bank_spends ::
  "('o, 'a, 'd, 'w) host \<Rightarrow> ('a, 'd, 'w) bank \<Rightarrow> ('o, 'a, 'd) bank_label \<Rightarrow> ('a, 'd, 'w) bank \<Rightarrow> 'a \<Rightarrow> nat" where
  "bank_spends H b (BCall origin (XchangeCall (xc_call_order ob))) t a =
     (if ensure_signed H origin = Inr a then unat (ob_fee ob) else 0)
       + (if a = ob_device ob then xc_penalty (xc_part b) a else 0)"
| "bank_spends H b (BCall origin (ServiceCall (sv_call_order ob))) t a =
     (if ensure_signed H origin = Inr a then unat (ob_fee ob) else 0)
       + (if a = ob_device ob then sv_penalty (sv_part b) a else 0)"
| "bank_spends H b BEnvironment t a = free_balance H (bWorld b) a - free_balance H (bWorld t) a"
| "bank_spends H b _ t a = 0"

lemma bank_spends_calls:
  "bank_spends H b (BCall origin (XchangeCall c)) t a = xc_spends H (xc_part b) (XCall origin c) x a"
  "bank_spends H b (BCall origin (ServiceCall sc)) t a = sv_spends H (sv_part b) (SCall origin sc) y a"
  by (cases c; simp) (cases sc; simp)

lemma bank_spends_step:
  assumes laws: "currency_laws H"
  shows "bank_step H p b l t \<Longrightarrow> free_balance H (bWorld b) a \<le> free_balance H (bWorld t) a + bank_spends H b l t a"
proof (induction rule: bank_step.induct)
  case (bstep_call b origin c)
  show ?case
  proof (cases c)
    case (XchangeCall xc)
    show ?thesis
      unfolding XchangeCall bank_call_world bank_spends_calls(1) [where x = undefined]
      using xc_spends_call [OF laws, of "xc_part b"] by simp
  next
    case (ServiceCall sc)
    show ?thesis
      unfolding ServiceCall bank_call_world bank_spends_calls(2) [where y = undefined]
      using sv_spends_call [OF laws, of "sv_part b"] by simp
  qed (simp add: bank_call_world split: prod.split)
qed simp

interpretation bank_budget: budget "lawful H (bank_step H p)" "\<lambda>b. free_balance H (bWorld b)" "bank_spends H"
  for H :: "('o, 'a, 'd, 'w) host" and p
  by unfold_locales (auto simp: lawful_def intro: bank_spends_step)

section \<open>Properties\<close>

text \<open>C18: Whatever run the client-side pallet makes, with any calls by anybody and any messages from
  anybody, the free balance of an account falls by no more than the fees of the orders the
  account itself placed, the penalties its device registered for the orders placed on it, and
  what the rest of the chain took.  No answer, forged or not, reaches into free funds.\<close>

theorem xc_spending_bounded:
  assumes "currency_laws H" and "run_of (xc_step H) s r t"
  shows "free_balance H (xWorld s) a
    \<le> free_balance H (xWorld t) a + (\<Sum>(u, l, v)\<leftarrow>r. xc_spends H u l v a)"
  by (rule xc_budget.spends_run [OF lawful_run [OF assms]])

theorem xc_spending_bounded_witness:
  "free_balance ledger_host (xWorld xw_start) 9 \<le> free_balance ledger_host (xWorld xw_ordered) 9 + 40"
proof -
  have "run_of (xc_step ledger_host) xw_start
      [(xw_start, XCall (Some 7) (xc_call_register 2001 10 5 True), xw_registered),
       (xw_registered, XCall (Some 9) (xc_call_order xw_base), xw_ordered)] xw_ordered"
    unfolding xw_ordered_def xw_registered_def by (intro run_cons run_nil xstep_call)
  from xc_spending_bounded [OF ledger_laws this, of 9] show ?thesis by (simp add: xw_base_def)
qed

text \<open>The same for the service-side pallet, whose messages come from other chains.\<close>

theorem sv_spending_bounded:
  assumes "currency_laws H" and "run_of (sv_foreign_step H C) s r t"
  shows "free_balance H (sWorld s) a
    \<le> free_balance H (sWorld t) a + (\<Sum>(u, l, v)\<leftarrow>r. sv_spends H u l v a)"
  by (rule sv_budget.spends_run [OF lawful_run [OF assms]])


fun bw_steps :: "(8 word, 8 word, ledger) bank \<Rightarrow> (8 word \<times> (8 word, 8 word) bank_Call) list
    \<Rightarrow> ((8 word, 8 word, ledger) bank \<times> (8 word option, 8 word, 8 word) bank_label
        \<times> (8 word, 8 word, ledger) bank) list" where
  "bw_steps b [] = []"
| "bw_steps b ((who, c) # cs) =
     (let t = snd (bank_dispatch ledger_host 2000 b (Some who) c) in (b, BCall (Some who) c, t) # bw_steps t cs)"

lemma bw_run_of: "run_of (bank_step ledger_host 2000) b (bw_steps b cs) (bw_run b cs)"
proof (induction cs arbitrary: b)
  case (Cons m cs)
  obtain who c where "m = (who, c)" by (cases m)
  then show ?case using Cons.IH by (simp add: Let_def run_cons bstep_call)
qed (simp add: run_nil)


end
