(* ===== verification/Xchange_Properties.thy ===== *)
theory Xchange_Properties
  imports Xchange_Escrow
begin

text \<open>
  The properties of the client-side pallet, each with a witness on the concrete host.
\<close>

section \<open>Further states of the small run\<close>

text \<open>The ordered state after the deadline has passed, and a device that orders itself with
  no free funds beyond the fee.\<close>

definition xw_late :: "(8 word, 8 word, ledger) xchange" where
  "xw_late = xw_ordered\<lparr>xWorld := (xWorld xw_ordered)\<lparr>l_now := 1200\<rparr>\<rparr>"

lemma xw_late_sel:
  "xOrders xw_late = [7 \<mapsto> OrderBase_convert xw_base 9]"
  "xDevice xw_late = [7 \<mapsto> xw_device\<lparr>xp_state := Busy\<rparr>]"
  "l_free (xWorld xw_late) = (\<lambda>_. 0)(7 := 90, 9 := 460)"
  "l_reserved (xWorld xw_late) = (\<lambda>_. 0)(7 := 10, 9 := 40)"
  "l_now (xWorld xw_late) = 1200"
  by (simp_all add: xw_late_def xw_ordered_order xw_ordered_device xw_ordered_world)

lemma xw_late_reach: "reachable xc_init (xc_sound_step ledger_host) xw_late"
  unfolding xw_late_def
  by (rule reachable_step [OF xw_sound_reach], rule xsound_environment) simp

lemmas xw_eval =
  xw_base_def xw_device_def xw_ordered_order xw_ordered_device xw_ordered_world xw_late_sel
  ledger_move_def ledger_reserve_def ledger_repatriate_def Let_def

section \<open>Escrow\<close>

text \<open>C7: In every state reached by calls, sound answers, account hooks and an environment
  that leaves reserves alone, each open order belongs to a registered device, and every
  account has reserved at least all fees of its own open orders plus the penalty of the order
  open on it.\<close>

theorem xc_escrow_solvent:
  assumes "currency_laws H" and "reachable xc_init (xc_sound_step H) s"
    and "xOrders s d = Some oo"
  shows "\<exists>dev. xDevice s d = Some dev
     \<and> unat (o_fee oo) \<le> reserved_balance H (xWorld s) (o_client oo)
     \<and> unat (xp_penalty dev) \<le> reserved_balance H (xWorld s) d
     \<and> xc_obligation s a \<le> reserved_balance H (xWorld s) a"
proof -
  have b: "xc_backed H s" using xc_escrow.inv_reachable [OF assms(2)] assms(1) by blast
  then obtain dev where dev: "xDevice s d = Some dev"
    using assms(3) by (auto simp: xc_backed_def xc_engaged_def)
  from backed_covers [OF b assms(3) dev] b dev show ?thesis
    by (auto simp: xc_backed_def)
qed

theorem xc_escrow_solvent_witness:
  "\<exists>dev. xDevice xw_ordered 7 = Some dev
     \<and> unat (o_fee (OrderBase_convert xw_base 9)) \<le> reserved_balance ledger_host (xWorld xw_ordered)
         (o_client (OrderBase_convert xw_base 9))
     \<and> unat (xp_penalty dev) \<le> reserved_balance ledger_host (xWorld xw_ordered) 7
     \<and> xc_obligation xw_ordered 9 \<le> reserved_balance ledger_host (xWorld xw_ordered) 9"
  by (rule xc_escrow_solvent [OF ledger_laws xw_sound_reach]) (simp add: xw_ordered_order)





section \<open>Opening an order\<close>

text \<open>C14: A successful order was placed before its deadline on a registered, ready device with
  no open order.  It stores the order under the device with the caller as client, makes the
  device busy, logs one event, moves exactly the penalty of the device and the fee of the
  client from free to reserved, and hands the sender a message to the device's parachain that
  decodes to the same order.\<close>

theorem xc_order_success:
  assumes "currency_laws H" "codec_laws H" and "xc_order H s origin ob = (Inr (), t)"
  shows "\<exists>who dev. ensure_signed H origin = Inr who \<and> xDevice s (ob_device ob) = Some dev
     \<and> xp_state dev = Ready \<and> xOrders s (ob_device ob) = None
     \<and> timestamp_get H (xWorld s) < ob_until ob
     \<and> xOrders t = (xOrders s)(ob_device ob \<mapsto>
         \<lparr>o_until = ob_until ob, o_data = ob_data ob, o_fee = ob_fee ob, o_client = who, o_paraid = 0\<rparr>)
     \<and> xDevice t = (xDevice s)(ob_device ob \<mapsto> dev\<lparr>xp_state := Busy\<rparr>)
     \<and> xEvents t = xEvents s @ [XNewOrder who (ob_device ob)]
     \<and> (\<forall>a. reserved_balance H (xWorld t) a = reserved_balance H (xWorld s) a
           + (if a = ob_device ob then unat (xp_penalty dev) else 0)
           + (if a = who then unat (ob_fee ob) else 0)
         \<and> holdings H (xWorld t) a = holdings H (xWorld s) a)
     \<and> (\<exists>w bs. xWorld t = snd (send_xcm H w (Parent, Parachain (xp_para_id dev)) [Transact Native 0 bs])
         \<and> decode_message H bs = Inr (NewOrder who ob))"
proof -
  obtain who dev w1 w2 where o:
    "ensure_signed H origin = Inr who" "xDevice s (ob_device ob) = Some dev"
    "xOrders s (ob_device ob) = None" "xp_state dev = Ready"
    "timestamp_get H (xWorld s) < ob_until ob"
    "reserve H (xWorld s) (ob_device ob) (xp_penalty dev) = (Inr (), w1)"
    "reserve H w1 who (ob_fee ob) = (Inr (), w2)"
    and t: "t = xc_place_order H (s\<lparr>xWorld := w2\<rparr>) who ob dev"
    by (rule xc_order_okE [OF assms(3)]) blast
  obtain r3 w3 where w3: "send_xcm H w2 (Parent, Parachain (xp_para_id dev))
      [Transact Native 0 (encode_message H (NewOrder who ob))] = (r3, w3)"
    by fastforce
  have w: "xWorld t = w3" by (simp add: t w3)
  note moved = reserves_for_order [OF assms(1) o(6,7) send_same [OF assms(1) w3]]
  have "holdings H w3 a = holdings H (xWorld s) a" for a
    using moved(1) [of a] moved(2) [of a] by (simp add: holdings_def)
  then have funds: "\<forall>a. reserved_balance H (xWorld t) a = reserved_balance H (xWorld s) a
           + (if a = ob_device ob then unat (xp_penalty dev) else 0)
           + (if a = who then unat (ob_fee ob) else 0)
         \<and> holdings H (xWorld t) a = holdings H (xWorld s) a"
    using moved(1) by (simp add: w)
  have "xWorld t = snd (send_xcm H w2 (Parent, Parachain (xp_para_id dev))
      [Transact Native 0 (encode_message H (NewOrder who ob))])"
    by (simp add: t)
  then have sent: "\<exists>w bs. xWorld t = snd (send_xcm H w (Parent, Parachain (xp_para_id dev)) [Transact Native 0 bs])
         \<and> decode_message H bs = Inr (NewOrder who ob)"
    using decode_encode [OF assms(2)] by blast
  show ?thesis
    using o funds sent by (intro exI [of _ who] exI [of _ dev]) (simp add: t OrderBase_convert_def)
qed

theorem xc_order_success_witness:
  "\<exists>who dev. ensure_signed ledger_host (Some 9) = Inr who \<and> xDevice xw_registered 7 = Some dev
     \<and> xOrders xw_ordered = (xOrders xw_registered)(7 \<mapsto> OrderBase_convert xw_base who)"
  using xc_order_success [OF ledger_laws ledger_codec, of xw_registered "Some 9" xw_base xw_ordered]
    xw_order_ok by (auto simp: xw_base_def OrderBase_convert_def)

text \<open>C39: A failed call changes no device entry, no order and no event.  A failed order moves
  either no funds at all or exactly the penalty of the ordered device, which then stays
  reserved with no order behind it.\<close>

theorem xc_order_failure_funds:
  assumes "currency_laws H" and "xc_dispatch H s origin (xc_call_order ob) = (Inl e, t)"
  shows "xDevice t = xDevice s \<and> xOrders t = xOrders s \<and> xEvents t = xEvents s
    \<and> (same_funds H (xWorld s) (xWorld t)
       \<or> (\<exists>dev. xDevice s (ob_device ob) = Some dev
            \<and> moved_to_reserved H (xWorld s) (ob_device ob) (unat (xp_penalty dev)) (xWorld t)))"
  using xc_order_failed [OF assms(1)] assms(2) by simp

text \<open>Device 7, with 100 free units, orders itself for a fee of 100: the penalty is reserved
  first, the fee can then not be, and the order fails with the penalty left reserved.\<close>

definition xw_self :: "(8 word, 8 word) OrderBase" where
  "xw_self = \<lparr>ob_until = 1100, ob_data = 3, ob_fee = 100, ob_device = 7\<rparr>"

theorem xc_order_failure_funds_witness:
  "\<exists>e t. xc_dispatch ledger_host xw_registered (Some 7) (xc_call_order xw_self) = (Inl e, t)
     \<and> xOrders t = Map.empty \<and> l_reserved (xWorld t) 7 = 10
     \<and> moved_to_reserved ledger_host (xWorld xw_registered) 7 10 (xWorld t)"
proof -
  obtain e t where t: "xc_dispatch ledger_host xw_registered (Some 7) (xc_call_order xw_self) = (Inl e, t)"
    and r: "l_reserved (xWorld t) 7 = 10"
    by (simp add: xw_registered_eq op_defs xw_self_def xw_device_def xw_ledger_def
        ledger_reserve_def Let_def)
  from xc_order_failure_funds [OF ledger_laws t] r
  have "xOrders t = Map.empty \<and> moved_to_reserved ledger_host (xWorld xw_registered) 7 10 (xWorld t)"
    by (auto simp: xw_registered_eq same_funds_def xw_ledger_def xw_self_def xw_device_def)
  with t r show ?thesis by blast
qed

text \<open>An accepted order leaves the device at least its worst-case duration before the
  deadline, whenever the current time plus that duration fits into 64 bits.\<close>

theorem xc_order_leaves_time:
  assumes "xc_order H s origin ob = (Inr (), t)" and "xDevice s (ob_device ob) = Some dev"
    and "unat (timestamp_get H (xWorld s)) + unat (xp_wcd dev) < 2 ^ 64"
  shows "unat (timestamp_get H (xWorld s)) + unat (xp_wcd dev) \<le> unat (ob_until ob)"
proof -
  have "timestamp_get H (xWorld s) + xp_wcd dev \<le> ob_until ob"
    using assms(2) by (auto simp: not_less intro: xc_order_okE [OF assms(1)])
  moreover have "unat (timestamp_get H (xWorld s) + xp_wcd dev)
      = unat (timestamp_get H (xWorld s)) + unat (xp_wcd dev)"
    using assms(3) by (simp add: unat_word_ariths)
  ultimately show ?thesis by (simp add: word_le_nat_alt)
qed

theorem xc_order_leaves_time_witness:
  "unat (timestamp_get ledger_host (xWorld xw_registered)) + unat (xp_wcd xw_device) \<le> unat (ob_until xw_base)"
  by (rule xc_order_leaves_time [of ledger_host xw_registered "Some 9" xw_base xw_ordered])
    (use xw_order_ok in \<open>simp_all add: xw_registered_eq xw_base_def xw_device_def xw_ledger_def\<close>)

text \<open>Where that sum does not fit, the addition wraps and the check can no longer refuse:
  no order on such a device fails with \<open>BadOrderDetails\<close>, however short its deadline.\<close>

theorem xc_duration_check_lost_on_overflow:
  assumes "xDevice s (ob_device ob) = Some dev"
    and "2 ^ 64 \<le> unat (timestamp_get H (xWorld s)) + unat (xp_wcd dev)"
  shows "fst (xc_order H s origin ob) \<noteq> Inl (Module XBadOrderDetails)"
proof
  assume bad: "fst (xc_order H s origin ob) = Inl (Module XBadOrderDetails)"
  let ?now = "timestamp_get H (xWorld s)"
  from bad assms(1) have guards: "?now < ob_until ob" "ob_until ob < ?now + xp_wcd dev"
    by (auto simp: xc_order_def Let_def not_le split: result_splits)
  with wraps_below [OF assms(2)] show False by (meson less_trans less_irrefl)
qed

text \<open>Device 7 with the largest possible duration.\<close>

definition xw_forever :: "(8 word, 8 word, ledger) xchange" where
  "xw_forever = xw_registered\<lparr>xDevice := [7 \<mapsto> xw_device\<lparr>xp_wcd := - 1\<rparr>]\<rparr>"

theorem xc_duration_check_lost_on_overflow_witness:
  "fst (xc_order ledger_host xw_forever (Some 9) (xw_base\<lparr>ob_until := 1001\<rparr>)) \<noteq> Inl (Module XBadOrderDetails)"
  by (rule xc_duration_check_lost_on_overflow [where dev = "xw_device\<lparr>xp_wcd := - 1\<rparr>"])
    (simp_all add: xw_forever_def xw_base_def xw_registered_eq xw_ledger_def
      unsigned_minus_1_eq_mask mask_eq_exp_minus_1)

section \<open>The life of a device\<close>



text \<open>In every reachable state an open order belongs to a registered device that is busy
  or abandoned, and no device of the client chain is ever in the state \<open>Accepted\<close>.\<close>

theorem xc_open_order_state:
  assumes "reachable xc_init (xc_step H) s"
  shows "(xOrders s d \<noteq> None \<longrightarrow> map_option xp_state (xDevice s d) \<in> {Some Busy, Some Timewait})
    \<and> map_option xp_state (xDevice s d) \<noteq> Some Accepted"
proof -
  have "fst (xc_view s d) \<noteq> Some Accepted"
    by (rule xc.life_invariant [OF assms]) (auto dest: xc_life_not_accepted)
  then show ?thesis
    using xc_open_order_device [OF assms, of d] by (auto simp: xc_view_def)
qed

theorem xc_open_order_state_witness:
  "xOrders xw_ordered 7 \<noteq> None \<and> map_option xp_state (xDevice xw_ordered 7) \<in> {Some Busy, Some Timewait}"
  using xc_open_order_state [OF xw_reach, of 7] by (simp add: xw_ordered_order)

text \<open>The terms of an open order are fixed: in a reachable state no step changes the stored
  order or the penalty, duration and parachain of its device, unless it closes the order.\<close>

theorem xc_open_terms_fixed:
  assumes "reachable xc_init (xc_step H) s" and "xc_step H s l t" and "xOrders s d \<noteq> None"
  shows "xOrders t d = None \<or> xc_terms t d = xc_terms s d"
proof -
  obtain oo dev where oo: "xOrders s d = Some oo" "xDevice s d = Some dev" "xp_state dev \<noteq> Off"
    using xc_open_order_device [OF assms(1), of d] assms(3) by auto
  from assms(2) have "xc_keeps_terms s t d"
    by (cases rule: xc_step.cases)
      (simp_all add: xc_keeps_dispatch xc_keeps_deliver xc_keeps_killed [OF oo(3,2)])
  with assms(3) show ?thesis by (simp add: xc_keeps_terms_def)
qed

theorem xc_open_terms_fixed_witness:
  "xOrders (xc_on_killed_account xw_ordered 7) 7 = None
     \<or> xc_terms (xc_on_killed_account xw_ordered 7) 7 = xc_terms xw_ordered 7"
  by (rule xc_open_terms_fixed [OF xw_reach, of "XKilled 7"]) (simp_all add: xw_ordered_order)

section \<open>Messages\<close>

text \<open>The first message that does not decode ends a batch: the handler returns weight 0,
  keeps what the earlier messages did, and never looks at the later ones.\<close>

theorem xc_bad_message_ends_batch:
  assumes "decode_message H bad = Inl e"
  shows "xc_handle_xcmp_messages H s (msgs @ (sender, sent_at, bad) # rest) max_weight
           = (0, snd (xc_handle_xcmp_messages H s msgs max_weight))"
  by (rule xc_handle_app_bad [OF assms])

theorem xc_bad_message_ends_batch_witness:
  "xc_handle_xcmp_messages ledger_host xw_ordered
     [(2001, 5, ledger_encode (OrderAccept 9 7)), (2001, 5, []), (2001, 5, ledger_encode (OrderDone 9 7 True))] 1000
   = (0, xc_deposit_event (XAccept 9 7) xw_ordered)"
  using xc_bad_message_ends_batch [of ledger_host "[]" "''Error''" xw_ordered
      "[(2001, 5, ledger_encode (OrderAccept 9 7))]" 2001 5 "[(2001, 5, ledger_encode (OrderDone 9 7 True))]" 1000]
  by (simp add: ledger_decode_def xc_handle_one_def xc_on_accept_def)

text \<open>The handler never looks at the sending parachain nor at the time of sending: a batch
  has the same effect with any senders, so the answers of the device's parachain and those of
  any other parachain count alike.\<close>

theorem xc_sender_not_checked:
  "xc_handle_xcmp_messages H s (map (\<lambda>(sender, sent_at, data). (f sender, g sent_at, data)) msgs) max_weight
     = xc_handle_xcmp_messages H s msgs max_weight"
proof (induction msgs arbitrary: s)
  case Nil
  then show ?case by simp
next
  case (Cons m msgs)
  then show ?case by (cases m) (simp split: option.split)
qed

text \<open>A completion is charged to the account the message names, not to the client of the
  order: naming another account in time closes the order, leaves its client's fee reserved,
  and pays the device from the named account's reserve, up to the fee.\<close>

theorem xc_done_charges_named_account:
  assumes laws: "currency_laws H"
    and oo: "xOrders s d = Some oo" "xDevice s d = Some dev"
    and "who \<noteq> d" "who \<noteq> o_client oo" "o_client oo \<noteq> d"
    and "timestamp_get H (xWorld s) < o_until oo"
    and "xc_on_done H s who d onoff = (Inr (), t)"
  shows "xOrders t d = None
    \<and> reserved_balance H (xWorld t) (o_client oo) = reserved_balance H (xWorld s) (o_client oo)
    \<and> free_balance H (xWorld t) (o_client oo) = free_balance H (xWorld s) (o_client oo)
    \<and> reserved_balance H (xWorld t) who
        = reserved_balance H (xWorld s) who - min (unat (o_fee oo)) (reserved_balance H (xWorld s) who)"
proof -
  obtain r1 w1 where w1: "repatriate_reserved H (xWorld s) who d (o_fee oo) Free = (Inr r1, w1)"
    using assms by (auto simp: op_defs Let_def split: sum.splits prod.splits)
  obtain r2 w2 where w2: "unreserve H w1 d (xp_penalty dev) = (r2, w2)" by fastforce
  have "xWorld t = w2" using assms by (auto simp: op_defs Let_def w1 w2)
  then show ?thesis
    using assms(4-6) repatriate_ok [OF laws w1] unreserve_moves [OF laws w2]
      xc_on_done_ok_simps(1) [OF assms(8) oo]
    by (simp add: moved_from_reserved_def)
qed

text \<open>A message that names account 11 instead of client 9.\<close>

theorem xc_done_charges_named_account_witness:
  "\<exists>t. xc_on_done ledger_host xw_ordered 11 7 True = (Inr (), t) \<and> xOrders t 7 = None
     \<and> reserved_balance ledger_host (xWorld t) 9 = 40"
proof -
  obtain t where t: "xc_on_done ledger_host xw_ordered 11 7 True = (Inr (), t)"
    by (simp add: op_defs xw_eval)
  have "xOrders xw_ordered 7 = Some (OrderBase_convert xw_base 9)"
    and "xDevice xw_ordered 7 = Some (xw_device\<lparr>xp_state := Busy\<rparr>)"
    by (simp_all add: xw_ordered_order xw_ordered_device)
  from xc_done_charges_named_account [OF ledger_laws this _ _ _ _ t] t show ?thesis
    by (simp add: xw_base_def xw_ordered_world)
qed

text \<open>A settlement by rejection or cancellation is not atomic: when the currency refuses to
  pay the penalty to the client, the call fails with the fee already released and the order
  still open.\<close>

theorem xc_refused_settlement_releases_fee:
  assumes "currency_laws H" and "xc_order_reject H s who oo now d dev = (Inl e, t)"
  shows "xOrders t = xOrders s \<and> xDevice t = xDevice s \<and> o_until oo \<le> now
    \<and> moved_from_reserved H (xWorld s) who who
        (min (unat (o_fee oo)) (reserved_balance H (xWorld s) who)) (xWorld t)"
proof -
  obtain r1 w1 where w1: "unreserve H (xWorld s) who (o_fee oo) = (r1, w1)" by fastforce
  obtain e' w2 where w2: "repatriate_reserved H w1 d (o_client oo) (xp_penalty dev) Free = (Inl e', w2)"
    and t: "\<not> now < o_until oo" "t = s\<lparr>xWorld := w2\<rparr>"
    using assms(2) by (auto simp: op_defs Let_def w1 split: result_splits)
  show ?thesis
    using unreserve_moves [OF assms(1) w1] repatriate_err [OF assms(1) w2] t
    by (simp add: moved_from_reserved_def same_funds_def not_less)
qed

text \<open>Client 11 has neither free nor reserved funds, so the payout to it is refused.\<close>

theorem xc_refused_settlement_releases_fee_witness:
  "\<exists>e t. xc_order_reject ledger_host xw_late 9 (OrderBase_convert xw_base 11) 1200 7 xw_device = (Inl e, t)
     \<and> xOrders t = xOrders xw_late \<and> moved_from_reserved ledger_host (xWorld xw_late) 9 9 40 (xWorld t)"
proof -
  obtain e t where t: "xc_order_reject ledger_host xw_late 9 (OrderBase_convert xw_base 11) 1200 7 xw_device = (Inl e, t)"
    by (simp add: op_defs xw_eval)
  from xc_refused_settlement_releases_fee [OF ledger_laws t] t show ?thesis
    by (simp add: xw_late_sel xw_base_def)
qed

end
