(* ===== verification/Service_Properties.thy ===== *)
theory Service_Properties
  imports Service_Escrow
begin

text \<open>
  The properties of the service-side pallet, each with a witness on the concrete host.
\<close>

section \<open>A small run on the concrete host\<close>

text \<open>On parachain 2000, whose policy makes a device busy and leaves the decision to it, device 7
  registers with a penalty of 10 and a completion time of 5; client 9 of the same chain orders
  it for a fee of 40 until time 1100; the device accepts; the deadline passes.\<close>

definition sw_config :: "(8 word, 8 word) sv_Config" where
  "sw_config = \<lparr>SelfParaId = 2000, OnReceived = (\<lambda>d oo. Some Busy)\<rparr>"

definition sw_ledger :: ledger where
  "sw_ledger = \<lparr>l_free = (\<lambda>_. 0)(7 := 100, 9 := 500), l_reserved = (\<lambda>_. 0), l_now = 1000,
                l_outbox = []\<rparr>"

definition sw_start :: "(8 word, 8 word, ledger) service" where
  "sw_start = \<lparr>sDevice = Map.empty, sOrders = Map.empty, sEvents = [], sWorld = sw_ledger\<rparr>"

definition sw_device :: "DeviceState \<Rightarrow> sv_DeviceProfile" where
  "sw_device st = \<lparr>sp_penalty = 10, sp_wcd = 5, sp_state = st\<rparr>"

definition sw_base :: "(8 word, 8 word) OrderBase" where
  "sw_base = \<lparr>ob_until = 1100, ob_data = 3, ob_fee = 40, ob_device = 7\<rparr>"

definition sw_order :: "para_id \<Rightarrow> (8 word, 8 word) Order" where
  "sw_order p = \<lparr>o_until = 1100, o_data = 3, o_fee = 40, o_client = 9, o_paraid = p\<rparr>"

definition sw_run :: "(8 word, 8 word, ledger) service \<Rightarrow> 8 word \<Rightarrow> (8 word, 8 word) sv_Call
    \<Rightarrow> (8 word, 8 word, ledger) service" where
  "sw_run s who c = snd (sv_dispatch ledger_host sw_config s (Some who) c)"

definition sw_registered :: "(8 word, 8 word, ledger) service" where
  "sw_registered = sw_run sw_start 7 (sv_call_register 10 5 True)"

definition sw_ordered :: "(8 word, 8 word, ledger) service" where
  "sw_ordered = sw_run sw_registered 9 (sv_call_order sw_base)"

definition sw_accepted :: "(8 word, 8 word, ledger) service" where
  "sw_accepted = sw_run sw_ordered 7 (sv_call_accept False True)"

definition sw_late :: "(8 word, 8 word, ledger) service" where
  "sw_late = sw_accepted\<lparr>sWorld := (sWorld sw_accepted)\<lparr>l_now := 1200\<rparr>\<rparr>"

lemmas sw_data = sw_config_def sw_device_def sw_base_def sw_order_def ledger_move_def
  ledger_reserve_def ledger_repatriate_def Let_def

lemma sw_registered_eq:
  "sw_registered = \<lparr>sDevice = [7 \<mapsto> sw_device Ready], sOrders = Map.empty, sEvents = [SNewDevice 7],
                    sWorld = sw_ledger\<rparr>"
  by (simp add: sw_registered_def sw_run_def sv_register_def sv_deposit_event_def sw_start_def sw_device_def)

lemma sw_order_ok:
  "sv_dispatch ledger_host sw_config sw_registered (Some 9) (sv_call_order sw_base) = (Inr (), sw_ordered)"
  by (simp add: sw_ordered_def sw_run_def sw_registered_eq op_defs sw_data sw_ledger_def)

lemma sw_ordered_eq:
  "sw_ordered = \<lparr>sDevice = [7 \<mapsto> sw_device Busy], sOrders = [7 \<mapsto> sw_order 2000],
     sEvents = [SNewDevice 7, SNewOrder 7],
     sWorld = \<lparr>l_free = (\<lambda>_. 0)(7 := 90, 9 := 460), l_reserved = (\<lambda>_. 0)(7 := 10, 9 := 40),
       l_now = 1000, l_outbox = []\<rparr>\<rparr>"
  by (simp add: sw_ordered_def sw_run_def sw_registered_eq op_defs sw_data sw_ledger_def fun_eq_iff)

lemma sw_accepted_eq:
  "sw_accepted = \<lparr>sDevice = [7 \<mapsto> sw_device Accepted], sOrders = [7 \<mapsto> sw_order 2000],
     sEvents = [SNewDevice 7, SNewOrder 7, SAccept 7],
     sWorld = \<lparr>l_free = (\<lambda>_. 0)(7 := 90, 9 := 460), l_reserved = (\<lambda>_. 0)(7 := 10, 9 := 40),
       l_now = 1000, l_outbox = []\<rparr>\<rparr>"
  by (simp add: sw_accepted_def sw_run_def sw_ordered_eq op_defs sw_data)

lemma sw_late_eq:
  "sw_late = \<lparr>sDevice = [7 \<mapsto> sw_device Accepted], sOrders = [7 \<mapsto> sw_order 2000],
     sEvents = [SNewDevice 7, SNewOrder 7, SAccept 7],
     sWorld = \<lparr>l_free = (\<lambda>_. 0)(7 := 90, 9 := 460), l_reserved = (\<lambda>_. 0)(7 := 10, 9 := 40),
       l_now = 1200, l_outbox = []\<rparr>\<rparr>"
  by (simp add: sw_late_def sw_accepted_eq)

lemmas sw_states = sw_registered_eq sw_ordered_eq sw_accepted_eq sw_late_eq sw_ledger_def

lemma sw_policy: "order_policy (OnReceived sw_config)"
  by unfold_locales (simp add: sw_config_def)

lemma sw_start_reach: "reachable sv_init (sv_sound_step ledger_host sw_config) sw_start"
  by (rule reachable_init) (simp add: sv_init_def sw_start_def)

lemma sw_registered_reach: "reachable sv_init (sv_sound_step ledger_host sw_config) sw_registered"
  by (rule reachable_step [OF sw_start_reach], unfold sw_registered_def sw_run_def, rule ssound_call) simp

lemma sw_ordered_reach: "reachable sv_init (sv_sound_step ledger_host sw_config) sw_ordered"
  by (rule reachable_step [OF sw_registered_reach], unfold sw_ordered_def sw_run_def, rule ssound_call) simp

lemma sw_accepted_reach: "reachable sv_init (sv_sound_step ledger_host sw_config) sw_accepted"
  by (rule reachable_step [OF sw_ordered_reach], unfold sw_accepted_def sw_run_def, rule ssound_call) simp

lemma sw_late_reach: "reachable sv_init (sv_sound_step ledger_host sw_config) sw_late"
  by (rule reachable_step [OF sw_accepted_reach], unfold sw_late_def, rule ssound_environment) simp

lemma sv_backed_reachable:
  assumes "currency_laws H" "order_policy (OnReceived C)" "reachable sv_init (sv_sound_step H C) s"
  shows "sv_backed H C s"
  using sv_escrow.inv_reachable [OF assms(3)] assms(1,2) by blast

text \<open>All that happened to the rest of the chain is that one message, which decodes to \<open>m\<close>, was
  handed to the sender for a parachain.\<close>

definition sent_message ::
  "('o, 'a, 'd, 'w) host \<Rightarrow> 'w \<Rightarrow> 'w \<Rightarrow> para_id \<Rightarrow> ('a, 'd) XCMPMessage \<Rightarrow> bool" where
  "sent_message H w w' p m \<longleftrightarrow> (\<exists>bs. w' = snd (send_xcm H w (Parent, Parachain p) [Transact Native 0 bs])
     \<and> decode_message H bs = Inr m)"

lemma sv_send_sent:
  "codec_laws H \<Longrightarrow> sent_message H (sWorld s) (sWorld (sv_send H p m s)) p m"
  unfolding sent_message_def by (intro exI [of _ "encode_message H m"]) (simp add: decode_encode)

lemma sv_send_sent_orders:
  "codec_laws H \<Longrightarrow> sent_message H (sWorld s)
     (sWorld (sv_send H p m (s\<lparr>sOrders := os, sDevice := ds\<rparr>))) p m"
  using sv_send_sent [of H "s\<lparr>sOrders := os, sDevice := ds\<rparr>" p m] by simp

section \<open>Escrow\<close>



text \<open>C10: \<open>done\<close> succeeds only for a device that has accepted an open order.  It closes the order,
  puts the device into the announced state and logs one event.  A local order is paid exactly:
  the fee goes to the device and the penalty back to it before the deadline, to the client from
  the deadline on.  A remote order moves no funds here; its chain is sent \<open>OrderDone\<close> with the
  order's client.\<close>

theorem sv_done_settles:
  assumes laws: "currency_laws H" and codec: "codec_laws H" and "order_policy (OnReceived C)"
    and "reachable sv_init (sv_sound_step H C) s"
    and r: "sv_done H C s origin onoff = (Inr (), t)"
  shows "\<exists>d dev oo. ensure_signed H origin = Inr d \<and> sDevice s d = Some dev \<and> sp_state dev = Accepted
     \<and> sOrders s d = Some oo \<and> sOrders t = (sOrders s)(d := None)
     \<and> sDevice t = (sDevice s)(d \<mapsto> dev\<lparr>sp_state := (if onoff then Ready else Off)\<rparr>)
     \<and> sEvents t = sEvents s @ [SDone d]
     \<and> (if o_paraid oo = SelfParaId C
        then released H (sWorld s) (sWorld t) (o_client oo) d (unat (o_fee oo))
               d (if timestamp_get H (sWorld s) < o_until oo then d else o_client oo) (unat (sp_penalty dev))
        else same_funds H (sWorld s) (sWorld t)
          \<and> sent_message H (sWorld s) (sWorld t) (o_paraid oo) (OrderDone (o_client oo) d onoff))"
proof -
  have b: "sv_backed H C s" by (rule sv_backed_reachable [OF laws assms(3,4)])
  obtain d dev oo where o: "ensure_signed H origin = Inr d" "sDevice s d = Some dev"
    "sp_state dev = Accepted" "sOrders s d = Some oo"
    and closed: "sv_order_done H C (s\<lparr>sOrders := (sOrders s)(d := None)\<rparr>) oo
      (timestamp_get H (sWorld s)) d dev onoff = (Inr (), t)"
    using r by (auto simp: sv_done_def Let_def split: result_splits)
  have pay: "if o_paraid oo = SelfParaId C
        then released H (sWorld s) (sWorld t) (o_client oo) d (unat (o_fee oo))
               d (if timestamp_get H (sWorld s) < o_until oo then d else o_client oo) (unat (sp_penalty dev))
        else same_funds H (sWorld s) (sWorld t)
          \<and> sent_message H (sWorld s) (sWorld t) (o_paraid oo) (OrderDone (o_client oo) d onoff)"
  proof (cases "o_paraid oo = SelfParaId C")
    case True
    with sv_order_done_releases [OF laws b o(4) True o(2) closed] show ?thesis by simp
  next
    case False
    with closed sv_send_same [OF laws, of "s\<lparr>sOrders := (sOrders s)(d := None),
        sDevice := (sDevice s)(d \<mapsto> dev\<lparr>sp_state := (if onoff then Ready else Off)\<rparr>)\<rparr>"]
      sv_send_sent_orders [OF codec] show ?thesis
      by (auto simp: sv_order_done_def Let_def simp del: sv_send_simps(4))
  qed
  with o sv_order_done_simps [OF closed] show ?thesis
    by (intro exI [of _ d] exI [of _ dev] exI [of _ oo]) simp
qed

theorem sv_done_settles_witness:
  "\<exists>t. sv_done ledger_host sw_config sw_late (Some 7) True = (Inr (), t)
     \<and> released ledger_host (sWorld sw_late) (sWorld t) 9 7 40 7 9 10 \<and> sOrders t = Map.empty"
proof -
  obtain t where t: "sv_done ledger_host sw_config sw_late (Some 7) True = (Inr (), t)"
    by (simp add: sw_late_eq op_defs sw_data)
  from t sv_done_settles [OF ledger_laws ledger_codec sw_policy sw_late_reach t] show ?thesis
    by (auto simp: sw_late_eq sw_data)
qed

text \<open>C37: \<open>done\<close> is not atomic: when the currency refuses one of its payments the call returns an
  error, but the order is gone, the device is free again, and no event is logged.  Whatever was
  still reserved for the order then has no order that could release it.\<close>

theorem sv_refused_done_closes_order:
  assumes "sv_dispatch H C s origin (sv_call_done onoff) = (Inl (HostError e), t)"
    and "ensure_signed H origin = Inr d"
  shows "\<exists>dev. sDevice s d = Some dev \<and> sOrders s d \<noteq> None \<and> sOrders t d = None
     \<and> sDevice t d = Some (dev\<lparr>sp_state := (if onoff then Ready else Off)\<rparr>)
     \<and> sEvents t = sEvents s"
proof -
  obtain dev oo where o: "sDevice s d = Some dev" "sOrders s d = Some oo"
    and r: "sv_order_done H C (s\<lparr>sOrders := (sOrders s)(d := None)\<rparr>) oo
      (timestamp_get H (sWorld s)) d dev onoff = (Inl (HostError e), t)"
    using assms by (auto simp: sv_done_def Let_def split: result_splits)
  with sv_order_done_simps [OF r] show ?thesis by auto
qed

text \<open>Client 11 has neither free nor reserved funds, so the late penalty cannot be paid to it.\<close>

definition sw_dead :: "(8 word, 8 word, ledger) service" where
  "sw_dead = sw_late\<lparr>sOrders := [7 \<mapsto> (sw_order 2000)\<lparr>o_client := 11\<rparr>]\<rparr>"

theorem sv_refused_done_closes_order_witness:
  "\<exists>e t. sv_dispatch ledger_host sw_config sw_dead (Some 7) (sv_call_done True) = (Inl (HostError e), t)
     \<and> sOrders t 7 = None \<and> l_reserved (sWorld t) 7 = 10"
proof -
  obtain e t where t: "sv_dispatch ledger_host sw_config sw_dead (Some 7) (sv_call_done True) = (Inl (HostError e), t)"
    and "l_reserved (sWorld t) 7 = 10"
    by (simp add: sw_dead_def sw_late_eq op_defs sw_data)
  with sv_refused_done_closes_order [OF t] show ?thesis by auto
qed

text \<open>C13: A successful rejection by the device is made while it is busy or has accepted.  It frees
  the device, closes the order if there is one and logs one event.  A local order is refunded
  exactly: the fee to the client, the penalty to the device before the deadline and to the
  client from the deadline on.  For a remote order or none no funds move, and the chain of a
  remote order is sent \<open>OrderReject\<close>.\<close>

theorem sv_reject_settles:
  assumes laws: "currency_laws H" and codec: "codec_laws H" and "order_policy (OnReceived C)"
    and "reachable sv_init (sv_sound_step H C) s"
    and r: "sv_accept H C s origin True onoff = (Inr (), t)"
  shows "\<exists>d dev. ensure_signed H origin = Inr d \<and> sDevice s d = Some dev
     \<and> (sp_state dev = Busy \<or> sp_state dev = Accepted)
     \<and> sOrders t = (sOrders s)(d := None)
     \<and> sDevice t = (sDevice s)(d \<mapsto> dev\<lparr>sp_state := (if onoff then Ready else Off)\<rparr>)
     \<and> sEvents t = sEvents s @ [SReject d]
     \<and> (case sOrders s d of
          None \<Rightarrow> same_funds H (sWorld s) (sWorld t)
        | Some oo \<Rightarrow>
            if o_paraid oo = SelfParaId C
            then released H (sWorld s) (sWorld t) (o_client oo) (o_client oo) (unat (o_fee oo))
                   d (if timestamp_get H (sWorld s) < o_until oo then d else o_client oo) (unat (sp_penalty dev))
            else same_funds H (sWorld s) (sWorld t)
              \<and> sent_message H (sWorld s) (sWorld t) (o_paraid oo) (OrderReject (o_client oo) d onoff))"
proof -
  have b: "sv_backed H C s" by (rule sv_backed_reachable [OF laws assms(3,4)])
  obtain d dev where o: "ensure_signed H origin = Inr d" "sDevice s d = Some dev"
    "sp_state dev = Busy \<or> sp_state dev = Accepted"
    and closed: "sv_order_reject H C s (sOrders s d) (timestamp_get H (sWorld s)) d
      (dev\<lparr>sp_state := (if onoff then Ready else Off)\<rparr>) onoff = (Inr (), t)"
    using r by (auto simp: sv_accept_def Let_def split: result_splits)
  have pay: "case sOrders s d of
          None \<Rightarrow> same_funds H (sWorld s) (sWorld t)
        | Some oo \<Rightarrow>
            if o_paraid oo = SelfParaId C
            then released H (sWorld s) (sWorld t) (o_client oo) (o_client oo) (unat (o_fee oo))
                   d (if timestamp_get H (sWorld s) < o_until oo then d else o_client oo) (unat (sp_penalty dev))
            else same_funds H (sWorld s) (sWorld t)
              \<and> sent_message H (sWorld s) (sWorld t) (o_paraid oo) (OrderReject (o_client oo) d onoff)"
  proof (cases "sOrders s d")
    case None
    with closed show ?thesis by (auto simp: sv_order_reject_def same_funds_def)
  next
    case (Some oo)
    show ?thesis
    proof (cases "o_paraid oo = SelfParaId C")
      case True
      from sv_order_reject_releases [OF laws b Some True o(2) _ closed [unfolded Some]] True Some
      show ?thesis by simp
    next
      case False
      with Some closed sv_send_same [OF laws] sv_send_sent [OF codec] show ?thesis
        by (auto simp: sv_order_reject_remote simp del: sv_send_simps(4))
    qed
  qed
  with o sv_order_reject_ok_simps [OF closed] show ?thesis
    by (intro exI [of _ d] exI [of _ dev]) simp
qed

theorem sv_reject_settles_witness:
  "\<exists>t. sv_accept ledger_host sw_config sw_ordered (Some 7) True False = (Inr (), t)
     \<and> released ledger_host (sWorld sw_ordered) (sWorld t) 9 9 40 7 7 10
     \<and> sDevice t = [7 \<mapsto> sw_device Off]"
proof -
  obtain t where t: "sv_accept ledger_host sw_config sw_ordered (Some 7) True False = (Inr (), t)"
    by (simp add: sw_ordered_eq op_defs sw_data)
  from t sv_reject_settles [OF ledger_laws ledger_codec sw_policy sw_ordered_reach t] show ?thesis
    by (auto simp: sw_ordered_eq sw_data)
qed

text \<open>Only the order's client can cancel, and only from the deadline on.  Cancelling leaves the
  device busy or accepted with no order: every later order on it is refused, until the device
  itself rejects, which then succeeds, moves no funds and frees it.\<close>

theorem sv_cancel_strands_device:
  assumes laws: "currency_laws H" and "order_policy (OnReceived C)"
    and reach: "reachable sv_init (sv_sound_step H C) s"
    and r: "sv_cancel H C s origin d = (Inr (), t)"
  shows "(\<exists>oo. sOrders s d = Some oo \<and> ensure_signed H origin = Inr (o_client oo)
       \<and> o_until oo \<le> timestamp_get H (sWorld s))
     \<and> sOrders t = (sOrders s)(d := None) \<and> sDevice t = sDevice s
     \<and> (\<forall>oo'. fst (sv_order_received H C t oo' d) \<noteq> Inr ())
     \<and> (\<forall>og onoff. ensure_signed H og = Inr d \<longrightarrow>
          (\<exists>u. sv_accept H C t og True onoff = (Inr (), u) \<and> sWorld u = sWorld t
             \<and> map_option sp_state (sDevice u d) = Some (if onoff then Ready else Off)))"
proof -
  obtain oo dev where o: "sOrders s d = Some oo" "sDevice s d = Some dev"
    "ensure_signed H origin = Inr (o_client oo)" "\<not> timestamp_get H (sWorld s) < o_until oo"
    and closed: "sv_order_reject H C s (Some oo) (timestamp_get H (sWorld s)) d dev False = (Inr (), t)"
    using r by (auto simp: sv_cancel_def Let_def split: result_splits)
  have "sv_backed H C s" by (rule sv_backed_reachable [OF laws assms(2) reach])
  with o have st: "sp_state dev = Busy \<or> sp_state dev = Accepted"
    using sv_backed_engaged [of H C s d] by (auto simp: sv_engaged_def)
  note t = sv_order_reject_ok_simps [OF closed]
  have dev_same: "sDevice t = sDevice s" using t(2) o(2) by (simp add: map_upd_triv)
  have "fst (sv_order_received H C t oo' d) \<noteq> Inr ()" for oo'
    using st o(2) dev_same by (auto simp: sv_order_received_def Let_def split: result_splits)
  moreover have "\<exists>u. sv_accept H C t og True onoff = (Inr (), u) \<and> sWorld u = sWorld t
      \<and> map_option sp_state (sDevice u d) = Some (if onoff then Ready else Off)"
    if "ensure_signed H og = Inr d" for og onoff
    using that st o(2) dev_same t(1) by (auto simp: sv_accept_def sv_order_reject_def)
  ultimately show ?thesis using o t(1) dev_same by (auto simp: not_less)
qed

theorem sv_cancel_strands_device_witness:
  "\<exists>t u. sv_cancel ledger_host sw_config sw_late (Some 9) 7 = (Inr (), t)
     \<and> fst (sv_order_received ledger_host sw_config t (sw_order 2000) 7) \<noteq> Inr ()
     \<and> sv_accept ledger_host sw_config t (Some 7) True True = (Inr (), u)"
proof -
  obtain t where t: "sv_cancel ledger_host sw_config sw_late (Some 9) 7 = (Inr (), t)"
    by (simp add: sw_late_eq op_defs sw_data)
  note c = sv_cancel_strands_device [OF ledger_laws sw_policy sw_late_reach t]
  have "ensure_signed ledger_host (Some 7) = Inr 7" by simp
  with c obtain u where "sv_accept ledger_host sw_config t (Some 7) True True = (Inr (), u)" by blast
  with t c show ?thesis by blast
qed

section \<open>Receiving and accepting orders\<close>

text \<open>C15: An order that is received came before its deadline, for a registered, ready device with
  no open order whose policy takes it.  It is stored as given, the device enters the state the
  policy chose, and the events are logged in order.  A local order moves exactly the penalty of
  the device and the fee of the client from free to reserved; a remote one moves nothing, and
  its chain is told when the policy accepted at once.\<close>

theorem sv_order_received_success:
  assumes laws: "currency_laws H" and codec: "codec_laws H"
    and r: "sv_order_received H C s oo d = (Inr (), t)"
  shows "\<exists>dev st. sDevice s d = Some dev \<and> sp_state dev = Ready \<and> sOrders s d = None
     \<and> timestamp_get H (sWorld s) < o_until oo \<and> OnReceived C d oo = Some st
     \<and> sOrders t = (sOrders s)(d \<mapsto> oo) \<and> sDevice t = (sDevice s)(d \<mapsto> dev\<lparr>sp_state := st\<rparr>)
     \<and> sEvents t = sEvents s @ SNewOrder d # (if st = Accepted then [SAccept d] else [])
     \<and> (\<forall>a. reserved_balance H (sWorld t) a = reserved_balance H (sWorld s) a
           + (if o_paraid oo = SelfParaId C
              then (if a = d then unat (sp_penalty dev) else 0)
                 + (if a = o_client oo then unat (o_fee oo) else 0)
              else 0)
         \<and> holdings H (sWorld t) a = holdings H (sWorld s) a)
     \<and> (o_paraid oo \<noteq> SelfParaId C \<longrightarrow>
          (if st = Accepted
           then sent_message H (sWorld s) (sWorld t) (o_paraid oo) (OrderAccept (o_client oo) d)
           else sWorld t = sWorld s))"
proof -
  obtain dev st w2 where o: "timestamp_get H (sWorld s) < o_until oo" "sOrders s d = None"
    "sDevice s d = Some dev" "sp_state dev = Ready" "OnReceived C d oo = Some st"
    and w2: "o_paraid oo \<noteq> SelfParaId C \<Longrightarrow> w2 = sWorld s"
    and t: "t = sv_store_order H C (s\<lparr>sWorld := w2\<rparr>) oo d (dev\<lparr>sp_state := st\<rparr>)"
    by (rule sv_order_received_okE [OF r]) (simp split: if_splits)
  have "if st = Accepted
      then sent_message H (sWorld s) (sWorld t) (o_paraid oo) (OrderAccept (o_client oo) d)
      else sWorld t = sWorld s" if "o_paraid oo \<noteq> SelfParaId C"
    using that w2 t sv_send_sent [OF codec, of s "o_paraid oo" "OrderAccept (o_client oo) d"] by simp
  moreover have "sOrders t = (sOrders s)(d \<mapsto> oo)" "sDevice t = (sDevice s)(d \<mapsto> dev\<lparr>sp_state := st\<rparr>)"
    "sEvents t = sEvents s @ SNewOrder d # (if st = Accepted then [SAccept d] else [])"
    by (simp_all add: t)
  ultimately show ?thesis
    using o sv_order_received_moves [OF laws r o(3)] by blast
qed

theorem sv_order_received_success_witness:
  "\<exists>t. sv_order_received ledger_host sw_config sw_registered (sw_order 2001) 7 = (Inr (), t)
     \<and> sOrders t = [7 \<mapsto> sw_order 2001] \<and> sDevice t = [7 \<mapsto> sw_device Busy] \<and> sWorld t = sw_ledger"
proof -
  obtain t where t: "sv_order_received ledger_host sw_config sw_registered (sw_order 2001) 7 = (Inr (), t)"
    by (simp add: sw_registered_eq sv_order_received_def sw_data sw_ledger_def)
  from t sv_order_received_success [OF ledger_laws ledger_codec t] show ?thesis
    by (simp add: sw_registered_eq sw_data)
qed

text \<open>An order that is refused on arrival changes no device entry, no order and no event.  It
  moves either no funds at all or, for a local order, exactly the penalty of the ordered
  device, which then stays reserved with no order behind it.\<close>

theorem sv_order_received_failure:
  assumes "currency_laws H" and "sv_order_received H C s oo d = (Inl e, t)"
  shows "sDevice t = sDevice s \<and> sOrders t = sOrders s \<and> sEvents t = sEvents s
    \<and> (same_funds H (sWorld s) (sWorld t)
       \<or> o_paraid oo = SelfParaId C \<and> (\<exists>dev. sDevice s d = Some dev
            \<and> moved_to_reserved H (sWorld s) d (unat (sp_penalty dev)) (sWorld t)))"
  by (rule sv_order_received_failed [OF assms])

theorem sv_order_received_failure_witness:
  "\<exists>e t. sv_order_received ledger_host sw_config sw_registered
       ((sw_order 2000)\<lparr>o_client := 7, o_fee := 95\<rparr>) 7 = (Inl e, t)
     \<and> sOrders t = Map.empty \<and> l_reserved (sWorld t) 7 = 10"
proof -
  obtain e t where t: "sv_order_received ledger_host sw_config sw_registered
      ((sw_order 2000)\<lparr>o_client := 7, o_fee := 95\<rparr>) 7 = (Inl e, t)"
    and res: "l_reserved (sWorld t) 7 = 10"
    by (simp add: sw_registered_eq sv_order_received_def sw_data sw_ledger_def)
  from t res sv_order_received_failure [OF ledger_laws t] show ?thesis
    by (simp add: sw_registered_eq)
qed

text \<open>Where the current time plus the completion time of the device does not fit into 64 bits,
  the addition wraps and the check can no longer refuse: no order for the device fails with
  \<open>BadOrderDetails\<close>, however short its deadline.\<close>

theorem sv_duration_check_lost_on_overflow:
  assumes "sDevice s d = Some dev"
    and "2 ^ 64 \<le> unat (timestamp_get H (sWorld s)) + unat (sp_wcd dev)"
  shows "fst (sv_order_received H C s oo d) \<noteq> Inl (Module SBadOrderDetails)"
proof
  assume bad: "fst (sv_order_received H C s oo d) = Inl (Module SBadOrderDetails)"
  let ?now = "timestamp_get H (sWorld s)"
  from bad assms(1) have guards: "?now < o_until oo" "o_until oo < ?now + sp_wcd dev"
    by (auto simp: sv_order_received_def Let_def not_le split: result_splits)
  with wraps_below [OF assms(2)] show False by (meson less_trans less_irrefl)
qed

theorem sv_duration_check_lost_on_overflow_witness:
  "fst (sv_order_received ledger_host sw_config
      (sw_registered\<lparr>sDevice := [7 \<mapsto> (sw_device Ready)\<lparr>sp_wcd := - 1\<rparr>]\<rparr>)
      ((sw_order 2000)\<lparr>o_until := 1001\<rparr>) 7) \<noteq> Inl (Module SBadOrderDetails)"
  by (rule sv_duration_check_lost_on_overflow [where dev = "(sw_device Ready)\<lparr>sp_wcd := - 1\<rparr>"])
    (simp_all add: sw_registered_eq sw_ledger_def unsigned_minus_1_eq_mask mask_eq_exp_minus_1)

text \<open>A successful acceptance is made by the device itself, while it is busy with an open order
  whose deadline has not come.  It changes only the state of that device, logs one event, moves
  no funds, and tells the chain of a remote order.\<close>

theorem sv_accept_success:
  assumes laws: "currency_laws H" and codec: "codec_laws H"
    and r: "sv_accept H C s origin False onoff = (Inr (), t)"
  shows "\<exists>d dev oo. ensure_signed H origin = Inr d \<and> sDevice s d = Some dev \<and> sp_state dev = Busy
     \<and> sOrders s d = Some oo \<and> timestamp_get H (sWorld s) < o_until oo
     \<and> sOrders t = sOrders s \<and> sDevice t = (sDevice s)(d \<mapsto> dev\<lparr>sp_state := Accepted\<rparr>)
     \<and> sEvents t = sEvents s @ [SAccept d] \<and> same_funds H (sWorld s) (sWorld t)
     \<and> (if o_paraid oo = SelfParaId C then sWorld t = sWorld s
        else sent_message H (sWorld s) (sWorld t) (o_paraid oo) (OrderAccept (o_client oo) d))"
proof -
  obtain d dev oo where o: "ensure_signed H origin = Inr d" "sDevice s d = Some dev"
    "sp_state dev = Busy" "sOrders s d = Some oo" "\<not> o_until oo \<le> timestamp_get H (sWorld s)"
    and t: "t = sv_order_accept H C s oo d dev"
    using r by (auto simp: sv_accept_def Let_def split: result_splits)
  have "same_funds H (sWorld s) (sWorld t)"
    using sv_send_same [OF laws, of s] by (simp add: t same_funds_def del: sv_send_simps(4))
  moreover have "if o_paraid oo = SelfParaId C then sWorld t = sWorld s
      else sent_message H (sWorld s) (sWorld t) (o_paraid oo) (OrderAccept (o_client oo) d)"
    using sv_send_sent [OF codec, of s] by (simp add: t del: sv_send_simps(4))
  ultimately show ?thesis
    using o by (intro exI [of _ d] exI [of _ dev] exI [of _ oo]) (simp add: t not_le)
qed

theorem sv_accept_success_witness:
  "\<exists>t. sv_accept ledger_host sw_config sw_ordered (Some 7) False True = (Inr (), t)
     \<and> sDevice t = [7 \<mapsto> sw_device Accepted] \<and> sOrders t = sOrders sw_ordered"
proof -
  obtain t where t: "sv_accept ledger_host sw_config sw_ordered (Some 7) False True = (Inr (), t)"
    by (simp add: sw_ordered_eq sv_accept_def sw_data)
  from t sv_accept_success [OF ledger_laws ledger_codec t] show ?thesis
    by (auto simp: sw_ordered_eq sw_data)
qed

section \<open>The life of a device\<close>



text \<open>In every reachable state an open order belongs to a registered device that is busy or has
  accepted, and no device of the service chain is ever in the state \<open>Timewait\<close>.\<close>

theorem sv_open_order_state:
  assumes "order_policy (OnReceived C)" and "reachable sv_init (sv_step H C) s"
  shows "(sOrders s d \<noteq> None \<longrightarrow> map_option sp_state (sDevice s d) \<in> {Some Busy, Some Accepted})
    \<and> map_option sp_state (sDevice s d) \<noteq> Some Timewait"
  using sv_market.open_order_view [OF sv_market.intro [OF assms(1)] assms(2), of d]
  by (simp add: sv_view_def)

theorem sv_open_order_state_witness:
  "sOrders sw_late 7 \<noteq> None \<and> map_option sp_state (sDevice sw_late 7) \<in> {Some Busy, Some Accepted}"
  using sv_open_order_state [OF sw_policy sv_sound_reachable [OF sw_late_reach], of 7]
  by (simp add: sw_late_eq)

text \<open>The terms of an open order are fixed: in a reachable state no step changes the stored
  order or the penalty and completion time of its device, unless it closes the order.\<close>

theorem sv_open_terms_fixed:
  assumes "order_policy (OnReceived C)" and "reachable sv_init (sv_step H C) s"
    and "sv_step H C s l t" and "sOrders s d \<noteq> None"
  shows "sOrders t d = None \<or> sv_terms t d = sv_terms s d"
proof -
  obtain oo dev where oo: "sOrders s d = Some oo" "sDevice s d = Some dev" "sp_state dev \<noteq> Off"
    using sv_market.open_order_device [OF sv_market.intro [OF assms(1)] assms(2), of d] assms(4) by auto
  from assms(3) have "sv_keeps_terms s t d"
    by (cases rule: sv_step.cases)
      (simp_all add: sv_keeps_dispatch sv_keeps_deliver sv_keeps_killed [OF oo(3,2)])
  with assms(4) show ?thesis by (simp add: sv_keeps_terms_def)
qed

theorem sv_open_terms_fixed_witness:
  "sOrders (sv_on_killed_account sw_late 7) 7 = None
     \<or> sv_terms (sv_on_killed_account sw_late 7) 7 = sv_terms sw_late 7"
  by (rule sv_open_terms_fixed [OF sw_policy sv_sound_reachable [OF sw_late_reach], of "SKilled 7"])
    (simp_all add: sw_late_eq)

text \<open>C34: Only the parties end an order: if a call closes an open order, its signer is the device
  itself or, from the deadline on, the order's client.  Messages, account hooks and the rest
  of the chain never close one.\<close>

theorem sv_only_parties_close:
  assumes "sv_step H C s l t" and "sOrders s d = Some oo" and "sOrders t d = None"
  shows "\<exists>origin c who. l = SCall origin c \<and> ensure_signed H origin = Inr who
     \<and> (who = d \<or> who = o_client oo \<and> o_until oo \<le> timestamp_get H (sWorld s))"
  using assms(1)
proof (cases rule: sv_step.cases)
  case (sstep_call origin c)
  with assms(2,3) show ?thesis by (metis sv_call_closes)
next
  case (sstep_deliver msgs w)
  with assms(2,3) sv_deliver_keeps_orders [OF assms(2), of H C msgs w] show ?thesis by simp
qed (use assms(2,3) in \<open>simp_all add: sv_on_killed_account_def split: option.splits if_splits\<close>)

theorem sv_only_parties_close_witness:
  "\<exists>t. sv_step ledger_host sw_config sw_late (SCall (Some 7) (sv_call_done True)) t \<and> sOrders t 7 = None
     \<and> (\<exists>who. ensure_signed ledger_host (Some 7) = Inr who \<and> (who = 7 \<or> who = 9))"
proof -
  let ?t = "snd (sv_dispatch ledger_host sw_config sw_late (Some 7) (sv_call_done True))"
  have step: "sv_step ledger_host sw_config sw_late (SCall (Some 7) (sv_call_done True)) ?t" by simp
  have "sOrders sw_late 7 = Some (sw_order 2000)" "sOrders ?t 7 = None"
    by (simp_all add: sw_late_eq op_defs sw_data)
  with step sv_only_parties_close [OF step this] show ?thesis by (auto simp: sw_data)
qed

text \<open>\<open>set_state\<close> succeeds exactly for a registered device that is off, or ready and to be
  switched off, and then changes nothing but its state; a ready device cannot be switched on
  again, and a device with an open order cannot be switched at all.\<close>

theorem sv_set_state_table:
  "(\<exists>t. sv_set_state H s origin onoff = (Inr (), t)) \<longleftrightarrow>
     (\<exists>d dev. ensure_signed H origin = Inr d \<and> sDevice s d = Some dev
        \<and> (sp_state dev = Off \<or> sp_state dev = Ready \<and> \<not> onoff)
        \<and> sv_set_state H s origin onoff = (Inr (), s\<lparr>sDevice := (sDevice s)(d \<mapsto>
            dev\<lparr>sp_state := (if onoff then Ready else Off)\<rparr>)\<rparr>))"
proof (cases "\<exists>d dev. ensure_signed H origin = Inr d \<and> sDevice s d = Some dev")
  case False
  then show ?thesis by (auto simp: sv_set_state_def split: result_splits)
next
  case True
  then obtain d dev where "ensure_signed H origin = Inr d" "sDevice s d = Some dev" by blast
  then show ?thesis by (cases onoff; cases "sp_state dev") (simp_all add: sv_set_state_def)
qed

section \<open>Messages\<close>

text \<open>A batch of messages from other parachains moves no funds, whatever it contains: remote
  orders hold their money on their own chain.\<close>

theorem sv_remote_batch_moves_no_funds:
  assumes "currency_laws H" and "\<forall>(sender, sent_at, data)\<in>set msgs. sender \<noteq> SelfParaId C"
  shows "same_funds H (sWorld s) (sWorld (snd (sv_handle_xcmp_messages H C s msgs w)))"
  by (rule sv_deliver_same_funds [OF assms])

theorem sv_remote_batch_moves_no_funds_witness:
  "l_reserved (sWorld (snd (sv_handle_xcmp_messages ledger_host sw_config sw_registered
      [(2001, 5, ledger_encode (NewOrder 9 sw_base))] 1000))) 9 = 0"
  using sv_remote_batch_moves_no_funds [OF ledger_laws, of "[(2001, 5, ledger_encode (NewOrder 9 sw_base))]"
      sw_config sw_registered 1000]
  by (simp add: sw_config_def same_funds_def sw_registered_eq sw_ledger_def del: sv_handle_xcmp_messages.simps)

text \<open>The first message that is no \<open>NewOrder\<close> or does not decode ends a batch: the handler
  returns weight 0, keeps what the earlier messages did, and never looks at the later ones,
  valid orders included.\<close>

theorem sv_bad_message_ends_batch:
  assumes "\<And>client ob. decode_message H bad \<noteq> Inr (NewOrder client ob)"
  shows "sv_handle_xcmp_messages H C s (msgs @ (sender, sent_at, bad) # rest) max_weight
           = (0, snd (sv_handle_xcmp_messages H C s msgs max_weight))"
  by (rule sv_handle_app_bad [OF assms])

theorem sv_bad_message_ends_batch_witness:
  "sv_handle_xcmp_messages ledger_host sw_config sw_registered
     [(2001, 5, ledger_encode (OrderAccept 9 7)), (2001, 5, ledger_encode (NewOrder 9 sw_base))] 1000
   = (0, sw_registered)"
  using sv_bad_message_ends_batch [of ledger_host "ledger_encode (OrderAccept 9 7)" sw_config
      sw_registered "[]" 2001 5 "[(2001, 5, ledger_encode (NewOrder 9 sw_base))]" 1000]
  by (simp add: ledger_decode_def)

end
