(* ===== verification/Market_Network.thy ===== *)
theory Market_Network
  imports Cross_Chain
begin

text \<open>
  What the two pallets put on the wire.  The rest of a chain keeps an outbox, which only
  \<open>send_xcm\<close> extends (\<open>outbox_laws\<close>); \<open>posted\<close> reads off it the messages for one parachain
  that a step added.  The lemmas say, for every operation of both pallets, which messages it
  posts and what happened to the orders at the same time.  They are stated with \<open>claims\<close>: who
  asks for a device, with which order, according to a message or to the service's storage.
\<close>

section \<open>Outboxes\<close>

type_synonym outbox = "(destination \<times> xcm) list"

definition outbox_laws :: "('o, 'a, 'd, 'w) host \<Rightarrow> ('w \<Rightarrow> outbox) \<Rightarrow> bool" where
  "outbox_laws H out \<longleftrightarrow>
     (\<forall>w d x w'. send_xcm H w d x = (Inr (), w') \<longrightarrow> out w' = out w @ [(d, x)])
   \<and> (\<forall>w d x e w'. send_xcm H w d x = (Inl e, w') \<longrightarrow> out w' = out w)
   \<and> (\<forall>w a v. out (snd (reserve H w a v)) = out w)
   \<and> (\<forall>w a v. out (snd (unreserve H w a v)) = out w)
   \<and> (\<forall>w a b v st. out (snd (repatriate_reserved H w a b v st)) = out w)"

lemma ledger_outbox: "outbox_laws ledger_host l_outbox"
  by (auto simp: outbox_laws_def ledger_reserve_def ledger_move_def ledger_repatriate_def Let_def
      split: balance_status.split)

lemma outbox_keeps:
  assumes "outbox_laws H out"
  shows "out (snd (reserve H w a v)) = out w" "out (snd (unreserve H w a v)) = out w"
    "out (snd (repatriate_reserved H w a b v st)) = out w"
  using assms by (simp_all add: outbox_laws_def)

lemma outbox_keeps_eq:
  assumes "outbox_laws H out"
  shows "reserve H w a v = (r, w') \<Longrightarrow> out w' = out w"
    "unreserve H w a v = (x, w') \<Longrightarrow> out w' = out w"
    "repatriate_reserved H w a b v st = (y, w') \<Longrightarrow> out w' = out w"
  using outbox_keeps(1) [OF assms, of w a v] outbox_keeps(2) [OF assms, of w a v]
    outbox_keeps(3) [OF assms, of w a b v st] by simp_all

lemma outbox_send:
  assumes "outbox_laws H out"
  shows "out (snd (send_xcm H w d x)) = out w \<or> out (snd (send_xcm H w d x)) = out w @ [(d, x)]"
proof (cases "send_xcm H w d x")
  case (Pair r w')
  have "\<And>w'. send_xcm H w d x = (Inr (), w') \<Longrightarrow> out w' = out w @ [(d, x)]"
    "\<And>e w'. send_xcm H w d x = (Inl e, w') \<Longrightarrow> out w' = out w"
    using assms by (simp_all only: outbox_laws_def)
  with Pair show ?thesis by (cases r) simp_all
qed

text \<open>The bytes of a posted message for parachain \<open>p\<close>.\<close>

fun letter :: "para_id \<Rightarrow> destination \<times> xcm \<Rightarrow> bytes list" where
  "letter p ((Parent, Parachain q), [Transact Native n bs]) = (if q = p then [bs] else [])"
| "letter p _ = []"

definition posted :: "('w \<Rightarrow> outbox) \<Rightarrow> para_id \<Rightarrow> 'w \<Rightarrow> 'w \<Rightarrow> bytes list" where
  "posted out p w w' = concat (map (letter p) (drop (length (out w)) (out w')))"

lemma posted_same: "out w' = out w \<Longrightarrow> posted out p w w' = []"
  by (simp add: posted_def)

lemma posted_one: "out w' = out w @ [x] \<Longrightarrow> posted out p w w' = letter p x"
  by (simp add: posted_def)

lemma posted_send:
  assumes "outbox_laws H out" "out w = out u"
  shows "posted out p u (snd (send_xcm H w (Parent, Parachain q) [Transact Native n bs])) = []
    \<or> q = p \<and> posted out p u (snd (send_xcm H w (Parent, Parachain q) [Transact Native n bs])) = [bs]"
proof -
  from outbox_send [OF assms(1), of w "(Parent, Parachain q)" "[Transact Native n bs]"]
  show ?thesis
  proof
    assume "out (snd (send_xcm H w (Parent, Parachain q) [Transact Native n bs]))
      = out w @ [((Parent, Parachain q), [Transact Native n bs])]"
    then show ?thesis using assms(2) posted_one [of out _ u] by auto
  qed (use assms(2) posted_same [of out] in auto)
qed

section \<open>Claims\<close>

text \<open>A claim on a device names a client and, unless it is an answer, an order.\<close>

type_synonym ('a, 'd) claim = "'a \<times> ('a, 'd) OrderBase option"

definition asked :: "('o, 'a, 'd, 'w) host \<Rightarrow> 'a \<Rightarrow> bytes \<Rightarrow> ('a, 'd) claim list" where
  "asked G d bs = (case decode_message G bs of
     Inr (NewOrder c ob) \<Rightarrow> if ob_device ob = d then [(c, Some ob)] else []
   | _ \<Rightarrow> [])"

definition answered :: "('o, 'a, 'd, 'w) host \<Rightarrow> 'a \<Rightarrow> bytes \<Rightarrow> ('a, 'd) claim list" where
  "answered G d bs = (case decode_message G bs of
     Inr (OrderReject c e onoff) \<Rightarrow> if e = d then [(c, None)] else []
   | Inr (OrderDone c e onoff) \<Rightarrow> if e = d then [(c, None)] else []
   | _ \<Rightarrow> [])"

text \<open>The same for a list of messages.\<close>

definition asked_in :: "('o, 'a, 'd, 'w) host \<Rightarrow> 'a \<Rightarrow> bytes list \<Rightarrow> ('a, 'd) claim list" where
  "asked_in G d msgs = concat (map (asked G d) msgs)"

definition answered_in :: "('o, 'a, 'd, 'w) host \<Rightarrow> 'a \<Rightarrow> bytes list \<Rightarrow> ('a, 'd) claim list" where
  "answered_in G d msgs = concat (map (answered G d) msgs)"

lemma claims_in [simp]:
  "asked_in G d [] = []" "asked_in G d (x # xs) = asked G d x @ asked_in G d xs"
  "asked_in G d (xs @ ys) = asked_in G d xs @ asked_in G d ys"
  "answered_in G d [] = []" "answered_in G d (x # xs) = answered G d x @ answered_in G d xs"
  "answered_in G d (xs @ ys) = answered_in G d xs @ answered_in G d ys"
  by (simp_all add: asked_in_def answered_in_def)

definition held :: "para_id \<Rightarrow> ('a, 'd, 'w) service \<Rightarrow> 'a \<Rightarrow> ('a, 'd) claim list" where
  "held p s d = (case sOrders s d of
     Some oo \<Rightarrow> if o_paraid oo = p then [(o_client oo, Some (Order_convert oo d))] else []
   | None \<Rightarrow> [])"

lemma held_none [simp]: "sOrders s d = None \<Longrightarrow> held p s d = []"
  by (simp add: held_def)

lemma held_world [simp]: "held p (s\<lparr>sWorld := w\<rparr>) d = held p s d"
  by (simp add: held_def)

lemma held_cong: "sOrders t d = sOrders s d \<Longrightarrow> held p t d = held p s d"
  by (simp add: held_def)

lemma answered_simps:
  assumes "\<And>m. decode_message G (encode_message H m) = Inr m"
  shows "answered G d (encode_message H (OrderReject c e b)) = (if e = d then [(c, None)] else [])"
    "answered G d (encode_message H (OrderDone c e b)) = (if e = d then [(c, None)] else [])"
    "answered G d (encode_message H (OrderAccept c e)) = []"
    "asked G d (encode_message H (NewOrder c ob)) = (if ob_device ob = d then [(c, Some ob)] else [])"
  by (simp_all add: answered_def asked_def assms)

lemma answered_one: "answered G d bs = x # xs \<Longrightarrow> xs = []"
  by (auto simp: answered_def split: sum.splits XCMPMessage.splits if_splits)

text \<open>Claims after a step stem from claims before it: they vanish, stay, or become an answer.\<close>

definition stems :: "('a, 'd) claim list \<Rightarrow> ('a, 'd) claim list \<Rightarrow> bool" where
  "stems xs ys \<longleftrightarrow> ys = [] \<or> (\<exists>c v. xs = [(c, v)] \<and> (ys = [(c, v)] \<or> ys = [(c, None)]))"

lemma stems_nil [simp]: "stems xs []"
  by (simp add: stems_def)

section \<open>What the client pallet posts\<close>

definition xc_quiet ::
  "('w \<Rightarrow> outbox) \<Rightarrow> para_id \<Rightarrow> ('a, 'd, 'w) xchange \<Rightarrow> ('a, 'd, 'w) xchange \<Rightarrow> bool" where
  "xc_quiet out p s t \<longleftrightarrow> posted out p (xWorld s) (xWorld t) = []
     \<and> (\<forall>d oo. xOrders s d = Some oo \<longrightarrow> xOrders t d = Some oo)"

definition xc_opened ::
  "('o, 'a, 'd, 'w) host \<Rightarrow> ('w \<Rightarrow> outbox) \<Rightarrow> para_id \<Rightarrow> ('a, 'd, 'w) xchange \<Rightarrow> ('a, 'd, 'w) xchange \<Rightarrow> bool" where
  "xc_opened H out p s t \<longleftrightarrow> (\<exists>who ob. xOrders s (ob_device ob) = None
     \<and> xOrders t = (xOrders s)(ob_device ob \<mapsto> OrderBase_convert ob who)
     \<and> (posted out p (xWorld s) (xWorld t) = []
        \<or> posted out p (xWorld s) (xWorld t) = [encode_message H (NewOrder who ob)]
          \<and> map_option xp_para_id (xDevice t (ob_device ob)) = Some p))"

lemma xc_order_posts:
  assumes laws: "outbox_laws H out"
  shows "xc_quiet out p s (snd (xc_order H s origin ob))
    \<or> xc_opened H out p s (snd (xc_order H s origin ob))"
proof (cases "xc_order H s origin ob")
  case (Pair r t)
  show ?thesis
  proof (cases r)
    case (Inl e)
    then have "xOrders t = xOrders s \<and> out (xWorld t) = out (xWorld s)"
      using Pair by (auto simp: xc_order_def Let_def dest!: outbox_keeps_eq [OF laws] split: result_splits)
    then show ?thesis by (simp add: Pair xc_quiet_def posted_same)
  next
    case (Inr u)
    then obtain who dev w1 w2 where o: "xOrders s (ob_device ob) = None"
        "reserve H (xWorld s) (ob_device ob) (xp_penalty dev) = (Inr (), w1)"
        "reserve H w1 who (ob_fee ob) = (Inr (), w2)"
        "t = xc_place_order H (s\<lparr>xWorld := w2\<rparr>) who ob dev"
      using Pair by (auto elim: xc_order_okE)
    have "out w2 = out (xWorld s)" using outbox_keeps_eq [OF laws] o(2,3) by metis
    then have "posted out p (xWorld s) (xWorld t) = []
        \<or> posted out p (xWorld s) (xWorld t) = [encode_message H (NewOrder who ob)]
          \<and> map_option xp_para_id (xDevice t (ob_device ob)) = Some p"
      unfolding o(4) using posted_send [OF laws, of w2 "xWorld s" p "xp_para_id dev"] by auto
    then have "xc_opened H out p s t"
      unfolding xc_opened_def using o(1) by (intro exI [of _ who] exI [of _ ob]) (simp add: o(4))
    then show ?thesis by (simp add: Pair)
  qed
qed

lemma xc_order_reject_outbox:
  assumes "outbox_laws H out"
  shows "out (xWorld (snd (xc_order_reject H s who oo now d dev))) = out (xWorld s)"
  using outbox_keeps [OF assms]
  by (auto simp: op_defs Let_def dest!: outbox_keeps_eq [OF assms] split: result_splits)

lemma xc_cancel_posts:
  assumes "outbox_laws H out"
  shows "posted out p (xWorld s) (xWorld (snd (xc_cancel H s origin d))) = []
    \<and> (\<forall>e. e \<noteq> d \<longrightarrow> xOrders (snd (xc_cancel H s origin d)) e = xOrders s e)"
  using xc_order_reject_outbox [OF assms] xc_cancel_only [of d s H origin]
  by (auto simp: xc_cancel_def xc_only_def posted_same Let_def split: result_splits)

lemma xc_test_posts:
  assumes "outbox_laws H out" "p \<noteq> 200"
  shows "xc_quiet out p s (snd (xc_test H s origin))"
proof -
  have "posted out p (xWorld s)
      (snd (send_xcm H (xWorld s) (Parent, Parachain 200) [Transact Native 0 (encode_i32s H [0x00, 0x20])])) = []"
    using posted_send [OF assms(1), of "xWorld s" "xWorld s" p 200] assms(2) by blast
  then show ?thesis by (auto simp: xc_test_def xc_quiet_def posted_same Let_def split: result_splits)
qed

lemma xc_call_posts:
  assumes "outbox_laws H out" "p \<noteq> 200" "\<And>d. c \<noteq> xc_call_cancel d"
  shows "xc_quiet out p s (snd (xc_dispatch H s origin c))
    \<or> xc_opened H out p s (snd (xc_dispatch H s origin c))"
proof (cases c)
  case (xc_call_register paraid penalty wcd onoff)
  have "xc_quiet out p s (snd (xc_register H s origin paraid penalty wcd onoff))"
    by (auto simp: xc_quiet_def op_defs posted_same split: result_splits)
  with xc_call_register show ?thesis by simp
qed (use assms(3) xc_order_posts [OF assms(1)] xc_test_posts [OF assms(1,2)] in simp_all)

lemma xc_answer_posts:
  assumes laws: "outbox_laws H out"
  shows "posted out p (xWorld s) (xWorld (snd (xc_handle_xcmp_messages H s [(q, n, bs)] w))) = []
    \<and> (\<forall>d. answered H d bs = [] \<longrightarrow>
          xOrders (snd (xc_handle_xcmp_messages H s [(q, n, bs)] w)) d = xOrders s d)"
proof -
  have reject: "out (xWorld (snd (xc_on_reject H s c d b))) = out (xWorld s)" for c d b
    using xc_order_reject_outbox [OF laws] by (auto simp: xc_on_reject_def Let_def split: result_splits)
  have paid: "out (xWorld (snd (xc_on_done H s c d b))) = out (xWorld s)" for c d b
    using outbox_keeps [OF laws]
    by (auto simp: xc_on_done_def xc_deposit_event_def Let_def dest!: outbox_keeps_eq [OF laws] split: result_splits)
  have other: "d \<noteq> e \<Longrightarrow> xOrders (snd (xc_on_reject H s c e b)) d = xOrders s d"
    "d \<noteq> e \<Longrightarrow> xOrders (snd (xc_on_done H s c e b)) d = xOrders s d" for c d e b
    using xc_on_reject_only [of e s H c b] xc_on_done_only [of e s H c b] by (simp_all add: xc_only_def)
  show ?thesis
    by (auto simp: xc_handle_one_def answered_def xc_on_accept_def xc_deposit_event_def other posted_same
        reject paid split: sum.splits XCMPMessage.splits)
qed

section \<open>What the service pallet posts\<close>

text \<open>For every device, the claims the service holds for parachain \<open>p\<close> after a step together with
  the answers it posted stem from the claims it held before.\<close>

definition sv_honest ::
  "('o, 'a, 'd, 'w) host \<Rightarrow> ('p, 'a, 'd, 'v) host \<Rightarrow> ('w \<Rightarrow> outbox) \<Rightarrow> para_id \<Rightarrow> ('a \<Rightarrow> ('a, 'd) claim list)
     \<Rightarrow> ('a, 'd, 'w) service \<Rightarrow> ('a, 'd, 'w) service \<Rightarrow> bool" where
  "sv_honest K G out p before s t \<longleftrightarrow>
     (\<forall>d. stems (before d) (held p t d @ answered_in G d (posted out p (sWorld s) (sWorld t))))"

lemma stems_held: "stems (held p s d) (held p s d)"
  by (simp add: stems_def held_def split: option.split)

lemma sv_honest_quiet:
  assumes "\<And>d. sOrders t d = sOrders s d \<or> sOrders t d = None" "posted out p (sWorld s) (sWorld t) = []"
  shows "sv_honest K G out p (held p s) s t"
  unfolding sv_honest_def
proof
  fix d
  show "stems (held p s d) (held p t d @ answered_in G d (posted out p (sWorld s) (sWorld t)))"
    using assms(1) [of d] assms(2) stems_held [of p s d] held_cong [of t d s p] by auto
qed

lemma sv_send_posts:
  assumes "outbox_laws K out" "out (sWorld s) = out u"
  shows "posted out p u (sWorld (sv_send K q m s)) = []
    \<or> q = p \<and> posted out p u (sWorld (sv_send K q m s)) = [encode_message K m]"
  using posted_send [OF assms] by simp

text \<open>One order fewer, answered or not.\<close>

lemma sv_honest_answered:
  assumes codec: "\<And>m. decode_message G (encode_message K m) = Inr m"
    and oo: "sOrders s d = Some oo" and t: "sOrders t = (sOrders s)(d := None)"
    and p: "posted out p (sWorld s) (sWorld t) = [] \<or> o_paraid oo = p \<and>
      (posted out p (sWorld s) (sWorld t) = [encode_message K (OrderReject (o_client oo) d b)]
       \<or> posted out p (sWorld s) (sWorld t) = [encode_message K (OrderDone (o_client oo) d b)])"
  shows "sv_honest K G out p (held p s) s t"
  unfolding sv_honest_def
proof
  fix e
  show "stems (held p s e) (held p t e @ answered_in G e (posted out p (sWorld s) (sWorld t)))"
  proof (cases "e = d")
    case True
    then show ?thesis using p
      by (auto simp: answered_simps [OF codec] held_def oo t stems_def)
  next
    case False
    then have "held p t e = held p s e" by (intro held_cong) (simp add: t)
    then show ?thesis using p False stems_held [of p s e] by (auto simp: answered_simps [OF codec])
  qed
qed

text \<open>The same orders, or one more, perhaps with an acceptance on its way.\<close>

lemma sv_honest_kept:
  assumes codec: "\<And>m. decode_message G (encode_message K m) = Inr m"
    and t: "\<And>e. stems (before e) (held p t e)"
    and p: "posted out p (sWorld s) (sWorld t) = []
      \<or> posted out p (sWorld s) (sWorld t) = [encode_message K (OrderAccept c d)]"
  shows "sv_honest K G out p before s t"
  using p t by (auto simp: sv_honest_def answered_simps [OF codec])

lemma sv_reject_posts:
  assumes laws: "outbox_laws K out" and oo: "sOrders s d = oo"
  shows "sOrders (snd (sv_order_reject K C s oo now d dev b)) = sOrders s
      \<and> posted out p (sWorld s) (sWorld (snd (sv_order_reject K C s oo now d dev b))) = []
    \<or> sOrders (snd (sv_order_reject K C s oo now d dev b)) = (sOrders s)(d := None)
      \<and> (posted out p (sWorld s) (sWorld (snd (sv_order_reject K C s oo now d dev b))) = []
        \<or> (\<exists>so. oo = Some so \<and> o_paraid so = p \<and>
            posted out p (sWorld s) (sWorld (snd (sv_order_reject K C s oo now d dev b)))
              = [encode_message K (OrderReject (o_client so) d b)]))"
proof (cases oo)
  case None
  then show ?thesis by (simp add: sv_order_reject_def posted_same)
next
  case (Some so)
  show ?thesis
  proof (cases "o_paraid so = SelfParaId C")
    case True
    have "out (sWorld (snd (sv_order_reject K C s (Some so) now d dev b))) = out (sWorld s)"
      using True outbox_keeps [OF laws]
      by (auto simp: sv_order_reject_def sv_pay_penalty_def Let_def dest!: outbox_keeps_eq [OF laws]
          split: result_splits)
    then have "posted out p (sWorld s) (sWorld (snd (sv_order_reject K C s (Some so) now d dev b))) = []"
      by (rule posted_same)
    moreover have "sOrders (snd (sv_order_reject K C s (Some so) now d dev b)) \<in> {sOrders s, (sOrders s)(d := None)}"
      by (auto simp: sv_order_reject_def Let_def split: result_splits)
    ultimately show ?thesis using Some by auto
  next
    case False
    then show ?thesis
      using sv_send_posts [where p = p and s = s and u = "sWorld s" and q = "o_paraid so"
            and m = "OrderReject (o_client so) d b", OF laws refl] Some
      by (auto simp: sv_order_reject_remote simp del: sv_send_simps(4))
  qed
qed

lemma sv_reject_honest:
  assumes "outbox_laws K out" "\<And>m. decode_message G (encode_message K m) = Inr m" "sOrders s d = oo"
  shows "sv_honest K G out p (held p s) s (snd (sv_order_reject K C s oo now d dev b))"
proof (cases oo)
  case None
  then show ?thesis
    by (intro sv_honest_quiet) (auto simp: sv_order_reject_def posted_same)
next
  case (Some so)
  from sv_reject_posts [OF assms(1,3), of C now dev b p] show ?thesis
  proof
    assume "sOrders (snd (sv_order_reject K C s oo now d dev b)) = sOrders s
      \<and> posted out p (sWorld s) (sWorld (snd (sv_order_reject K C s oo now d dev b))) = []"
    then show ?thesis by (intro sv_honest_quiet) auto
  qed (rule sv_honest_answered [where oo = so and d = d], use assms(2,3) Some in auto)
qed

lemma sv_store_order_posts:
  assumes "outbox_laws K out" "out (sWorld s) = out u"
  shows "posted out p u (sWorld (sv_store_order K C s oo d dev)) = []
    \<or> posted out p u (sWorld (sv_store_order K C s oo d dev))
        = [encode_message K (OrderAccept (o_client oo) d)]"
proof (cases "sp_state dev = Accepted \<and> o_paraid oo \<noteq> SelfParaId C")
  case True
  then show ?thesis
    using sv_send_posts [OF assms, of p "o_paraid oo" "OrderAccept (o_client oo) d"]
    by (auto simp del: sv_send_simps(4))
qed (use assms(2) posted_same [of out] in auto)

lemma sv_received_posts:
  assumes "outbox_laws K out" and t: "snd (sv_order_received K C s oo d) = t"
  shows "sDevice t = sDevice s \<and> sOrders t = sOrders s \<and> posted out p (sWorld s) (sWorld t) = []
    \<or> sOrders s d = None \<and> sOrders t = (sOrders s)(d \<mapsto> oo)
      \<and> (\<exists>dev st. sDevice s d = Some dev \<and> sp_state dev = Ready \<and> OnReceived C d oo = Some st
            \<and> sDevice t = (sDevice s)(d \<mapsto> dev\<lparr>sp_state := st\<rparr>)
            \<and> (posted out p (sWorld s) (sWorld t) = []
              \<or> st = Accepted \<and> posted out p (sWorld s) (sWorld t) = [encode_message K (OrderAccept (o_client oo) d)]))"
proof (cases "sv_order_received K C s oo d")
  case (Pair r t')
  show ?thesis
  proof (cases r)
    case (Inl e)
    then have "sDevice t = sDevice s \<and> sOrders t = sOrders s \<and> out (sWorld t) = out (sWorld s)"
      using Pair t by (auto simp: sv_order_received_def Let_def dest!: outbox_keeps_eq [OF assms(1)]
          split: result_splits)
    then show ?thesis by (simp add: posted_same)
  next
    case (Inr x)
    with Pair obtain dev st w1 w2 where o: "sOrders s d = None" "sDevice s d = Some dev"
        "sp_state dev = Ready" "OnReceived C d oo = Some st"
        "if o_paraid oo = SelfParaId C
         then can_reserve K (sWorld s) (o_client oo) (o_fee oo)
           \<and> reserve K (sWorld s) d (sp_penalty dev) = (Inr (), w1)
           \<and> reserve K w1 (o_client oo) (o_fee oo) = (Inr (), w2)
         else w2 = sWorld s"
        "t = sv_store_order K C (s\<lparr>sWorld := w2\<rparr>) oo d (dev\<lparr>sp_state := st\<rparr>)"
      using t by (auto elim: sv_order_received_okE)
    have w2: "out w2 = out (sWorld s)"
      using o(5) by (auto dest!: outbox_keeps_eq [OF assms(1)] split: if_splits)
    have "posted out p (sWorld s) (sWorld t) = [] \<or> st = Accepted
        \<and> posted out p (sWorld s) (sWorld t) = [encode_message K (OrderAccept (o_client oo) d)]"
    proof (cases "st = Accepted")
      case True
      then show ?thesis
        unfolding o(6)
        using sv_store_order_posts [OF assms(1), of "s\<lparr>sWorld := w2\<rparr>" "sWorld s"] w2
        by (simp del: sv_store_order_simps)
    qed (simp add: o(6) posted_same w2)
    then show ?thesis using o(1-4) by (simp add: o(6))
  qed
qed

text \<open>What a received order stands for before it is stored.\<close>

definition offer :: "para_id \<Rightarrow> ('a, 'd) Order \<Rightarrow> 'a \<Rightarrow> 'a \<Rightarrow> ('a, 'd) claim list" where
  "offer p oo d e = (if o_paraid oo = p \<and> e = d then [(o_client oo, Some (Order_convert oo d))] else [])"

lemma sv_received_honest:
  assumes laws: "outbox_laws K out" and codec: "\<And>m. decode_message G (encode_message K m) = Inr m"
    and one: "offer p oo d d = [] \<or> held p s d = []"
  shows "sv_honest K G out p (\<lambda>e. offer p oo d e @ held p s e) s (snd (sv_order_received K C s oo d))"
  using sv_received_posts [OF laws refl, of C s oo d p]
proof (elim disjE conjE)
  assume s: "sOrders (snd (sv_order_received K C s oo d)) = sOrders s"
    and p: "posted out p (sWorld s) (sWorld (snd (sv_order_received K C s oo d))) = []"
  have "stems (offer p oo d e @ held p s e) (held p (snd (sv_order_received K C s oo d)) e)" for e
    using one stems_held [of p s e] held_cong [OF fun_cong [OF s], of p e]
    by (cases "e = d") (auto simp: offer_def)
  with p show ?thesis by (intro sv_honest_kept [where K = K, OF codec]) auto
next
  assume none: "sOrders s d = None" and s: "sOrders (snd (sv_order_received K C s oo d)) = (sOrders s)(d \<mapsto> oo)"
    and p: "\<exists>dev st. sDevice s d = Some dev \<and> sp_state dev = Ready \<and> OnReceived C d oo = Some st
       \<and> sDevice (snd (sv_order_received K C s oo d)) = (sDevice s)(d \<mapsto> dev\<lparr>sp_state := st\<rparr>)
       \<and> (posted out p (sWorld s) (sWorld (snd (sv_order_received K C s oo d))) = []
         \<or> st = Accepted \<and> posted out p (sWorld s) (sWorld (snd (sv_order_received K C s oo d)))
              = [encode_message K (OrderAccept (o_client oo) d)])"
  have "stems (offer p oo d e @ held p s e) (held p (snd (sv_order_received K C s oo d)) e)" for e
  proof (cases "e = d")
    case True
    then show ?thesis by (simp add: held_def none s offer_def stems_def)
  next
    case False
    then have "held p (snd (sv_order_received K C s oo d)) e = held p s e" by (intro held_cong) (simp add: s)
    with False show ?thesis using stems_held [of p s e] by (simp add: offer_def)
  qed
  with p show ?thesis by (intro sv_honest_kept [where K = K, OF codec]) auto
qed

lemma sv_honest_refl: "sv_honest K G out p (held p s) s s"
  by (intro sv_honest_quiet) (simp_all add: posted_same)

lemma sv_done_posts:
  assumes laws: "outbox_laws K out" and r: "sv_done K C s origin onoff = (r, t)"
  shows "t = s \<or> (\<exists>d dev oo. sDevice s d = Some dev \<and> sp_state dev = Accepted \<and> sOrders s d = Some oo
    \<and> sDevice t = (sDevice s)(d \<mapsto> dev\<lparr>sp_state := (if onoff then Ready else Off)\<rparr>)
    \<and> sOrders t = (sOrders s)(d := None)
    \<and> (posted out p (sWorld s) (sWorld t) = [] \<or> o_paraid oo = p
        \<and> posted out p (sWorld s) (sWorld t) = [encode_message K (OrderDone (o_client oo) d onoff)]))"
proof (cases "t = s")
  case False
  then obtain d dev oo where o: "sDevice s d = Some dev" "sOrders s d = Some oo" "sp_state dev = Accepted"
    and r: "sv_order_done K C (s\<lparr>sOrders := (sOrders s)(d := None)\<rparr>) oo (timestamp_get K (sWorld s)) d dev onoff = (r, t)"
    using r by (auto simp: sv_done_def Let_def split: result_splits)
  let ?dev = "dev\<lparr>sp_state := (if onoff then Ready else Off)\<rparr>"
  let ?s = "s\<lparr>sOrders := (sOrders s)(d := None), sDevice := (sDevice s)(d \<mapsto> ?dev)\<rparr>"
  have t: "sDevice t = (sDevice s)(d \<mapsto> ?dev)" "sOrders t = (sOrders s)(d := None)"
    using r by (auto simp: sv_order_done_def Let_def split: result_splits)
  have "posted out p (sWorld s) (sWorld t) = [] \<or> o_paraid oo = p
      \<and> posted out p (sWorld s) (sWorld t) = [encode_message K (OrderDone (o_client oo) d onoff)]"
  proof (cases "o_paraid oo = SelfParaId C")
    case True
    then have "out (sWorld t) = out (sWorld s)"
      using r outbox_keeps [OF laws]
      by (auto simp: sv_order_done_def sv_pay_penalty_def Let_def dest!: outbox_keeps_eq [OF laws]
          split: result_splits)
    then show ?thesis by (simp add: posted_same)
  next
    case remote: False
    have "t = sv_deposit_event (SDone d) (sv_send K (o_paraid oo) (OrderDone (o_client oo) d onoff) ?s)"
      using r remote by (simp add: sv_order_done_def Let_def)
    moreover have "out (sWorld ?s) = out (sWorld s)" by simp
    ultimately show ?thesis
      using sv_send_posts [OF laws, of ?s "sWorld s" p "o_paraid oo" "OrderDone (o_client oo) d onoff"]
      by (simp only: sv_deposit_simps)
  qed
  with o t show ?thesis by blast
qed simp

lemma sv_done_honest:
  assumes laws: "outbox_laws K out" and codec: "\<And>m. decode_message G (encode_message K m) = Inr m"
  shows "sv_honest K G out p (held p s) s (snd (sv_done K C s origin onoff))"
proof (cases "sv_done K C s origin onoff")
  case (Pair r t)
  from sv_done_posts [OF laws Pair, of p] have "sv_honest K G out p (held p s) s t"
  proof (elim disjE exE)
    fix d dev oo
    assume "sDevice s d = Some dev \<and> sp_state dev = Accepted \<and> sOrders s d = Some oo
      \<and> sDevice t = (sDevice s)(d \<mapsto> dev\<lparr>sp_state := (if onoff then Ready else Off)\<rparr>)
      \<and> sOrders t = (sOrders s)(d := None)
      \<and> (posted out p (sWorld s) (sWorld t) = [] \<or> o_paraid oo = p
        \<and> posted out p (sWorld s) (sWorld t) = [encode_message K (OrderDone (o_client oo) d onoff)])"
    then show ?thesis by (intro sv_honest_answered [OF codec, of s d oo]) auto
  qed (simp add: sv_honest_refl)
  then show ?thesis by (simp add: Pair)
qed

lemma sv_accept_honest:
  assumes laws: "outbox_laws K out" and codec: "\<And>m. decode_message G (encode_message K m) = Inr m"
  shows "sv_honest K G out p (held p s) s (snd (sv_accept K C s origin reject onoff))"
proof -
  have accepted: "sv_honest K G out p (held p s) s (sv_order_accept K C s oo d dev)" for oo d dev
  proof (rule sv_honest_kept [where K = K, OF codec])
    show "stems (held p s e) (held p (sv_order_accept K C s oo d dev) e)" for e
      using stems_held by (simp add: held_def)
    show "posted out p (sWorld s) (sWorld (sv_order_accept K C s oo d dev)) = []
      \<or> posted out p (sWorld s) (sWorld (sv_order_accept K C s oo d dev))
        = [encode_message K (OrderAccept (o_client oo) d)]"
      using sv_send_posts [OF laws refl, of p s "o_paraid oo" "OrderAccept (o_client oo) d"]
      by (auto simp: posted_same simp del: sv_send_simps(4))
  qed
  show ?thesis
    using sv_reject_honest [OF laws codec] accepted
    by (auto simp: sv_accept_def Let_def sv_honest_refl split: sum.split option.split)
qed

lemma sv_cancel_honest:
  assumes "outbox_laws K out" "\<And>m. decode_message G (encode_message K m) = Inr m"
  shows "sv_honest K G out p (held p s) s (snd (sv_cancel K C s origin d))"
  using sv_reject_honest [OF assms]
  by (auto simp: sv_cancel_def Let_def sv_honest_refl split: sum.split option.split)

lemma sv_call_honest:
  assumes laws: "outbox_laws K out" and codec: "\<And>m. decode_message G (encode_message K m) = Inr m"
    and remote: "SelfParaId C \<noteq> p"
  shows "sv_honest K G out p (held p s) s (snd (sv_dispatch K C s origin c))"
proof (cases c)
  case (sv_call_order ob)
  have "sv_honest K G out p (held p s) s (snd (sv_order_received K C s oo d))"
    if "o_paraid oo = SelfParaId C" for oo d
    using sv_received_honest [OF laws codec, of p oo d s C] remote that by (simp add: offer_def)
  then show ?thesis
    by (auto simp: sv_call_order sv_order_def sv_honest_refl split: sum.split)
next
  case (sv_call_register penalty wcd onoff)
  then show ?thesis
    by (auto simp: sv_register_def posted_same intro!: sv_honest_quiet split: result_splits)
next
  case (sv_call_set_state onoff)
  then show ?thesis
    by (auto simp: sv_set_state_def posted_same intro!: sv_honest_quiet split: result_splits)
qed (simp_all only: sv_dispatch.simps sv_cancel_honest [OF laws codec] sv_accept_honest [OF laws codec]
      sv_done_honest [OF laws codec])

lemma sv_ask_honest:
  assumes laws: "outbox_laws K out" and codec: "\<And>m. decode_message G (encode_message K m) = Inr m"
    and one: "\<And>d. asked K d bs = [] \<or> held p s d = []"
  shows "sv_honest K G out p (\<lambda>d. asked K d bs @ held p s d) s
    (snd (sv_handle_xcmp_messages K C s [(p, n, bs)] w))"
proof (cases "\<exists>c ob. decode_message K bs = Inr (NewOrder c ob)")
  case True
  then obtain c ob where dec: "decode_message K bs = Inr (NewOrder c ob)" by blast
  let ?oo = "\<lparr>o_until = ob_until ob, o_data = ob_data ob, o_fee = ob_fee ob, o_client = c, o_paraid = p\<rparr>"
  have "asked K e bs = offer p ?oo (ob_device ob) e" for e
    by (auto simp: asked_def dec offer_def Order_convert_def)
  moreover have "sv_honest K G out p (\<lambda>e. offer p ?oo (ob_device ob) e @ held p s e) s
      (snd (sv_order_received K C s ?oo (ob_device ob)))"
    using one [of "ob_device ob"] by (intro sv_received_honest [OF laws codec]) (simp add: asked_def dec)
  ultimately show ?thesis
    by (simp add: sv_handle_new_order [OF dec] del: sv_handle_xcmp_messages.simps)
next
  case False
  then have none: "sv_handle_one K C s p bs = None" and no: "\<And>d. asked K d bs = []"
    by (auto simp: sv_handle_one_def asked_def split: sum.split XCMPMessage.split)
  show ?thesis by (simp add: none no sv_honest_refl)
qed

lemma sv_foreign_honest:
  assumes laws: "outbox_laws K out" and codec: "\<And>m. decode_message G (encode_message K m) = Inr m"
    and "q \<noteq> p"
  shows "sv_honest K G out p (held p s) s (snd (sv_handle_xcmp_messages K C s [(q, n, bs)] w))"
proof -
  have "sv_honest K G out p (held p s) s (snd (sv_order_received K C s oo d))" if "o_paraid oo = q" for oo d
    using sv_received_honest [OF laws codec, of p oo d s C] assms(3) that by (simp add: offer_def)
  then show ?thesis
    by (auto simp: sv_handle_one_def sv_honest_refl split: sum.split XCMPMessage.split)
qed

lemma sv_killed_honest: "sv_honest K G out p (held p s) s (sv_on_killed_account s a)"
  by (auto simp: sv_on_killed_account_def posted_same intro!: sv_honest_quiet split: result_splits)


end
