(* ===== verification/Market_System.thy ===== *)
theory Market_System
  imports Market_Network
begin

text \<open>
  A client chain and a service chain with the messages between them as one system.  A message
  that a chain posts for the other is in flight until it is delivered, at any time and in any
  order.  Messages of further chains reach both: any reach the service, which stores the sender;
  the client pallet, which trusts every sender, gets only such that concern a device without a
  claim and name the client of its order (\<open>foreign_answer\<close>).  A cancel of the client is part of the system while nothing about the device
  is on its way or open at the service (\<open>clean\<close>).  In this system every claim on a device,
  wherever it is, names the client of the order the client chain has open on it.
\<close>

text \<open>From here on a message batch is a whole; its handlers unfold only where they must.\<close>

declare xc_handle_xcmp_messages.simps [simp del] sv_handle_xcmp_messages.simps [simp del]

section \<open>The system\<close>

text \<open>What is fixed: both hosts with their outboxes, the service's configuration, the client
  chain's parachain id.\<close>

record ('o, 'p, 'a, 'd, 'w, 'v) link =
  cHost :: "('o, 'a, 'd, 'w) host"
  cOut :: "'w \<Rightarrow> outbox"
  cPara :: para_id
  vHost :: "('p, 'a, 'd, 'v) host"
  vOut :: "'v \<Rightarrow> outbox"
  vConfig :: "('a, 'd) sv_Config"

abbreviation vPara :: "('o, 'p, 'a, 'd, 'w, 'v) link \<Rightarrow> para_id" where
  "vPara L \<equiv> SelfParaId (vConfig L)"

record ('a, 'd, 'w, 'v) market =
  mClient :: "('a, 'd, 'w) xchange"
  mService :: "('a, 'd, 'v) service"
  mAsks :: "bytes list"
  mAnswers :: "bytes list"

definition good_link :: "('o, 'p, 'a, 'd, 'w, 'v) link \<Rightarrow> bool" where
  "good_link L \<longleftrightarrow> same_codec (cHost L) (vHost L) \<and> same_codec (vHost L) (cHost L)
     \<and> outbox_laws (cHost L) (cOut L) \<and> outbox_laws (vHost L) (vOut L)
     \<and> vPara L \<noteq> cPara L \<and> vPara L \<noteq> 200"

definition market_init :: "('a, 'd, 'w, 'v) market \<Rightarrow> bool" where
  "market_init m \<longleftrightarrow> xc_init (mClient m) \<and> sv_init (mService m) \<and> mAsks m = [] \<and> mAnswers m = []"

text \<open>A chain's new state, with what it posted put in flight.\<close>

definition client_does ::
  "('o, 'p, 'a, 'd, 'w, 'v) link \<Rightarrow> ('a, 'd, 'w, 'v) market \<Rightarrow> ('a, 'd, 'w) xchange \<Rightarrow> ('a, 'd, 'w, 'v) market" where
  "client_does L m x =
     m\<lparr>mClient := x, mAsks := mAsks m @ posted (cOut L) (vPara L) (xWorld (mClient m)) (xWorld x)\<rparr>"

definition service_does ::
  "('o, 'p, 'a, 'd, 'w, 'v) link \<Rightarrow> ('a, 'd, 'w, 'v) market \<Rightarrow> ('a, 'd, 'v) service \<Rightarrow> ('a, 'd, 'w, 'v) market" where
  "service_does L m y =
     m\<lparr>mService := y, mAnswers := mAnswers m @ posted (vOut L) (cPara L) (sWorld (mService m)) (sWorld y)\<rparr>"

lemma client_does_simps [simp]:
  "mClient (client_does L m x) = x" "mService (client_does L m x) = mService m"
  "mAsks (client_does L m x) = mAsks m @ posted (cOut L) (vPara L) (xWorld (mClient m)) (xWorld x)"
  "mAnswers (client_does L m x) = mAnswers m"
  by (simp_all add: client_does_def)

lemma service_does_simps [simp]:
  "mClient (service_does L m y) = mClient m" "mService (service_does L m y) = y"
  "mAnswers (service_does L m y) = mAnswers m @ posted (vOut L) (cPara L) (sWorld (mService m)) (sWorld y)"
  "mAsks (service_does L m y) = mAsks m"
  by (simp_all add: service_does_def)

text \<open>All claims on a device: asked for, held by the service, answered.\<close>

definition claims :: "('o, 'p, 'a, 'd, 'w, 'v) link \<Rightarrow> ('a, 'd, 'w, 'v) market \<Rightarrow> 'a \<Rightarrow> ('a, 'd) claim list" where
  "claims L m d = asked_in (vHost L) d (mAsks m) @ held (cPara L) (mService m) d
     @ answered_in (cHost L) d (mAnswers m)"

definition clean :: "('o, 'p, 'a, 'd, 'w, 'v) link \<Rightarrow> ('a, 'd, 'w, 'v) market \<Rightarrow> ('a, 'd) xc_Call \<Rightarrow> bool" where
  "clean L m c \<longleftrightarrow> (case c of xc_call_cancel d \<Rightarrow> claims L m d = [] | _ \<Rightarrow> True)"

definition foreign_answer :: "('o, 'p, 'a, 'd, 'w, 'v) link \<Rightarrow> ('a, 'd, 'w, 'v) market \<Rightarrow> bytes \<Rightarrow> bool" where
  "foreign_answer L m bs \<longleftrightarrow> (\<forall>d c v. answered (cHost L) d bs = [(c, v)] \<longrightarrow>
     claims L m d = [] \<and> (\<exists>oo. xOrders (mClient m) d = Some oo \<and> o_client oo = c))"

datatype ('o, 'p, 'a, 'd, 'w, 'v) market_label =
  ClientCall 'o "('a, 'd) xc_Call"
| ServiceCall 'p "('a, 'd) sv_Call"
| Ask bytes
| Answer bytes
| ForeignAsk para_id bytes
| ForeignAnswer para_id bytes
| ClientKilled 'a
| ServiceKilled 'a
| ClientWorld 'w
| ServiceWorld 'v

inductive market_step ::
  "('o, 'p, 'a, 'd, 'w, 'v) link \<Rightarrow> ('a, 'd, 'w, 'v) market \<Rightarrow> ('o, 'p, 'a, 'd, 'w, 'v) market_label
     \<Rightarrow> ('a, 'd, 'w, 'v) market \<Rightarrow> bool"
  for L :: "('o, 'p, 'a, 'd, 'w, 'v) link"
where
  m_client_call: "clean L m c \<Longrightarrow>
    market_step L m (ClientCall origin c) (client_does L m (snd (xc_dispatch (cHost L) (mClient m) origin c)))"
| m_service_call:
    "market_step L m (ServiceCall origin s)
       (service_does L m (snd (sv_dispatch (vHost L) (vConfig L) (mService m) origin s)))"
| m_ask: "mAsks m = xs @ bs # ys \<Longrightarrow>
    market_step L m (Ask bs) (service_does L (m\<lparr>mAsks := xs @ ys\<rparr>)
      (snd (sv_handle_xcmp_messages (vHost L) (vConfig L) (mService m) [(cPara L, n, bs)] w)))"
| m_answer: "mAnswers m = xs @ bs # ys \<Longrightarrow>
    market_step L m (Answer bs) (client_does L (m\<lparr>mAnswers := xs @ ys\<rparr>)
      (snd (xc_handle_xcmp_messages (cHost L) (mClient m) [(vPara L, n, bs)] w)))"
| m_foreign: "q \<noteq> cPara L \<Longrightarrow>
    market_step L m (ForeignAsk q bs)
      (service_does L m (snd (sv_handle_xcmp_messages (vHost L) (vConfig L) (mService m) [(q, n, bs)] w)))"
| m_foreign_answer: "foreign_answer L m bs \<Longrightarrow>
    market_step L m (ForeignAnswer q bs)
      (client_does L m (snd (xc_handle_xcmp_messages (cHost L) (mClient m) [(q, n, bs)] w)))"
| m_client_killed: "market_step L m (ClientKilled a) (client_does L m (xc_on_killed_account (mClient m) a))"
| m_service_killed: "market_step L m (ServiceKilled a) (service_does L m (sv_on_killed_account (mService m) a))"
| m_client_world: "cOut L w = cOut L (xWorld (mClient m)) \<Longrightarrow>
    market_step L m (ClientWorld w) (client_does L m ((mClient m)\<lparr>xWorld := w\<rparr>))"
| m_service_world: "vOut L v = vOut L (sWorld (mService m)) \<Longrightarrow>
    market_step L m (ServiceWorld v) (service_does L m ((mService m)\<lparr>sWorld := v\<rparr>))"

inductive_cases market_stepE [consumes 1, case_names client_call service_call ask answer foreign foreign_answer client_killed service_killed client_world service_world]:
  "market_step L m l t"

section \<open>Claims are honest\<close>

text \<open>At most one claim on a device, and then the client chain has an order open on it, of the
  client the claim names and with the terms the claim names.\<close>

definition honest :: "('a, 'd) Order option \<Rightarrow> 'a \<Rightarrow> ('a, 'd) claim list \<Rightarrow> bool" where
  "honest order d cs \<longleftrightarrow> cs = [] \<or> (\<exists>oo v. order = Some oo \<and> cs = [(o_client oo, v)]
     \<and> (\<forall>ob. v = Some ob \<longrightarrow> ob = Order_convert oo d))"

definition agreed :: "('o, 'p, 'a, 'd, 'w, 'v) link \<Rightarrow> ('a, 'd, 'w, 'v) market \<Rightarrow> bool" where
  "agreed L m \<longleftrightarrow> (\<forall>d. honest (xOrders (mClient m) d) d (claims L m d))"

lemma agreedD: "agreed L m \<Longrightarrow> honest (xOrders (mClient m) d) d (claims L m d)"
  by (simp add: agreed_def)

lemma honest_nil [simp]: "honest order d []"
  by (simp add: honest_def)

lemma honest_length: "honest order d cs \<Longrightarrow> length cs \<le> 1"
  by (auto simp: honest_def)

lemma honest_stems: "honest order d xs \<Longrightarrow> stems xs ys \<Longrightarrow> honest order d ys"
  by (auto simp: honest_def stems_def)

text \<open>Claims in the middle of a short list may be replaced by claims that stem from them.\<close>

lemma honest_replace:
  assumes "honest order d (as @ xs @ bs)" "stems xs (ys @ zs)"
  shows "honest order d (as @ ys @ bs @ zs)"
proof (cases xs)
  case Nil
  then have "ys = [] \<and> zs = []" using assms(2) by (auto simp: stems_def)
  then show ?thesis using assms(1) Nil by simp
next
  case (Cons x xs')
  then have "as = [] \<and> bs = []" using honest_length [OF assms(1)] by auto
  then show ?thesis using assms honest_stems [of order d xs "ys @ zs"] by simp
qed

lemma honest_order_kept:
  assumes "honest order d cs" "\<And>oo. order = Some oo \<Longrightarrow> order' = Some oo"
  shows "honest order' d cs"
  using assms by (auto simp: honest_def)

text \<open>A step of the service: the claims it held before, with those of a message it received.\<close>

lemma agreed_service:
  assumes agreed: "agreed L m"
    and asks: "mAsks m = xs @ bs @ ys" and m': "m' = service_does L (m\<lparr>mAsks := xs @ ys\<rparr>) y"
    and honest: "sv_honest (vHost L) (cHost L) (vOut L) (cPara L)
      (\<lambda>d. asked_in (vHost L) d bs @ held (cPara L) (mService m) d) (mService m) y"
  shows "agreed L m'"
  unfolding agreed_def
proof
  fix d
  let ?asked = "\<lambda>bs. asked_in (vHost L) d bs" and ?answered = "\<lambda>bs. answered_in (cHost L) d bs"
  let ?new = "posted (vOut L) (cPara L) (sWorld (mService m)) (sWorld y)"
  have h: "honest (xOrders (mClient m) d) d (?asked xs @ ?asked bs @ ?asked ys
      @ held (cPara L) (mService m) d @ ?answered (mAnswers m))"
    using agreedD [OF agreed, of d] by (simp add: claims_def asks)
  have st: "stems (?asked bs @ held (cPara L) (mService m) d) (held (cPara L) y d @ ?answered ?new)"
    using honest by (simp add: sv_honest_def)
  show "honest (xOrders (mClient m') d) d (claims L m' d)"
  proof (cases "?asked bs")
    case Nil
    have "honest (xOrders (mClient m) d) d
        ((?asked xs @ ?asked ys) @ held (cPara L) (mService m) d @ ?answered (mAnswers m))"
      using h by (simp only: Nil append_Nil append_assoc)
    from honest_replace [OF this st [unfolded Nil append_Nil]] show ?thesis
      by (simp add: claims_def m')
  next
    case (Cons c cs)
    then have none: "?asked ys = []" using honest_length [OF h] by simp
    have "honest (xOrders (mClient m) d) d
        (?asked xs @ (?asked bs @ held (cPara L) (mService m) d) @ ?answered (mAnswers m))"
      using h by (simp only: none append_Nil append_assoc)
    from honest_replace [OF this st] have "honest (xOrders (mClient m) d) d (?asked xs @ ?asked ys
        @ held (cPara L) y d @ ?answered (mAnswers m) @ ?answered ?new)"
      by (simp only: none append_Nil append_assoc)
    then show ?thesis by (simp add: claims_def m')
  qed
qed

text \<open>A step of the client chain that posts nothing, or opens an order.\<close>

lemma agreed_client:
  assumes codec: "same_codec (cHost L) (vHost L)" and agreed: "agreed L m"
    and step: "xc_quiet (cOut L) (vPara L) (mClient m) x \<or> xc_opened (cHost L) (cOut L) (vPara L) (mClient m) x"
  shows "agreed L (client_does L m x)"
  unfolding agreed_def
proof
  fix d
  from agreedD [OF agreed, of d]
  have h: "honest (xOrders (mClient m) d) d (claims L m d)" .
  let ?new = "asked_in (vHost L) d (posted (cOut L) (vPara L) (xWorld (mClient m)) (xWorld x))"
  show "honest (xOrders (mClient (client_does L m x)) d) d (claims L (client_does L m x) d)"
    using step
  proof
    assume "xc_quiet (cOut L) (vPara L) (mClient m) x"
    then show ?thesis
      using honest_order_kept [OF h] by (simp add: xc_quiet_def claims_def)
  next
    assume "xc_opened (cHost L) (cOut L) (vPara L) (mClient m) x"
    then obtain who ob where o: "xOrders (mClient m) (ob_device ob) = None"
        "xOrders x = (xOrders (mClient m))(ob_device ob \<mapsto> OrderBase_convert ob who)"
      and new: "?new = [] \<or> ob_device ob = d \<and> ?new = [(who, Some ob)]"
      using codec by (auto simp: xc_opened_def same_codec_def answered_simps(4) split: if_splits)
    show ?thesis
    proof (cases "ob_device ob = d")
      case True
      then have "claims L m d = []" using h o(1) by (auto simp: honest_def)
      then show ?thesis using new True by (auto simp: claims_def honest_def o(2))
    next
      case False
      then show ?thesis using h new by (simp add: claims_def o(2))
    qed
  qed
qed

lemma agreed_answer:
  assumes out: "outbox_laws (cHost L) (cOut L)" and agreed: "agreed L m"
    and m: "mAnswers m = xs @ bs # ys"
  shows "agreed L (client_does L (m\<lparr>mAnswers := xs @ ys\<rparr>)
    (snd (xc_handle_xcmp_messages (cHost L) (mClient m) [(q, n, bs)] w)))"
    (is "agreed L ?m")
  unfolding agreed_def
proof
  fix d
  let ?t = "snd (xc_handle_xcmp_messages (cHost L) (mClient m) [(q, n, bs)] w)"
  have h: "honest (xOrders (mClient m) d) d (claims L m d)" by (rule agreedD [OF agreed])
  note posts = xc_answer_posts [OF out, of "vPara L" "mClient m" q n bs w]
  show "honest (xOrders (mClient ?m) d) d (claims L ?m d)"
  proof (cases "answered (cHost L) d bs")
    case Nil
    then have "xOrders ?t d = xOrders (mClient m) d" using posts by blast
    then show ?thesis using h posts Nil by (simp add: claims_def m)
  next
    case (Cons c cs)
    then have "claims L ?m d = []"
      using honest_length [OF h] posts by (simp add: claims_def m)
    then show ?thesis by simp
  qed
qed

lemma agreed_foreign_answer:
  assumes out: "outbox_laws (cHost L) (cOut L)" and agreed: "agreed L m" and foreign: "foreign_answer L m bs"
  shows "agreed L (client_does L m (snd (xc_handle_xcmp_messages (cHost L) (mClient m) [(q, n, bs)] w)))"
    (is "agreed L ?m")
  unfolding agreed_def
proof
  fix d
  note posts = xc_answer_posts [OF out, of "vPara L" "mClient m" q n bs w]
  then have claims: "claims L ?m d = claims L m d" by (simp add: claims_def)
  show "honest (xOrders (mClient ?m) d) d (claims L ?m d)"
  proof (cases "answered (cHost L) d bs")
    case Nil
    then have "xOrders (mClient ?m) d = xOrders (mClient m) d" using posts by simp
    then show ?thesis using agreedD [OF agreed, of d] by (simp only: claims)
  next
    case (Cons c cs)
    then have "claims L m d = []"
      using foreign answered_one [of "cHost L" d bs] by (cases c) (auto simp: foreign_answer_def)
    then show ?thesis by (simp only: claims honest_nil)
  qed
qed

lemma agreed_service_only:
  assumes "agreed L m" "sv_honest (vHost L) (cHost L) (vOut L) (cPara L) (held (cPara L) (mService m)) (mService m) y"
  shows "agreed L (service_does L m y)"
proof (rule agreed_service [OF assms(1)])
  show "mAsks m = mAsks m @ [] @ []" by simp
qed (use assms(2) in simp_all)

lemma agreed_ask_honest:
  assumes out: "outbox_laws (vHost L) (vOut L)" and codec: "same_codec (vHost L) (cHost L)"
    and agreed: "agreed L m" and m: "mAsks m = xs @ bs # ys"
  shows "sv_honest (vHost L) (cHost L) (vOut L) (cPara L)
    (\<lambda>d. asked_in (vHost L) d [bs] @ held (cPara L) (mService m) d) (mService m)
    (snd (sv_handle_xcmp_messages (vHost L) (vConfig L) (mService m) [(cPara L, n, bs)] w))"
proof -
  have "asked (vHost L) d bs = [] \<or> held (cPara L) (mService m) d = []" for d
    using honest_length [OF agreedD [OF agreed, of d]]
    by (cases "asked (vHost L) d bs"; cases "held (cPara L) (mService m) d") (simp_all add: claims_def m)
  from sv_ask_honest [where G = "cHost L", OF out _ this, of "vConfig L" n w] codec
  show ?thesis by (simp add: same_codec_def)
qed

lemma agreed_ask:
  assumes "outbox_laws (vHost L) (vOut L)" "same_codec (vHost L) (cHost L)"
    and "agreed L m" "mAsks m = xs @ bs # ys"
  shows "agreed L (service_does L (m\<lparr>mAsks := xs @ ys\<rparr>)
    (snd (sv_handle_xcmp_messages (vHost L) (vConfig L) (mService m) [(cPara L, n, bs)] w)))"
  by (rule agreed_service [OF assms(3) _ refl agreed_ask_honest [OF assms]]) (simp add: assms(4))

lemma agreed_step:
  assumes good: "good_link L"
  shows "market_step L m l t \<Longrightarrow> agreed L m \<Longrightarrow> agreed L t"
proof (induction rule: market_step.induct)
  case (m_client_call m c origin)
  show ?case
  proof (cases "\<exists>d. c = xc_call_cancel d")
    case True
    then obtain d where c: "c = xc_call_cancel d" by blast
    let ?x = "snd (xc_dispatch (cHost L) (mClient m) origin c)"
    have none: "claims L m d = []" using m_client_call(1) by (simp add: clean_def c)
    have "posted (cOut L) (vPara L) (xWorld (mClient m)) (xWorld ?x) = []"
      and other: "\<And>e. e \<noteq> d \<Longrightarrow> xOrders ?x e = xOrders (mClient m) e"
      using xc_cancel_posts [of "cHost L" "cOut L" "vPara L" "mClient m" origin d] good
      by (simp_all add: good_link_def c)
    then have "claims L (client_does L m ?x) e = claims L m e" for e by (simp add: claims_def)
    then have "honest (xOrders ?x e) e (claims L (client_does L m ?x) e)" for e
      using none other agreedD [OF m_client_call(2), of e] by (cases "e = d") simp_all
    then show ?thesis by (simp add: agreed_def)
  next
    case False
    then show ?thesis
      using xc_call_posts [of "cHost L" "cOut L" "vPara L" c "mClient m" origin] good m_client_call(2)
      by (intro agreed_client) (auto simp: good_link_def)
  qed
next
  case (m_service_call m origin c)
  then show ?case
    using good by (intro agreed_service_only sv_call_honest) (auto simp: good_link_def same_codec_def)
next
  case (m_ask m xs bs ys n w)
  then show ?case using good by (intro agreed_ask) (auto simp: good_link_def)
next
  case (m_answer m xs bs ys n w)
  then show ?case using good by (intro agreed_answer) (auto simp: good_link_def)
next
  case (m_foreign q m bs n w)
  then show ?case
    using good by (intro agreed_service_only sv_foreign_honest) (auto simp: good_link_def same_codec_def)
next
  case (m_foreign_answer m bs q n w)
  then show ?case using good by (intro agreed_foreign_answer) (auto simp: good_link_def)
next
  case (m_client_killed m a)
  have "xOrders (xc_on_killed_account (mClient m) a) = xOrders (mClient m)"
    "xWorld (xc_on_killed_account (mClient m) a) = xWorld (mClient m)"
    by (simp_all add: xc_on_killed_account_def split: option.split)
  then show ?case
    using good m_client_killed by (intro agreed_client) (auto simp: good_link_def xc_quiet_def posted_same)
next
  case (m_service_killed m a)
  then show ?case by (intro agreed_service_only sv_killed_honest)
next
  case (m_client_world w m)
  then show ?case
    using good by (intro agreed_client) (auto simp: good_link_def xc_quiet_def posted_same)
next
  case (m_service_world v m)
  then show ?case by (intro agreed_service_only sv_honest_quiet) (auto simp: posted_same)
qed

lemma agreed_init: "market_init m \<Longrightarrow> agreed L m"
  by (simp add: market_init_def agreed_def claims_def sv_init_def)

interpretation market_agreement: transition_system market_init "market_step L" "\<lambda>m. good_link L \<longrightarrow> agreed L m"
  by unfold_locales (blast intro: agreed_init, blast dest: agreed_step)

section \<open>Escrow on both chains\<close>

text \<open>Steps in which no refund and no settlement is refused its payout by the currency, and in
  which the rest of either chain leaves reserved funds in place.  Nothing is asked of the
  contents of the answers.\<close>

definition answer_paid :: "('o, 'a, 'd, 'w) host \<Rightarrow> ('a, 'd, 'w) xchange \<Rightarrow> bytes \<Rightarrow> bool" where
  "answer_paid H s bs \<longleftrightarrow> (case decode_message H bs of
     Inr (OrderReject c d onoff) \<Rightarrow> \<not> refused (xc_on_reject H s c d onoff)
   | Inr (OrderDone c d onoff) \<Rightarrow> \<not> refused (xc_on_done H s c d onoff)
   | _ \<Rightarrow> True)"

fun pays ::
  "('o, 'p, 'a, 'd, 'w, 'v) link \<Rightarrow> ('a, 'd, 'w, 'v) market \<Rightarrow> ('o, 'p, 'a, 'd, 'w, 'v) market_label \<Rightarrow> bool" where
  "pays L m (ClientCall origin c) =
     (case c of xc_call_cancel d \<Rightarrow> \<not> refused (xc_dispatch (cHost L) (mClient m) origin c) | _ \<Rightarrow> True)"
| "pays L m (ServiceCall origin c) =
     (sv_gives_back c \<longrightarrow> \<not> refused (sv_dispatch (vHost L) (vConfig L) (mService m) origin c))"
| "pays L m (Answer bs) = answer_paid (cHost L) (mClient m) bs"
| "pays L m (ForeignAnswer q bs) = answer_paid (cHost L) (mClient m) bs"
| "pays L m (ClientWorld w) =
     (\<forall>a. reserved_balance (cHost L) (xWorld (mClient m)) a \<le> reserved_balance (cHost L) w a)"
| "pays L m (ServiceWorld v) =
     (\<forall>a. reserved_balance (vHost L) (sWorld (mService m)) a \<le> reserved_balance (vHost L) v a)"
| "pays L m _ = True"

definition market_sound_step ::
  "('o, 'p, 'a, 'd, 'w, 'v) link \<Rightarrow> ('a, 'd, 'w, 'v) market \<Rightarrow> ('o, 'p, 'a, 'd, 'w, 'v) market_label
     \<Rightarrow> ('a, 'd, 'w, 'v) market \<Rightarrow> bool" where
  "market_sound_step L m l t \<longleftrightarrow> market_step L m l t \<and> pays L m l"

lemma market_sound_reachable:
  "reachable market_init (market_sound_step L) m \<Longrightarrow> reachable market_init (market_step L) m"
  by (induction rule: reachable.induct) (auto simp: market_sound_step_def intro: reachable.intros)

lemma agreed_reachable:
  "good_link L \<Longrightarrow> reachable market_init (market_step L) m \<Longrightarrow> agreed L m"
  using market_agreement.inv_reachable by blast

text \<open>An answer in flight names the client of the open order.\<close>

lemma agreed_answer_named:
  assumes "agreed L m" "bs \<in> set (mAnswers m)" "answered (cHost L) d bs = [(c, v)]"
  shows "\<exists>oo. xOrders (mClient m) d = Some oo \<and> o_client oo = c"
proof -
  obtain xs ys where "mAnswers m = xs @ bs # ys" using split_list [OF assms(2)] by blast
  then have "(c, v) \<in> set (claims L m d)" using assms(3) by (simp add: claims_def)
  with agreedD [OF assms(1), of d] show ?thesis by (auto simp: honest_def)
qed

lemma named_sound_answer:
  assumes "\<And>d c v. answered H d bs = [(c, v)] \<Longrightarrow> \<exists>oo. xOrders s d = Some oo \<and> o_client oo = c"
    and "answer_paid H s bs"
  shows "xc_sound_answer H s bs"
proof (cases "decode_message H bs")
  case (Inr msg)
  show ?thesis
    using assms
    by (cases msg) (fastforce simp: xc_sound_answer_def answer_paid_def Inr answered_def)+
qed (simp add: xc_sound_answer_def)

lemma market_sound_client:
  assumes "agreed L m" "market_sound_step L m l t"
  shows "mClient t = mClient m \<or> (\<exists>k. xc_sound_step (cHost L) (mClient m) k (mClient t))"
proof -
  have step: "market_step L m l t" and pays: "pays L m l" using assms(2) by (simp_all add: market_sound_step_def)
  from step show ?thesis
  proof (cases rule: market_stepE)
    case (client_call c origin)
    have "xc_sound_step (cHost L) (mClient m) (XCall origin c) (mClient t)"
      unfolding client_call client_does_simps
      by (rule xsound_call) (use pays in \<open>simp add: client_call\<close>)
    then show ?thesis by blast
  next
    case (answer xs bs ys n w)
    have "bs \<in> set (mAnswers m)" using answer by simp
    then have "xc_sound_answer (cHost L) (mClient m) bs"
      using pays answer by (intro named_sound_answer) (auto intro: agreed_answer_named [OF assms(1)])
    then have "xc_sound_step (cHost L) (mClient m) (XDeliver [(vPara L, n, bs)] w) (mClient t)"
      unfolding answer client_does_simps by (intro xsound_deliver) (simp split: option.split)
    then show ?thesis by blast
  next
    case (foreign_answer bs q n w)
    have "xc_sound_answer (cHost L) (mClient m) bs"
      using foreign_answer pays by (intro named_sound_answer) (auto simp: foreign_answer_def)
    then have "xc_sound_step (cHost L) (mClient m) (XDeliver [(q, n, bs)] w) (mClient t)"
      unfolding foreign_answer client_does_simps by (intro xsound_deliver) (simp split: option.split)
    then show ?thesis by blast
  next
    case (client_killed a)
    then show ?thesis using xsound_killed [of "cHost L" "mClient m" a] by auto
  next
    case (client_world w)
    have "xc_sound_step (cHost L) (mClient m) XEnvironment (mClient t)"
      unfolding client_world client_does_simps
      by (rule xsound_environment) (use pays in \<open>simp add: client_world\<close>)
    then show ?thesis by blast
  qed simp_all
qed

lemma market_sound_service:
  assumes "market_sound_step L m l t"
  shows "mService t = mService m \<or> (\<exists>k. sv_sound_step (vHost L) (vConfig L) (mService m) k (mService t))"
proof -
  have step: "market_step L m l t" and pays: "pays L m l" using assms by (simp_all add: market_sound_step_def)
  from step show ?thesis
  proof (cases rule: market_stepE)
    case (service_call origin c)
    have "sv_sound_step (vHost L) (vConfig L) (mService m) (SCall origin c) (mService t)"
      unfolding service_call service_does_simps
      by (rule ssound_call) (use pays in \<open>simp add: service_call\<close>)
    then show ?thesis by blast
  next
    case (ask xs bs ys n w)
    then show ?thesis
      using ssound_deliver [of "vHost L" "vConfig L" "mService m" "[(cPara L, n, bs)]" w]
      by auto
  next
    case (foreign q bs n w)
    then show ?thesis
      using ssound_deliver [of "vHost L" "vConfig L" "mService m" "[(q, n, bs)]" w]
      by auto
  next
    case (service_killed a)
    then show ?thesis using ssound_killed [of "vHost L" "vConfig L" "mService m" a] by auto
  next
    case (service_world v)
    have "sv_sound_step (vHost L) (vConfig L) (mService m) SEnvironment (mService t)"
      unfolding service_world service_does_simps
      by (rule ssound_environment) (use pays in \<open>simp add: service_world\<close>)
    then show ?thesis by blast
  qed simp_all
qed

lemma market_chains_reachable:
  assumes good: "good_link L"
  shows "reachable market_init (market_sound_step L) m \<Longrightarrow>
    reachable xc_init (xc_sound_step (cHost L)) (mClient m)
    \<and> reachable sv_init (sv_sound_step (vHost L) (vConfig L)) (mService m)"
proof (induction rule: reachable.induct)
  case (reachable_init m)
  then show ?case by (simp add: market_init_def reachable.reachable_init)
next
  case (reachable_step m l t)
  have "agreed L m" by (rule agreed_reachable [OF good market_sound_reachable [OF reachable_step.hyps(1)]])
  from market_sound_client [OF this reachable_step.hyps(2)] market_sound_service [OF reachable_step.hyps(2)]
    reachable_step.IH
  show ?case by (metis reachable.reachable_step)
qed

section \<open>Consequences\<close>

lemma agreed_held_order:
  assumes "agreed L m" "sOrders (mService m) d = Some so" "o_paraid so = cPara L"
  shows "\<exists>oo. xOrders (mClient m) d = Some oo \<and> o_client oo = o_client so \<and> Order_convert oo d = Order_convert so d"
proof -
  have "(o_client so, Some (Order_convert so d)) \<in> set (claims L m d)"
    using assms(2,3) by (simp add: claims_def held_def)
  with agreedD [OF assms(1), of d] show ?thesis by (auto simp: honest_def)
qed

lemma market_both_backed:
  assumes "good_link L" "currency_laws (cHost L)" "currency_laws (vHost L)"
    and "order_policy (OnReceived (vConfig L))" "reachable market_init (market_sound_step L) m"
  shows "xc_backed (cHost L) (mClient m) \<and> sv_backed (vHost L) (vConfig L) (mService m)"
proof
  note chains = market_chains_reachable [OF assms(1,5)]
  show "xc_backed (cHost L) (mClient m)"
    using xc_escrow.inv_reachable [OF conjunct1 [OF chains]] assms(2) by blast
  show "sv_backed (vHost L) (vConfig L) (mService m)"
    by (rule sv_backed_reachable [OF assms(3,4) conjunct2 [OF chains]])
qed

text \<open>A completion that arrives finds its order and pays it, unless the currency refuses.\<close>

lemma market_done_pays:
  assumes "good_link L" "currency_laws (cHost L)" "reachable market_init (market_sound_step L) m"
    and "bs \<in> set (mAnswers m)" "decode_message (cHost L) bs = Inr (OrderDone c d onoff)"
  shows "\<exists>oo dev. xOrders (mClient m) d = Some oo \<and> o_client oo = c \<and> xDevice (mClient m) d = Some dev
    \<and> (let s = mClient m; t = snd (xc_handle_xcmp_messages (cHost L) s [(vPara L, n, bs)] w)
       in refused (xc_on_done (cHost L) s c d onoff)
          \<or> released (cHost L) (xWorld s) (xWorld t) c d (unat (o_fee oo))
              d (if timestamp_get (cHost L) (xWorld s) < o_until oo then d else c) (unat (xp_penalty dev))
            \<and> xOrders t = (xOrders s)(d := None))"
proof -
  note chain = conjunct1 [OF market_chains_reachable [OF assms(1,3)]]
  have backed: "xc_backed (cHost L) (mClient m)" using xc_escrow.inv_reachable [OF chain] assms(2) by blast
  have "agreed L m" by (rule agreed_reachable [OF assms(1) market_sound_reachable [OF assms(3)]])
  from agreed_answer_named [OF this assms(4), of d c None] assms(5)
  obtain oo where oo: "xOrders (mClient m) d = Some oo" "o_client oo = c" by (auto simp: answered_def)
  obtain dev where dev: "xDevice (mClient m) d = Some dev"
    using xc_open_order_device [OF xc_sound_reachable [OF chain] oo(1)] by blast
  obtain r t where r: "xc_on_done (cHost L) (mClient m) c d onoff = (r, t)" by fastforce
  have "refused (r, t) \<or> released (cHost L) (xWorld (mClient m)) (xWorld t) c d (unat (o_fee oo))
        d (if timestamp_get (cHost L) (xWorld (mClient m)) < o_until oo then d else c) (unat (xp_penalty dev))
      \<and> xOrders t = (xOrders (mClient m))(d := None)"
  proof (cases r)
    case (Inl e)
    then have "refused (r, t)" using r oo dev
      by (auto simp: xc_on_done_def refused_def Let_def split: result_splits)
    then show ?thesis ..
  next
    case (Inr u)
    then have ok: "xc_on_done (cHost L) (mClient m) (o_client oo) d onoff = (Inr (), t)" using r oo by simp
    show ?thesis
      using xc_on_done_releases [OF assms(2) backed oo(1) dev ok] xc_on_done_ok_simps(1) [OF ok oo(1) dev]
      unfolding oo(2) by blast
  qed
  then show ?thesis
    using oo dev xc_handle_done [OF assms(5), of "mClient m" "vPara L" n w]
    by (intro exI [of _ oo] exI [of _ dev]) (simp add: r Let_def)
qed


end
