(* ===== verification/Market_Address.thy ===== *)
theory Market_Address
  imports Market_System
begin

text \<open>
  Claims are where they belong: if anything is under way about a device between the two
  chains, then the client chain has the device registered for just this service chain.
\<close>

section \<open>The client chain's own steps\<close>

lemma market_client_step:
  assumes "market_step L m l t"
  shows "mClient t = mClient m \<or> (\<exists>k. xc_step (cHost L) (mClient m) k (mClient t))"
  using assms
proof (cases rule: market_stepE)
  case (client_call c origin)
  have "xc_step (cHost L) (mClient m) (XCall origin c) (mClient t)"
    unfolding client_call client_does_simps by (rule xstep_call)
  then show ?thesis by (intro disjI2 exI)
next
  case (answer xs bs ys n w)
  have "xc_step (cHost L) (mClient m) (XDeliver [(vPara L, n, bs)] w) (mClient t)"
    unfolding answer client_does_simps by (rule xstep_deliver)
  then show ?thesis by (intro disjI2 exI)
next
  case (foreign_answer bs q n w)
  have "xc_step (cHost L) (mClient m) (XDeliver [(q, n, bs)] w) (mClient t)"
    unfolding foreign_answer client_does_simps by (rule xstep_deliver)
  then show ?thesis by (intro disjI2 exI)
next
  case (client_killed a)
  have "xc_step (cHost L) (mClient m) (XKilled a) (mClient t)"
    unfolding client_killed client_does_simps by (rule xstep_killed)
  then show ?thesis by (intro disjI2 exI)
next
  case (client_world w)
  have "xc_step (cHost L) (mClient m) XEnvironment (mClient t)"
    unfolding client_world client_does_simps by (rule xstep_environment)
  then show ?thesis by (intro disjI2 exI)
qed simp_all

lemma market_client_reachable:
  "reachable market_init (market_step L) m \<Longrightarrow> reachable xc_init (xc_step (cHost L)) (mClient m)"
proof (induction rule: reachable.induct)
  case (reachable_init m)
  then show ?case by (simp add: market_init_def reachable.reachable_init)
next
  case (reachable_step m l t)
  with market_client_step [OF reachable_step.hyps(2)] show ?case by (metis reachable.reachable_step)
qed

section \<open>Where new claims come from\<close>

text \<open>A claim appears only when the client chain opens an order, on a device of this service.\<close>

definition new_claims :: "('o, 'p, 'a, 'd, 'w, 'v) link \<Rightarrow> ('a, 'd, 'w, 'v) market \<Rightarrow> ('a, 'd, 'w, 'v) market \<Rightarrow> bool" where
  "new_claims L m t \<longleftrightarrow> (\<forall>d. claims L m d = [] \<and> claims L t d \<noteq> [] \<longrightarrow>
     map_option xp_para_id (xDevice (mClient t) d) = Some (vPara L))"

lemma new_claims_none: "(\<And>d. claims L m d = [] \<Longrightarrow> claims L t d = []) \<Longrightarrow> new_claims L m t"
  by (auto simp: new_claims_def)

text \<open>A service only passes on claims it had or received.\<close>

lemma new_claims_service:
  assumes asks: "mAsks m = xs @ bs @ ys"
    and honest: "sv_honest (vHost L) (cHost L) (vOut L) (cPara L)
      (\<lambda>d. asked_in (vHost L) d bs @ held (cPara L) (mService m) d) (mService m) y"
  shows "new_claims L m (service_does L (m\<lparr>mAsks := xs @ ys\<rparr>) y)"
proof (rule new_claims_none)
  fix d
  assume "claims L m d = []"
  moreover have "stems (asked_in (vHost L) d bs @ held (cPara L) (mService m) d) (held (cPara L) y d
      @ answered_in (cHost L) d (posted (vOut L) (cPara L) (sWorld (mService m)) (sWorld y)))"
    using honest by (simp add: sv_honest_def)
  ultimately show "claims L (service_does L (m\<lparr>mAsks := xs @ ys\<rparr>) y) d = []"
    by (auto simp: claims_def asks stems_def)
qed

lemma new_claims_service_only:
  assumes "sv_honest (vHost L) (cHost L) (vOut L) (cPara L) (held (cPara L) (mService m)) (mService m) y"
  shows "new_claims L m (service_does L m y)"
  using new_claims_service [of m "mAsks m" "[]" "[]" L y] assms by simp

lemma new_claims_client:
  assumes "same_codec (cHost L) (vHost L)"
    and "xc_quiet (cOut L) (vPara L) (mClient m) x \<or> xc_opened (cHost L) (cOut L) (vPara L) (mClient m) x"
  shows "new_claims L m (client_does L m x)"
  using assms(2)
proof
  assume "xc_quiet (cOut L) (vPara L) (mClient m) x"
  then show ?thesis by (intro new_claims_none) (simp add: xc_quiet_def claims_def)
next
  assume "xc_opened (cHost L) (cOut L) (vPara L) (mClient m) x"
  then obtain who ob where
    "posted (cOut L) (vPara L) (xWorld (mClient m)) (xWorld x) = []
      \<or> posted (cOut L) (vPara L) (xWorld (mClient m)) (xWorld x) = [encode_message (cHost L) (NewOrder who ob)]
        \<and> map_option xp_para_id (xDevice x (ob_device ob)) = Some (vPara L)"
    by (auto simp: xc_opened_def)
  then show ?thesis
    using assms(1)
    by (auto simp: new_claims_def claims_def same_codec_def answered_simps(4) split: if_splits)
qed

lemma market_new_claims:
  assumes good: "good_link L" and agreed: "agreed L m" and step: "market_step L m l t"
  shows "new_claims L m t"
  using step
proof (cases rule: market_stepE)
  case (client_call c origin)
  show ?thesis
  proof (cases "\<exists>d. c = xc_call_cancel d")
    case True
    then have "posted (cOut L) (vPara L) (xWorld (mClient m))
        (xWorld (snd (xc_dispatch (cHost L) (mClient m) origin c))) = []"
      using xc_cancel_posts [of "cHost L" "cOut L" "vPara L" "mClient m" origin] good
      by (auto simp: good_link_def)
    then show ?thesis by (intro new_claims_none) (simp add: client_call claims_def)
  next
    case False
    then show ?thesis
      using xc_call_posts [of "cHost L" "cOut L" "vPara L" c "mClient m" origin] good
      unfolding client_call by (intro new_claims_client) (auto simp: good_link_def)
  qed
next
  case (service_call origin c)
  then show ?thesis
    using good by (auto simp: good_link_def same_codec_def intro!: new_claims_service_only sv_call_honest)
next
  case (ask xs bs ys n w)
  show ?thesis
    unfolding ask
  proof (rule new_claims_service [of m xs "[bs]"])
    show "sv_honest (vHost L) (cHost L) (vOut L) (cPara L)
        (\<lambda>d. asked_in (vHost L) d [bs] @ held (cPara L) (mService m) d) (mService m)
        (snd (sv_handle_xcmp_messages (vHost L) (vConfig L) (mService m) [(cPara L, n, bs)] w))"
      by (rule agreed_ask_honest [OF _ _ agreed ask(3)]) (use good in \<open>simp_all add: good_link_def\<close>)
  qed (simp add: ask)
next
  case (answer xs bs ys n w)
  then show ?thesis
    using xc_answer_posts [of "cHost L" "cOut L" "vPara L" "mClient m" "vPara L" n bs w] good
    by (intro new_claims_none) (auto simp: good_link_def claims_def)
next
  case (foreign q bs n w)
  then show ?thesis
    using good by (auto simp: good_link_def same_codec_def intro!: new_claims_service_only sv_foreign_honest)
next
  case (foreign_answer bs q n w)
  then show ?thesis
    using xc_answer_posts [of "cHost L" "cOut L" "vPara L" "mClient m" q n bs w] good
    by (intro new_claims_none) (auto simp: good_link_def claims_def)
next
  case (client_killed a)
  have "xWorld (xc_on_killed_account (mClient m) a) = xWorld (mClient m)"
    by (simp add: xc_on_killed_account_def split: option.split)
  then show ?thesis by (intro new_claims_none) (simp add: client_killed claims_def posted_same)
next
  case (service_killed a)
  then show ?thesis by (auto intro: new_claims_service_only sv_killed_honest)
next
  case (client_world w)
  then show ?thesis by (intro new_claims_none) (simp add: claims_def posted_same)
next
  case (service_world v)
  then show ?thesis by (auto simp: posted_same intro!: new_claims_service_only sv_honest_quiet)
qed

section \<open>The invariant\<close>

definition addressed :: "('o, 'p, 'a, 'd, 'w, 'v) link \<Rightarrow> ('a, 'd, 'w, 'v) market \<Rightarrow> bool" where
  "addressed L m \<longleftrightarrow> (\<forall>d. claims L m d \<noteq> [] \<longrightarrow> map_option xp_para_id (xDevice (mClient m) d) = Some (vPara L))"

lemma agreed_open:
  assumes "agreed L m" "claims L m d \<noteq> []"
  shows "xOrders (mClient m) d \<noteq> None"
  using agreedD [OF assms(1), of d] assms(2) by (auto simp: honest_def)

lemma xc_para_kept:
  assumes "reachable xc_init (xc_step H) s" "t = s \<or> xc_step H s k t" "xOrders s d \<noteq> None" "xOrders t d \<noteq> None"
  shows "map_option xp_para_id (xDevice t d) = map_option xp_para_id (xDevice s d)"
  using assms(2)
proof
  assume "xc_step H s k t"
  from xc_open_terms_fixed [OF assms(1) this assms(3)] assms(4) have "xc_terms t d = xc_terms s d" by blast
  then have "map_option (\<lambda>p. (xp_penalty p, xp_wcd p, xp_para_id p)) (xDevice t d)
      = map_option (\<lambda>p. (xp_penalty p, xp_wcd p, xp_para_id p)) (xDevice s d)"
    by (simp add: xc_terms_def)
  then show ?thesis by (cases "xDevice t d"; cases "xDevice s d") simp_all
qed simp

lemma addressed_step:
  assumes good: "good_link L" and reach: "reachable market_init (market_step L) m"
    and step: "market_step L m l t" and addressed: "addressed L m"
  shows "addressed L t"
  unfolding addressed_def
proof (intro allI impI)
  fix d
  assume claim: "claims L t d \<noteq> []"
  have agreed: "agreed L m" by (rule agreed_reachable [OF good reach])
  show "map_option xp_para_id (xDevice (mClient t) d) = Some (vPara L)"
  proof (cases "claims L m d")
    case Nil
    with claim market_new_claims [OF good agreed step] show ?thesis by (simp add: new_claims_def)
  next
    case (Cons x xs)
    then have open_m: "xOrders (mClient m) d \<noteq> None" using agreed_open [OF agreed, of d] by simp
    have open_t: "xOrders (mClient t) d \<noteq> None"
      by (rule agreed_open [OF agreed_step [OF good step agreed] claim])
    obtain k where k: "mClient t = mClient m \<or> xc_step (cHost L) (mClient m) k (mClient t)"
      using market_client_step [OF step] by metis
    have "map_option xp_para_id (xDevice (mClient m) d) = Some (vPara L)"
      using addressed Cons by (simp add: addressed_def)
    then show ?thesis
      by (simp only: xc_para_kept [OF market_client_reachable [OF reach] k open_m open_t])
  qed
qed

lemma addressed_reachable:
  assumes "good_link L"
  shows "reachable market_init (market_step L) m \<Longrightarrow> addressed L m"
proof (induction rule: reachable.induct)
  case (reachable_init m)
  then show ?case by (simp add: market_init_def addressed_def claims_def sv_init_def)
next
  case (reachable_step m l t)
  show ?case by (rule addressed_step [OF assms reachable_step.hyps reachable_step.IH])
qed

end
