(* ===== verification/Market_Progress.thy ===== *)
theory Market_Progress
  imports Market_System
begin

text \<open>
  Progress of the two chains.  A step of progress delivers a message in flight or is a
  successful decision about a device of the service: acceptance, rejection, completion or
  cancellation.  Each lowers a measure, the work left: messages in flight, open orders and
  engaged devices of the service, suitably weighed.  A system whose accounts can sign comes to
  rest with nothing in flight and no order of another parachain open.
\<close>

section \<open>The work left at the service\<close>

fun engagement :: "DeviceState \<Rightarrow> nat" where
  "engagement Busy = 3"
| "engagement Accepted = 1"
| "engagement _ = 0"

definition sv_load :: "('a, 'd, 'w) service \<Rightarrow> nat" where
  "sv_load s = map_total (sOrders s) (\<lambda>oo. 2) + map_total (sDevice s) (\<lambda>dev. engagement (sp_state dev))"

definition sv_finite :: "('a, 'd, 'w) service \<Rightarrow> bool" where
  "sv_finite s \<longleftrightarrow> finite (dom (sOrders s)) \<and> finite (dom (sDevice s))"

lemma sv_load_same: "sOrders t = sOrders s \<Longrightarrow> sDevice t = sDevice s \<Longrightarrow> sv_load t = sv_load s"
  by (simp add: sv_load_def)

lemma sv_finite_world [simp]: "sv_finite (s\<lparr>sWorld := w\<rparr>) = sv_finite s"
  by (simp add: sv_finite_def)

lemma sv_load_device:
  assumes "sv_finite s" "sDevice s d = Some dev" "sDevice t = (sDevice s)(d \<mapsto> dev')"
  shows "map_total (sDevice t) (\<lambda>dev. engagement (sp_state dev)) + engagement (sp_state dev)
    = map_total (sDevice s) (\<lambda>dev. engagement (sp_state dev)) + engagement (sp_state dev')"
  using map_total_update [of "sDevice s" d dev' "\<lambda>dev. engagement (sp_state dev)"] assms
  by (simp add: sv_finite_def)

text \<open>An order taken by a device, a device that changes state, an order that goes.\<close>

lemma sv_load_take:
  assumes "sv_finite s" "sDevice s d = Some dev" "sOrders s d = None"
    and "sDevice t = (sDevice s)(d \<mapsto> dev')" "sOrders t = (sOrders s)(d \<mapsto> oo)"
  shows "sv_load t + engagement (sp_state dev) = sv_load s + 2 + engagement (sp_state dev')"
  using sv_load_device [OF assms(1,2,4)] map_total_insert [of "sOrders s" d oo "\<lambda>oo. 2"] assms
  by (simp add: sv_load_def sv_finite_def)

lemma sv_load_switch:
  assumes "sv_finite s" "sDevice s d = Some dev"
    and "sDevice t = (sDevice s)(d \<mapsto> dev')" "sOrders t = sOrders s"
  shows "sv_load t + engagement (sp_state dev) = sv_load s + engagement (sp_state dev')"
  using sv_load_device [OF assms(1-3)] assms(4) by (simp add: sv_load_def)

lemma sv_load_drop:
  assumes "sv_finite s" "sDevice s d = Some dev" "sOrders s d = Some oo"
    and "sDevice t = (sDevice s)(d \<mapsto> dev')" "sOrders t = (sOrders s)(d := None)"
  shows "sv_load t + engagement (sp_state dev) + 2 = sv_load s + engagement (sp_state dev')"
  using sv_load_device [OF assms(1,2,4)] map_total_delete [of "sOrders s" d oo "\<lambda>oo. 2"] assms
  by (simp add: sv_load_def sv_finite_def)

section \<open>Messages and decisions\<close>

lemma sv_received_load:
  assumes "outbox_laws K out" "sv_finite s"
  shows "sv_load (snd (sv_order_received K C s oo d))
    + length (posted out p (sWorld s) (sWorld (snd (sv_order_received K C s oo d)))) \<le> sv_load s + 5"
  using sv_received_posts [OF assms(1) refl, of C s oo d p]
proof (elim disjE conjE exE)
  fix dev st
  assume o: "sOrders s d = None" "sDevice s d = Some dev" "sp_state dev = Ready"
    "sOrders (snd (sv_order_received K C s oo d)) = (sOrders s)(d \<mapsto> oo)"
    "sDevice (snd (sv_order_received K C s oo d)) = (sDevice s)(d \<mapsto> dev\<lparr>sp_state := st\<rparr>)"
    and p: "posted out p (sWorld s) (sWorld (snd (sv_order_received K C s oo d))) = []"
  from sv_load_take [OF assms(2) o(2,1,5,4)] o(3) p show ?thesis by (cases st) simp_all
next
  fix dev st
  assume o: "sOrders s d = None" "sDevice s d = Some dev" "sp_state dev = Ready"
    "sOrders (snd (sv_order_received K C s oo d)) = (sOrders s)(d \<mapsto> oo)"
    "sDevice (snd (sv_order_received K C s oo d)) = (sDevice s)(d \<mapsto> dev\<lparr>sp_state := st\<rparr>)"
    and p: "st = Accepted" "posted out p (sWorld s) (sWorld (snd (sv_order_received K C s oo d)))
      = [encode_message K (OrderAccept (o_client oo) d)]"
  from sv_load_take [OF assms(2) o(2,1,5,4)] o(3) p show ?thesis by simp
next
  assume "sDevice (snd (sv_order_received K C s oo d)) = sDevice s"
    "sOrders (snd (sv_order_received K C s oo d)) = sOrders s"
    and p: "posted out p (sWorld s) (sWorld (snd (sv_order_received K C s oo d))) = []"
  then have "sv_load (snd (sv_order_received K C s oo d)) = sv_load s" by (intro sv_load_same)
  with p show ?thesis by simp
qed

lemma sv_ask_load:
  assumes "outbox_laws K out" "sv_finite s"
  shows "sv_load (snd (sv_handle_xcmp_messages K C s [(q, n, bs)] w))
    + length (posted out p (sWorld s) (sWorld (snd (sv_handle_xcmp_messages K C s [(q, n, bs)] w))))
    \<le> sv_load s + 5"
  using sv_received_load [OF assms, of C _ _ p]
  by (auto simp: sv_handle_xcmp_messages.simps sv_handle_one_def posted_same split: sum.split XCMPMessage.split)

lemma sv_reject_load:
  assumes laws: "outbox_laws K out" and fin: "sv_finite s" and dev: "sDevice s d = Some dev"
    and ok: "sv_order_reject K C s (sOrders s d) now d dev' b = (Inr (), t)"
    and less: "engagement (sp_state dev') < engagement (sp_state dev)
      \<or> sOrders s d \<noteq> None \<and> engagement (sp_state dev') = engagement (sp_state dev)"
  shows "sv_load t + length (posted out p (sWorld s) (sWorld t)) < sv_load s"
proof (cases "sOrders s d")
  case None
  with ok have t: "t = sv_close_rejected s d dev'" by (simp add: sv_order_reject_def)
  have "sOrders t = sOrders s" using None by (simp add: t fun_upd_idem)
  with sv_load_switch [OF fin dev, of t dev'] less None show ?thesis by (simp add: t posted_same)
next
  case (Some oo)
  from sv_reject_posts [OF laws refl, of C s d now dev' b p] ok
  have "length (posted out p (sWorld s) (sWorld t)) \<le> 1" by auto
  with sv_load_drop [OF fin dev Some, of t dev'] sv_order_reject_ok_simps [OF ok] less
  show ?thesis by auto
qed

lemma sv_accept_load:
  assumes laws: "outbox_laws K out" and fin: "sv_finite s"
    and ok: "sv_accept K C s origin reject onoff = (Inr (), t)"
  shows "sv_load t + length (posted out p (sWorld s) (sWorld t)) < sv_load s"
proof (cases reject)
  case True
  with ok obtain d dev where o: "sDevice s d = Some dev" "sp_state dev = Busy \<or> sp_state dev = Accepted"
    and r: "sv_order_reject K C s (sOrders s d) (timestamp_get K (sWorld s)) d
      (dev\<lparr>sp_state := (if onoff then Ready else Off)\<rparr>) onoff = (Inr (), t)"
    by (auto simp: sv_accept_def Let_def split: sum.splits option.splits if_splits)
  have "engagement (if onoff then Ready else Off) < engagement (sp_state dev)" using o(2) by auto
  then show ?thesis using sv_reject_load [OF laws fin o(1) r, of p] by simp
next
  case False
  with ok obtain d dev oo where o: "sDevice s d = Some dev" "sp_state dev = Busy"
    and t: "t = sv_order_accept K C s oo d dev"
    by (auto simp: sv_accept_def Let_def split: sum.splits option.splits if_splits)
  have "length (posted out p (sWorld s) (sWorld t)) \<le> 1"
    using sv_send_posts [OF laws refl, of p s "o_paraid oo" "OrderAccept (o_client oo) d"]
    by (auto simp: t posted_same simp del: sv_send_simps(4))
  with sv_load_switch [OF fin o(1), of t "dev\<lparr>sp_state := Accepted\<rparr>"] o(2) show ?thesis by (simp add: t)
qed

lemma sv_done_load:
  assumes laws: "outbox_laws K out" and fin: "sv_finite s"
    and ok: "sv_done K C s origin onoff = (Inr (), t)"
  shows "sv_load t + length (posted out p (sWorld s) (sWorld t)) < sv_load s"
  using sv_done_posts [OF laws ok, of p]
proof (elim disjE exE)
  fix d dev oo
  assume o: "sDevice s d = Some dev \<and> sp_state dev = Accepted \<and> sOrders s d = Some oo
    \<and> sDevice t = (sDevice s)(d \<mapsto> dev\<lparr>sp_state := (if onoff then Ready else Off)\<rparr>)
    \<and> sOrders t = (sOrders s)(d := None)
    \<and> (posted out p (sWorld s) (sWorld t) = [] \<or> o_paraid oo = p
      \<and> posted out p (sWorld s) (sWorld t) = [encode_message K (OrderDone (o_client oo) d onoff)])"
  then have "sv_load t + engagement (sp_state dev) + 2
      = sv_load s + engagement (sp_state (dev\<lparr>sp_state := (if onoff then Ready else Off)\<rparr>))"
    by (intro sv_load_drop [OF fin]) auto
  with o show ?thesis by (auto split: if_splits)
next
  assume "t = s"
  moreover have "t \<noteq> s"
  proof -
    obtain d oo where "sOrders s d = Some oo" "sOrders t d = None"
      using ok by (auto simp: sv_done_def sv_order_done_def Let_def split: result_splits)
    then show ?thesis by auto
  qed
  ultimately show ?thesis by simp
qed

lemma sv_cancel_load:
  assumes laws: "outbox_laws K out" and fin: "sv_finite s"
    and ok: "sv_cancel K C s origin d = (Inr (), t)"
  shows "sv_load t + length (posted out p (sWorld s) (sWorld t)) < sv_load s"
proof -
  obtain oo dev where o: "sOrders s d = Some oo" "sDevice s d = Some dev"
    and r: "sv_order_reject K C s (sOrders s d) (timestamp_get K (sWorld s)) d dev False = (Inr (), t)"
    using ok by (auto simp: sv_cancel_def Let_def split: result_splits)
  show ?thesis by (rule sv_reject_load [OF laws fin o(2) r]) (simp add: o)
qed

section \<open>Progress of the market\<close>

fun sv_decides :: "('a, 'd) sv_Call \<Rightarrow> bool" where
  "sv_decides (sv_call_cancel d) = True"
| "sv_decides (sv_call_accept reject onoff) = True"
| "sv_decides (sv_call_done onoff) = True"
| "sv_decides _ = False"

inductive market_progress ::
  "('o, 'p, 'a, 'd, 'w, 'v) link \<Rightarrow> ('a, 'd, 'w, 'v) market \<Rightarrow> ('a, 'd, 'w, 'v) market \<Rightarrow> bool"
  for L :: "('o, 'p, 'a, 'd, 'w, 'v) link"
where
  progress_ask: "mAsks m = xs @ bs # ys \<Longrightarrow>
    market_progress L m (service_does L (m\<lparr>mAsks := xs @ ys\<rparr>)
      (snd (sv_handle_xcmp_messages (vHost L) (vConfig L) (mService m) [(cPara L, n, bs)] w)))"
| progress_answer: "mAnswers m = xs @ bs # ys \<Longrightarrow>
    market_progress L m (client_does L (m\<lparr>mAnswers := xs @ ys\<rparr>)
      (snd (xc_handle_xcmp_messages (cHost L) (mClient m) [(vPara L, n, bs)] w)))"
| progress_decision: "sv_decides c \<Longrightarrow>
    sv_dispatch (vHost L) (vConfig L) (mService m) origin c = (Inr (), s) \<Longrightarrow>
    market_progress L m (service_does L m s)"

definition market_load :: "('a, 'd, 'w, 'v) market \<Rightarrow> nat" where
  "market_load m = 6 * length (mAsks m) + length (mAnswers m) + sv_load (mService m)"

lemma progress_is_step: "market_progress L m t \<Longrightarrow> \<exists>l. market_step L m l t"
proof (induction rule: market_progress.induct)
  case (progress_decision c m origin s)
  then show ?case using m_service_call [of L m origin c] by auto
qed (blast intro: market_step.intros)+

lemma progress_reachable:
  "(market_progress L)\<^sup>*\<^sup>* m t \<Longrightarrow> reachable market_init (market_step L) m \<Longrightarrow> reachable market_init (market_step L) t"
  by (induction rule: rtranclp_induct) (auto dest!: progress_is_step intro: reachable_step)

lemma sv_decision_load:
  assumes "outbox_laws K out" "sv_finite s" "sv_decides c" "sv_dispatch K C s origin c = (Inr (), t)"
  shows "sv_load t + length (posted out p (sWorld s) (sWorld t)) < sv_load s"
  using assms(3,4) sv_cancel_load [OF assms(1,2)] sv_accept_load [OF assms(1,2)] sv_done_load [OF assms(1,2)]
  by (cases c) simp_all

lemma market_load_falls:
  assumes good: "good_link L"
  shows "market_progress L m t \<Longrightarrow> sv_finite (mService m) \<Longrightarrow> market_load t < market_load m"
proof (induction rule: market_progress.induct)
  case (progress_ask m xs bs ys n w)
  with good show ?case
    using sv_ask_load [of "vHost L" "vOut L" "mService m" "vConfig L" "cPara L" n bs w "cPara L"]
    by (simp add: market_load_def good_link_def)
next
  case (progress_answer m xs bs ys n w)
  with good show ?case
    using xc_answer_posts [of "cHost L" "cOut L" "vPara L" "mClient m" "vPara L" n bs w]
    by (simp add: market_load_def good_link_def)
next
  case (progress_decision c m origin s)
  with good show ?case
    using sv_decision_load [of "vHost L" "vOut L" "mService m" c "vConfig L" origin s "cPara L"]
    by (simp add: market_load_def good_link_def)
qed

section \<open>Finite storage of the service\<close>

definition sv_points :: "('a, 'd, 'w) service \<Rightarrow> ('a, 'd, 'w) service \<Rightarrow> bool" where
  "sv_points s t \<longleftrightarrow> (\<exists>d. dom (sDevice t) \<subseteq> insert d (dom (sDevice s)) \<and> dom (sOrders t) \<subseteq> insert d (dom (sOrders s)))"

lemma sv_points_finite: "sv_points s t \<Longrightarrow> sv_finite s \<Longrightarrow> sv_finite t"
  by (auto simp: sv_points_def sv_finite_def intro: finite_subset)

lemma sv_pointsI:
  "sDevice t \<in> {sDevice s, (sDevice s)(d := x)} \<Longrightarrow> sOrders t \<in> {sOrders s, (sOrders s)(d := y)} \<Longrightarrow> sv_points s t"
  unfolding sv_points_def by (rule exI [of _ d]) (auto split: if_splits)

lemma sv_received_points: "sv_points s (snd (sv_order_received H C s oo d))"
  by (auto simp: sv_order_received_def Let_def intro!: sv_pointsI split: result_splits)

lemma sv_call_points: "sv_points s (snd (sv_dispatch H C s origin c))"
proof (cases c)
  case (sv_call_order ob)
  then show ?thesis
    using sv_received_points [of s H C _ "ob_device ob"] sv_pointsI [of s s]
    by (auto simp: sv_order_def split: sum.split)
qed (auto simp: sv_calls Let_def intro!: sv_pointsI split: result_splits)

lemma sv_deliver_finite: "sv_finite s \<Longrightarrow> sv_finite (snd (sv_handle_xcmp_messages H C s msgs w))"
proof (induction msgs arbitrary: s)
  case (Cons m msgs)
  obtain sender n data where m: "m = (sender, n, data)" by (cases m)
  show ?case
  proof (cases "sv_handle_one H C s sender data")
    case (Some t)
    then have "sv_points s t"
      using sv_received_points [of s H C]
      by (auto simp: sv_handle_one_def split: sum.splits XCMPMessage.splits)
    then show ?thesis
      using Cons Some sv_points_finite [of s t] by (simp add: m sv_handle_xcmp_messages.simps)
  qed (simp add: m sv_handle_xcmp_messages.simps Cons.prems)
qed (simp add: sv_handle_xcmp_messages.simps)

lemma sv_killed_points: "sv_points s (sv_on_killed_account s a)"
  by (auto simp: sv_on_killed_account_def intro!: sv_pointsI split: result_splits)

lemma sv_finite_step: "sv_step H C s l t \<Longrightarrow> sv_finite s \<Longrightarrow> sv_finite t"
proof (induction rule: sv_step.induct)
  case (sstep_call s origin c)
  then show ?case by (intro sv_points_finite [OF sv_call_points])
next
  case (sstep_killed s a)
  then show ?case by (intro sv_points_finite [OF sv_killed_points])
qed (simp_all add: sv_deliver_finite)

lemma market_service_step:
  assumes "market_step L m l t"
  shows "mService t = mService m \<or> (\<exists>k. sv_step (vHost L) (vConfig L) (mService m) k (mService t))"
  using assms
proof (cases rule: market_stepE)
  case (service_call origin c)
  have "sv_step (vHost L) (vConfig L) (mService m) (SCall origin c) (mService t)"
    unfolding service_call service_does_simps by (rule sstep_call)
  then show ?thesis by blast
next
  case (ask xs bs ys n w)
  have "sv_step (vHost L) (vConfig L) (mService m) (SDeliver [(cPara L, n, bs)] w) (mService t)"
    unfolding ask service_does_simps by (rule sstep_deliver)
  then show ?thesis by blast
next
  case (foreign q bs n w)
  have "sv_step (vHost L) (vConfig L) (mService m) (SDeliver [(q, n, bs)] w) (mService t)"
    unfolding foreign service_does_simps by (rule sstep_deliver)
  then show ?thesis by blast
next
  case (service_killed a)
  have "sv_step (vHost L) (vConfig L) (mService m) (SKilled a) (mService t)"
    unfolding service_killed service_does_simps by (rule sstep_killed)
  then show ?thesis by blast
next
  case (service_world v)
  have "sv_step (vHost L) (vConfig L) (mService m) SEnvironment (mService t)"
    unfolding service_world service_does_simps by (rule sstep_environment)
  then show ?thesis by blast
qed simp_all

lemma market_service_reachable:
  "reachable market_init (market_step L) m \<Longrightarrow> reachable sv_init (sv_step (vHost L) (vConfig L)) (mService m)"
proof (induction rule: reachable.induct)
  case (reachable_init m)
  then show ?case by (simp add: market_init_def reachable.reachable_init)
next
  case (reachable_step m l t)
  with market_service_step [OF reachable_step.hyps(2)] show ?case by (metis reachable.reachable_step)
qed

lemma sv_finite_init: "sv_init s \<Longrightarrow> sv_finite s"
  by (simp add: sv_init_def sv_finite_def)

interpretation sv_storage: transition_system sv_init "sv_step H C" sv_finite
  by unfold_locales (erule sv_finite_init, rule sv_finite_step)

lemma market_finite: "reachable market_init (market_step L) m \<Longrightarrow> sv_finite (mService m)"
  by (rule sv_storage.inv_reachable [OF market_service_reachable])

interpretation market_run: progress_system "market_progress L"
    "\<lambda>m. good_link L \<and> reachable market_init (market_step L) m" market_load
  by unfold_locales
    (blast dest: progress_is_step intro: reachable_step, blast intro: market_load_falls market_finite)

section \<open>At rest\<close>

definition signs :: "('o, 'a, 'd, 'w) host \<Rightarrow> bool" where
  "signs H \<longleftrightarrow> (\<forall>a. \<exists>origin. ensure_signed H origin = Inr a)"

definition at_rest :: "('o, 'p, 'a, 'd, 'w, 'v) link \<Rightarrow> ('a, 'd, 'w, 'v) market \<Rightarrow> bool" where
  "at_rest L m \<longleftrightarrow> mAsks m = [] \<and> mAnswers m = []
     \<and> (\<forall>d oo. sOrders (mService m) d = Some oo \<longrightarrow> o_paraid oo = vPara L)"

lemma at_rest_claims: "good_link L \<Longrightarrow> at_rest L m \<Longrightarrow> claims L m d = []"
  by (auto simp: at_rest_def claims_def held_def good_link_def split: option.split)

text \<open>A device with an order of another parachain can reject it.\<close>

lemma sv_remote_reject:
  assumes "ensure_signed K origin = Inr d" "sDevice s d = Some dev" "sp_state dev = Busy \<or> sp_state dev = Accepted"
    and "sOrders s d = Some oo" "o_paraid oo \<noteq> SelfParaId C"
  shows "\<exists>t. sv_dispatch K C s origin (sv_call_accept True onoff) = (Inr (), t)"
  using assms by (auto simp: sv_accept_def Let_def sv_order_reject_remote)

lemma stuck_at_rest:
  assumes policy: "order_policy (OnReceived (vConfig L))" and signs: "signs (vHost L)"
    and reach: "reachable market_init (market_step L) m" and stuck: "\<And>t. \<not> market_progress L m t"
  shows "at_rest L m"
proof -
  have "mAsks m = []"
    using stuck progress_ask [of m "[]" _ _ L 0 0] by (cases "mAsks m") auto
  moreover have "mAnswers m = []"
    using stuck progress_answer [of m "[]" _ _ L 0 0] by (cases "mAnswers m") auto
  moreover have "o_paraid oo = vPara L" if oo: "sOrders (mService m) d = Some oo" for d oo
  proof (rule ccontr)
    assume remote: "o_paraid oo \<noteq> vPara L"
    have "sv_market (vConfig L)" by (rule sv_market.intro [OF policy])
    from sv_market.open_order_device [OF this market_service_reachable [OF reach] oo]
    obtain dev where dev: "sDevice (mService m) d = Some dev" "sp_state dev = Busy \<or> sp_state dev = Accepted"
      by blast
    obtain origin where origin: "ensure_signed (vHost L) origin = Inr d" using signs by (auto simp: signs_def)
    from sv_remote_reject [OF origin dev oo remote, of False] stuck show False
      using progress_decision [of "sv_call_accept True False" L m origin] by auto
  qed
  ultimately show ?thesis by (simp add: at_rest_def)
qed

lemma market_can_rest:
  assumes "good_link L" "order_policy (OnReceived (vConfig L))" "signs (vHost L)"
    and "reachable market_init (market_step L) m"
  shows "\<exists>t. (market_progress L)\<^sup>*\<^sup>* m t \<and> reachable market_init (market_step L) t \<and> at_rest L t"
  using market_run.comes_to_rest [of L m] stuck_at_rest [OF assms(2,3)] assms(1,4) by blast

end
