(* ===== verification/Market_Web.thy ===== *)
theory Market_Web
  imports Market_Address Market_Progress
begin

text \<open>
  Any number of client chains and service chains: every client chain orders from all services
  its devices are registered for, every service serves all client chains.  A message posted for
  a chain is in flight on the channel between the two until it is delivered.  For each pair of a
  client and a service the whole web is a run of the two-chain system (\<open>web_pair_step\<close>): what
  the pair does not see is a message or an answer of a further chain to it.  The client pallet
  trusts every sender, so this rests on the agreement of the other pairs and on their claims
  being addressed.
\<close>

section \<open>The web\<close>

text \<open>The chains, by their parachain ids, with their hosts and the services' policies.\<close>

record ('o, 'p, 'a, 'd, 'w, 'v) web =
  wClients :: "para_id set"
  wServices :: "para_id set"
  wCHost :: "para_id \<Rightarrow> ('o, 'a, 'd, 'w) host"
  wCOut :: "para_id \<Rightarrow> 'w \<Rightarrow> outbox"
  wVHost :: "para_id \<Rightarrow> ('p, 'a, 'd, 'v) host"
  wVOut :: "para_id \<Rightarrow> 'v \<Rightarrow> outbox"
  wPolicy :: "para_id \<Rightarrow> 'a \<Rightarrow> ('a, 'd) Order \<Rightarrow> DeviceState option"

definition wConfig :: "('o, 'p, 'a, 'd, 'w, 'v) web \<Rightarrow> para_id \<Rightarrow> ('a, 'd) sv_Config" where
  "wConfig W q = \<lparr>SelfParaId = q, OnReceived = wPolicy W q\<rparr>"

definition wlink :: "('o, 'p, 'a, 'd, 'w, 'v) web \<Rightarrow> para_id \<Rightarrow> para_id \<Rightarrow> ('o, 'p, 'a, 'd, 'w, 'v) link" where
  "wlink W p q = \<lparr>cHost = wCHost W p, cOut = wCOut W p, cPara = p,
     vHost = wVHost W q, vOut = wVOut W q, vConfig = wConfig W q\<rparr>"

lemma wlink_simps [simp]:
  "cHost (wlink W p q) = wCHost W p" "cOut (wlink W p q) = wCOut W p" "cPara (wlink W p q) = p"
  "vHost (wlink W p q) = wVHost W q" "vOut (wlink W p q) = wVOut W q" "vConfig (wlink W p q) = wConfig W q"
  "SelfParaId (wConfig W q) = q" "OnReceived (wConfig W q) = wPolicy W q"
  by (simp_all add: wlink_def wConfig_def)

text \<open>Parachain 200 gets the calls of \<open>test\<close>; it is no service.\<close>

definition good_web :: "('o, 'p, 'a, 'd, 'w, 'v) web \<Rightarrow> bool" where
  "good_web W \<longleftrightarrow> wClients W \<inter> wServices W = {} \<and> 200 \<notin> wServices W
     \<and> (\<forall>p\<in>wClients W. outbox_laws (wCHost W p) (wCOut W p))
     \<and> (\<forall>q\<in>wServices W. outbox_laws (wVHost W q) (wVOut W q))
     \<and> (\<forall>p\<in>wClients W. \<forall>q\<in>wServices W.
          same_codec (wCHost W p) (wVHost W q) \<and> same_codec (wVHost W q) (wCHost W p))"

text \<open>A channel leads from one parachain to another.\<close>

record ('a, 'd, 'w, 'v) network =
  nClient :: "para_id \<Rightarrow> ('a, 'd, 'w) xchange"
  nService :: "para_id \<Rightarrow> ('a, 'd, 'v) service"
  nFlight :: "para_id \<Rightarrow> para_id \<Rightarrow> bytes list"

definition net_init :: "('a, 'd, 'w, 'v) network \<Rightarrow> bool" where
  "net_init n \<longleftrightarrow> (\<forall>p. xc_init (nClient n p)) \<and> (\<forall>q. sv_init (nService n q)) \<and> (\<forall>a b. nFlight n a b = [])"

definition client_acts ::
  "('o, 'p, 'a, 'd, 'w, 'v) web \<Rightarrow> ('a, 'd, 'w, 'v) network \<Rightarrow> para_id \<Rightarrow> ('a, 'd, 'w) xchange
     \<Rightarrow> ('a, 'd, 'w, 'v) network" where
  "client_acts W n p x = n\<lparr>nClient := (nClient n)(p := x),
     nFlight := (nFlight n)(p := \<lambda>b. nFlight n p b @ posted (wCOut W p) b (xWorld (nClient n p)) (xWorld x))\<rparr>"

definition service_acts ::
  "('o, 'p, 'a, 'd, 'w, 'v) web \<Rightarrow> ('a, 'd, 'w, 'v) network \<Rightarrow> para_id \<Rightarrow> ('a, 'd, 'v) service
     \<Rightarrow> ('a, 'd, 'w, 'v) network" where
  "service_acts W n q y = n\<lparr>nService := (nService n)(q := y),
     nFlight := (nFlight n)(q := \<lambda>b. nFlight n q b @ posted (wVOut W q) b (sWorld (nService n q)) (sWorld y))\<rparr>"

text \<open>The channel from \<open>a\<close> to \<open>b\<close>, replaced.\<close>

definition set_flight ::
  "('a, 'd, 'w, 'v) network \<Rightarrow> para_id \<Rightarrow> para_id \<Rightarrow> bytes list \<Rightarrow> ('a, 'd, 'w, 'v) network" where
  "set_flight n a b msgs = n\<lparr>nFlight := (nFlight n)(a := (nFlight n a)(b := msgs))\<rparr>"

text \<open>What a client and a service see of the web.\<close>

definition pair :: "para_id \<Rightarrow> para_id \<Rightarrow> ('a, 'd, 'w, 'v) network \<Rightarrow> ('a, 'd, 'w, 'v) market" where
  "pair p q n = \<lparr>mClient = nClient n p, mService = nService n q, mAsks = nFlight n p q, mAnswers = nFlight n q p\<rparr>"

lemma pair_simps [simp]:
  "mClient (pair p q n) = nClient n p" "mService (pair p q n) = nService n q"
  "mAsks (pair p q n) = nFlight n p q" "mAnswers (pair p q n) = nFlight n q p"
  by (simp_all add: pair_def)

lemma pair_client_acts:
  assumes "p \<noteq> q" "p' \<noteq> q"
  shows "pair p q (client_acts W n p' x)
      = (if p' = p then client_does (wlink W p q) (pair p q n) x else pair p q n)"
  using assms by (auto simp: pair_def client_acts_def client_does_def fun_upd_def)

lemma pair_service_acts:
  assumes "p \<noteq> q" "q' \<noteq> p"
  shows "pair p q (service_acts W n q' y)
      = (if q' = q then service_does (wlink W p q) (pair p q n) y else pair p q n)"
  using assms by (auto simp: pair_def service_acts_def service_does_def fun_upd_def)

lemma pair_set_flight:
  "p \<noteq> q \<Longrightarrow> pair p q (set_flight n p q msgs) = (pair p q n)\<lparr>mAsks := msgs\<rparr>"
  "p \<noteq> q \<Longrightarrow> pair p q (set_flight n q p msgs) = (pair p q n)\<lparr>mAnswers := msgs\<rparr>"
  "(a \<noteq> p \<or> b \<noteq> q) \<and> (a \<noteq> q \<or> b \<noteq> p) \<Longrightarrow> pair p q (set_flight n a b msgs) = pair p q n"
  by (auto simp: pair_def set_flight_def)

lemma set_flight_sel [simp]:
  "nClient (set_flight n a b msgs) = nClient n" "nService (set_flight n a b msgs) = nService n"
  by (simp_all add: set_flight_def)

section \<open>Steps\<close>

datatype ('o, 'p, 'a, 'd, 'w, 'v) net_label =
  NClientCall para_id 'o "('a, 'd) xc_Call"
| NServiceCall para_id 'p "('a, 'd) sv_Call"
| NAsk para_id para_id bytes
| NAnswer para_id para_id bytes
| NForeignAsk para_id para_id bytes
| NClientKilled para_id 'a
| NServiceKilled para_id 'a
| NClientWorld para_id 'w
| NServiceWorld para_id 'v

text \<open>Chains outside the web may ask the services for anything.\<close>

inductive net_step ::
  "('o, 'p, 'a, 'd, 'w, 'v) web \<Rightarrow> ('a, 'd, 'w, 'v) network \<Rightarrow> ('o, 'p, 'a, 'd, 'w, 'v) net_label
     \<Rightarrow> ('a, 'd, 'w, 'v) network \<Rightarrow> bool"
  for W :: "('o, 'p, 'a, 'd, 'w, 'v) web"
where
  n_client_call: "p \<in> wClients W \<Longrightarrow> (\<And>q. q \<in> wServices W \<Longrightarrow> clean (wlink W p q) (pair p q n) c) \<Longrightarrow>
    net_step W n (NClientCall p origin c)
      (client_acts W n p (snd (xc_dispatch (wCHost W p) (nClient n p) origin c)))"
| n_service_call: "q \<in> wServices W \<Longrightarrow>
    net_step W n (NServiceCall q origin' s)
      (service_acts W n q (snd (sv_dispatch (wVHost W q) (wConfig W q) (nService n q) origin' s)))"
| n_ask: "p \<in> wClients W \<Longrightarrow> q \<in> wServices W \<Longrightarrow> nFlight n p q = xs @ bs # ys \<Longrightarrow>
    net_step W n (NAsk p q bs) (service_acts W (set_flight n p q (xs @ ys)) q
      (snd (sv_handle_xcmp_messages (wVHost W q) (wConfig W q) (nService n q) [(p, k, bs)] w)))"
| n_answer: "p \<in> wClients W \<Longrightarrow> q \<in> wServices W \<Longrightarrow> nFlight n q p = xs @ bs # ys \<Longrightarrow>
    net_step W n (NAnswer q p bs) (client_acts W (set_flight n q p (xs @ ys)) p
      (snd (xc_handle_xcmp_messages (wCHost W p) (nClient n p) [(q, k, bs)] w)))"
| n_foreign: "q \<in> wServices W \<Longrightarrow> a \<notin> wClients W \<Longrightarrow>
    net_step W n (NForeignAsk a q bs) (service_acts W n q
      (snd (sv_handle_xcmp_messages (wVHost W q) (wConfig W q) (nService n q) [(a, k, bs)] w)))"
| n_client_killed: "p \<in> wClients W \<Longrightarrow>
    net_step W n (NClientKilled p x) (client_acts W n p (xc_on_killed_account (nClient n p) x))"
| n_service_killed: "q \<in> wServices W \<Longrightarrow>
    net_step W n (NServiceKilled q x) (service_acts W n q (sv_on_killed_account (nService n q) x))"
| n_client_world: "p \<in> wClients W \<Longrightarrow> wCOut W p u = wCOut W p (xWorld (nClient n p)) \<Longrightarrow>
    net_step W n (NClientWorld p u) (client_acts W n p ((nClient n p)\<lparr>xWorld := u\<rparr>))"
| n_service_world: "q \<in> wServices W \<Longrightarrow> wVOut W q v = wVOut W q (sWorld (nService n q)) \<Longrightarrow>
    net_step W n (NServiceWorld q v) (service_acts W n q ((nService n q)\<lparr>sWorld := v\<rparr>))"

text \<open>Steps in which no payout is refused and worlds keep reserves, as for two chains.\<close>

fun net_pays ::
  "('o, 'p, 'a, 'd, 'w, 'v) web \<Rightarrow> ('a, 'd, 'w, 'v) network \<Rightarrow> ('o, 'p, 'a, 'd, 'w, 'v) net_label \<Rightarrow> bool" where
  "net_pays W n (NClientCall p origin c) =
     (case c of xc_call_cancel d \<Rightarrow> \<not> refused (xc_dispatch (wCHost W p) (nClient n p) origin c) | _ \<Rightarrow> True)"
| "net_pays W n (NServiceCall q origin s) =
     (sv_gives_back s \<longrightarrow> \<not> refused (sv_dispatch (wVHost W q) (wConfig W q) (nService n q) origin s))"
| "net_pays W n (NAnswer q p bs) = answer_paid (wCHost W p) (nClient n p) bs"
| "net_pays W n (NClientWorld p u) =
     (\<forall>a. reserved_balance (wCHost W p) (xWorld (nClient n p)) a \<le> reserved_balance (wCHost W p) u a)"
| "net_pays W n (NServiceWorld q v) =
     (\<forall>a. reserved_balance (wVHost W q) (sWorld (nService n q)) a \<le> reserved_balance (wVHost W q) v a)"
| "net_pays W n _ = True"

definition net_sound_step ::
  "('o, 'p, 'a, 'd, 'w, 'v) web \<Rightarrow> ('a, 'd, 'w, 'v) network \<Rightarrow> ('o, 'p, 'a, 'd, 'w, 'v) net_label
     \<Rightarrow> ('a, 'd, 'w, 'v) network \<Rightarrow> bool" where
  "net_sound_step W n l t \<longleftrightarrow> net_step W n l t \<and> net_pays W n l"

section \<open>Every pair is a market\<close>

lemma good_wlink: "good_web W \<Longrightarrow> p \<in> wClients W \<Longrightarrow> q \<in> wServices W \<Longrightarrow> good_link (wlink W p q)"
  by (auto simp: good_web_def good_link_def)

lemma good_web_distinct:
  "good_web W \<Longrightarrow> p \<in> wClients W \<Longrightarrow> q \<in> wServices W \<Longrightarrow> p \<noteq> q"
  by (auto simp: good_web_def)

definition pair_ok :: "('o, 'p, 'a, 'd, 'w, 'v) web \<Rightarrow> ('a, 'd, 'w, 'v) network \<Rightarrow> bool" where
  "pair_ok W n \<longleftrightarrow> (\<forall>p\<in>wClients W. \<forall>q\<in>wServices W. agreed (wlink W p q) (pair p q n)
     \<and> addressed (wlink W p q) (pair p q n))"

text \<open>An answer of one service is a harmless one to every other pair.\<close>

lemma other_answer_foreign:
  assumes ok: "pair_ok W n" and p: "p \<in> wClients W" "q \<in> wServices W" "q' \<in> wServices W" "q' \<noteq> q"
    and bs: "bs \<in> set (nFlight n q' p)"
  shows "foreign_answer (wlink W p q) (pair p q n) bs"
  unfolding foreign_answer_def
proof (intro allI impI)
  fix d c v
  assume a: "answered (cHost (wlink W p q)) d bs = [(c, v)]"
  have agreed: "agreed (wlink W p q') (pair p q' n)" using ok p by (simp add: pair_ok_def)
  have in_flight: "bs \<in> set (mAnswers (pair p q' n))" and answers: "answered (cHost (wlink W p q')) d bs = [(c, v)]"
    using bs a by simp_all
  obtain xs ys where "nFlight n q' p = xs @ bs # ys" using split_list [OF bs] by blast
  then have "claims (wlink W p q') (pair p q' n) d \<noteq> []" using answers by (simp add: claims_def)
  moreover have "addressed (wlink W p q') (pair p q' n)" "addressed (wlink W p q) (pair p q n)"
    using ok p by (simp_all add: pair_ok_def)
  ultimately have "claims (wlink W p q) (pair p q n) d = []"
    using p(4) by (fastforce simp: addressed_def)
  moreover have "\<exists>oo. xOrders (mClient (pair p q' n)) d = Some oo \<and> o_client oo = c"
    by (rule agreed_answer_named [OF agreed in_flight answers])
  ultimately show "claims (wlink W p q) (pair p q n) d = []
      \<and> (\<exists>oo. xOrders (mClient (pair p q n)) d = Some oo \<and> o_client oo = c)"
    by simp
qed

text \<open>The pair stands still or follows with a step of its own, which pays if the web does.\<close>

definition follows ::
  "('o, 'p, 'a, 'd, 'w, 'v) web \<Rightarrow> para_id \<Rightarrow> para_id \<Rightarrow> ('a, 'd, 'w, 'v) network
     \<Rightarrow> ('o, 'p, 'a, 'd, 'w, 'v) net_label \<Rightarrow> ('a, 'd, 'w, 'v) network \<Rightarrow> bool" where
  "follows W p q n l t \<longleftrightarrow> pair p q t = pair p q n \<or> (\<exists>k. market_step (wlink W p q) (pair p q n) k (pair p q t)
     \<and> (net_pays W n l \<longrightarrow> pays (wlink W p q) (pair p q n) k))"

lemma follows_step:
  "market_step (wlink W p q) (pair p q n) k (pair p q t) \<Longrightarrow>
    (net_pays W n l \<Longrightarrow> pays (wlink W p q) (pair p q n) k) \<Longrightarrow> follows W p q n l t"
  by (auto simp: follows_def)

lemma follows_client:
  assumes "p \<noteq> q" "p' \<noteq> q"
    and "p' = p \<Longrightarrow> market_step (wlink W p q) (pair p q n) k (client_does (wlink W p q) (pair p q n) x)
      \<and> (net_pays W n l \<longrightarrow> pays (wlink W p q) (pair p q n) k)"
  shows "follows W p q n l (client_acts W n p' x)"
  using assms(3) pair_client_acts [OF assms(1,2), of W n x]
  by (cases "p' = p") (auto simp: follows_def)

lemma follows_service:
  assumes "p \<noteq> q" "q' \<noteq> p"
    and "q' = q \<Longrightarrow> market_step (wlink W p q) (pair p q n) k (service_does (wlink W p q) (pair p q n) y)
      \<and> (net_pays W n l \<longrightarrow> pays (wlink W p q) (pair p q n) k)"
  shows "follows W p q n l (service_acts W n q' y)"
  using assms(3) pair_service_acts [OF assms(1,2), of W n y]
  by (cases "q' = q") (auto simp: follows_def)

lemma follows_ask:
  assumes "p \<noteq> q" "p' \<noteq> q" "q' \<noteq> p" and flight: "nFlight n p' q' = xs @ bs # ys"
  shows "follows W p q n (NAsk p' q' bs) (service_acts W (set_flight n p' q' (xs @ ys)) q'
    (snd (sv_handle_xcmp_messages (wVHost W q') (wConfig W q') (nService n q') [(p', k, bs)] w)))"
    (is "follows W p q n ?l (service_acts W ?n q' ?y)")
proof (cases "p' = p \<and> q' = q")
  case True
  then have "pair p q (service_acts W ?n q' ?y)
      = service_does (wlink W p q) ((pair p q n)\<lparr>mAsks := xs @ ys\<rparr>) ?y"
    using assms by (simp add: pair_service_acts pair_set_flight)
  then show ?thesis
    using m_ask [of "pair p q n" xs bs ys "wlink W p q" k w] flight True
    by (intro follows_step [where k = "Ask bs"]) simp_all
next
  case False
  then have same: "pair p q ?n = pair p q n" using assms by (intro pair_set_flight) auto
  show ?thesis
  proof (cases "q' = q")
    case True
    then have "pair p q (service_acts W ?n q' ?y) = service_does (wlink W p q) (pair p q n) ?y"
      using assms same by (simp add: pair_service_acts)
    then show ?thesis
      using m_foreign [of p' "wlink W p q" "pair p q n" bs k w] False True
      by (intro follows_step [where k = "ForeignAsk p' bs"]) simp_all
  qed (use assms in \<open>simp add: follows_def pair_service_acts same\<close>)
qed

lemma follows_answer:
  assumes "p \<noteq> q" "p' \<noteq> q" "q' \<noteq> p" and flight: "nFlight n q' p' = xs @ bs # ys"
    and other: "p' = p \<Longrightarrow> q' \<noteq> q \<Longrightarrow> foreign_answer (wlink W p q) (pair p q n) bs"
  shows "follows W p q n (NAnswer q' p' bs) (client_acts W (set_flight n q' p' (xs @ ys)) p'
    (snd (xc_handle_xcmp_messages (wCHost W p') (nClient n p') [(q', k, bs)] w)))"
    (is "follows W p q n ?l (client_acts W ?n p' ?x)")
proof (cases "p' = p \<and> q' = q")
  case True
  then have "pair p q (client_acts W ?n p' ?x)
      = client_does (wlink W p q) ((pair p q n)\<lparr>mAnswers := xs @ ys\<rparr>) ?x"
    using assms by (simp add: pair_client_acts pair_set_flight)
  then show ?thesis
    using m_answer [of "pair p q n" xs bs ys "wlink W p q" k w] flight True
    by (intro follows_step [where k = "Answer bs"]) simp_all
next
  case False
  then have same: "pair p q ?n = pair p q n" using assms by (intro pair_set_flight) auto
  show ?thesis
  proof (cases "p' = p")
    case True
    then have "pair p q (client_acts W ?n p' ?x) = client_does (wlink W p q) (pair p q n) ?x"
      using assms same by (simp add: pair_client_acts)
    then show ?thesis
      using m_foreign_answer [of "wlink W p q" "pair p q n" bs q' k w] other False True
      by (intro follows_step [where k = "ForeignAnswer q' bs"]) simp_all
  qed (use assms in \<open>simp add: follows_def pair_client_acts same\<close>)
qed

lemma net_pair_step:
  assumes good: "good_web W" and p: "p \<in> wClients W" and q: "q \<in> wServices W"
  shows "net_step W n l t \<Longrightarrow> pair_ok W n \<Longrightarrow> follows W p q n l t"
proof (induction rule: net_step.induct)
  case (n_client_call p' n c origin)
  then show ?case
    using m_client_call [of "wlink W p q" "pair p q n" c origin] q good_web_distinct [OF good _ q] p
    by (intro follows_client [where k = "ClientCall origin c"]) (auto split: xc_Call.split)
next
  case (n_service_call q' n origin s)
  then show ?case
    using m_service_call [of "wlink W p q" "pair p q n" origin s] good_web_distinct [OF good p] q
    by (intro follows_service [where k = "ServiceCall origin s"]) auto
next
  case (n_ask p' q' n xs bs ys k w)
  then show ?case
    using good_web_distinct [OF good] p q by (intro follows_ask) auto
next
  case (n_answer p' q' n xs bs ys k w)
  then show ?case
    using good_web_distinct [OF good] p q
    by (intro follows_answer other_answer_foreign [of W n p q q']) auto
next
  case (n_foreign q' a n bs k w)
  then show ?case
    using m_foreign [of a "wlink W p q" "pair p q n" bs k w] good_web_distinct [OF good p] p q
    by (intro follows_service [where k = "ForeignAsk a bs"]) auto
next
  case (n_client_killed p' n x)
  then show ?case
    using m_client_killed [of "wlink W p q" "pair p q n" x] good_web_distinct [OF good _ q] p
    by (intro follows_client [where k = "ClientKilled x"]) auto
next
  case (n_service_killed q' n x)
  then show ?case
    using m_service_killed [of "wlink W p q" "pair p q n" x] good_web_distinct [OF good p] q
    by (intro follows_service [where k = "ServiceKilled x"]) auto
next
  case (n_client_world p' u n)
  then show ?case
    using m_client_world [of "wlink W p q" u "pair p q n"] good_web_distinct [OF good _ q] p
    by (intro follows_client [where k = "ClientWorld u"]) auto
next
  case (n_service_world q' v n)
  then show ?case
    using m_service_world [of "wlink W p q" v "pair p q n"] good_web_distinct [OF good p] q
    by (intro follows_service [where k = "ServiceWorld v"]) auto
qed

section \<open>Runs\<close>

lemma net_init_pair: "net_init n \<Longrightarrow> market_init (pair p q n)"
  by (simp add: net_init_def market_init_def)

lemma follows_reachable:
  assumes "follows W p q n l t" "reachable market_init (market_step (wlink W p q)) (pair p q n)"
  shows "reachable market_init (market_step (wlink W p q)) (pair p q t)"
  using assms by (auto simp: follows_def intro: reachable_step)

lemma pairs_ok:
  assumes "good_web W"
    and "\<And>p q. p \<in> wClients W \<Longrightarrow> q \<in> wServices W \<Longrightarrow> reachable market_init (market_step (wlink W p q)) (pair p q n)"
  shows "pair_ok W n"
  using agreed_reachable [OF good_wlink [OF assms(1)] assms(2)] addressed_reachable [OF good_wlink [OF assms(1)] assms(2)]
  by (simp add: pair_ok_def)

lemma net_pairs_reachable:
  assumes good: "good_web W"
  shows "reachable net_init (net_step W) n \<Longrightarrow> p \<in> wClients W \<Longrightarrow> q \<in> wServices W \<Longrightarrow>
    reachable market_init (market_step (wlink W p q)) (pair p q n)"
proof (induction arbitrary: p q rule: reachable.induct)
  case (reachable_init n)
  then show ?case by (intro reachable.reachable_init net_init_pair)
next
  case (reachable_step n l t)
  have "pair_ok W n" by (rule pairs_ok [OF good reachable_step.IH])
  from net_pair_step [OF good reachable_step.prems reachable_step.hyps(2) this]
  show ?case by (rule follows_reachable) (rule reachable_step.IH [OF reachable_step.prems])
qed

lemma net_sound_reachable:
  "reachable net_init (net_sound_step W) n \<Longrightarrow> reachable net_init (net_step W) n"
  by (induction rule: reachable.induct) (auto simp: net_sound_step_def intro: reachable.intros)

lemma net_ok: "good_web W \<Longrightarrow> reachable net_init (net_step W) n \<Longrightarrow> pair_ok W n"
  by (rule pairs_ok [OF _ net_pairs_reachable])

lemma net_pairs_sound:
  assumes good: "good_web W" and p: "p \<in> wClients W" and q: "q \<in> wServices W"
  shows "reachable net_init (net_sound_step W) n \<Longrightarrow>
    reachable market_init (market_sound_step (wlink W p q)) (pair p q n)"
proof (induction rule: reachable.induct)
  case (reachable_init n)
  then show ?case by (intro reachable.reachable_init net_init_pair)
next
  case (reachable_step n l t)
  have "pair_ok W n" by (rule net_ok [OF good net_sound_reachable [OF reachable_step.hyps(1)]])
  then have "follows W p q n l t"
    using net_pair_step [OF good p q] reachable_step.hyps(2) by (simp add: net_sound_step_def)
  moreover have "net_pays W n l" using reachable_step.hyps(2) by (simp add: net_sound_step_def)
  ultimately show ?case
    using reachable_step.IH
    by (auto simp: follows_def market_sound_step_def intro: reachable.reachable_step)
qed

text \<open>Nothing about a device of a client chain is under way with two services.\<close>

lemma claims_one_service:
  assumes "pair_ok W n" "p \<in> wClients W" "q \<in> wServices W" "q' \<in> wServices W"
    and "claims (wlink W p q) (pair p q n) d \<noteq> []" "claims (wlink W p q') (pair p q' n) d \<noteq> []"
  shows "q = q'"
proof -
  have "addressed (wlink W p q) (pair p q n)" "addressed (wlink W p q') (pair p q' n)"
    using assms(1-4) by (simp_all add: pair_ok_def)
  with assms(5,6) have "map_option xp_para_id (xDevice (nClient n p) d) = Some q"
    "map_option xp_para_id (xDevice (nClient n p) d) = Some q'"
    by (simp_all add: addressed_def)
  then show ?thesis by simp
qed

end
