(* ===== verification/Web_Progress.thy ===== *)
theory Web_Progress
  imports Market_Web
begin

text \<open>
  Progress of the whole web: deliveries and successful decisions, at any chain and in any order,
  use up a finite amount of work, the sum over all services and channels.  The bound needs that
  an operation of a service posts at most one message, to one chain.
\<close>

section \<open>At most one message\<close>

definition posts_once :: "('w \<Rightarrow> outbox) \<Rightarrow> 'w \<Rightarrow> 'w \<Rightarrow> bool" where
  "posts_once out w w' \<longleftrightarrow> out w' = out w \<or> (\<exists>x. out w' = out w @ [x])"

lemma posts_once_same [simp]: "out w' = out w \<Longrightarrow> posts_once out w w'"
  by (simp add: posts_once_def)

lemma letter_one: "\<exists>a. \<forall>b. b \<noteq> a \<longrightarrow> letter b x = []"
proof (cases "\<exists>a n bs. x = ((Parent, Parachain a), [Transact Native n bs])")
  case False
  then have "letter b x = []" for b by (cases "(b, x)" rule: letter.cases) auto
  then show ?thesis by blast
qed auto

lemma posts_once_channel:
  assumes "posts_once out w w'"
  shows "\<exists>a. \<forall>b. b \<noteq> a \<longrightarrow> posted out b w w' = []"
  using assms letter_one by (auto simp: posts_once_def posted_same posted_one)

text \<open>So a bound that holds for each channel holds for all of them together.\<close>

lemma posts_once_total:
  assumes "posts_once out w w'" "finite P" "\<And>p. x + length (posted out p w w') \<le> y"
  shows "x + (\<Sum>p\<in>P. length (posted out p w w')) \<le> y"
proof -
  obtain a where a: "\<And>b. b \<noteq> a \<Longrightarrow> posted out b w w' = []" using posts_once_channel [OF assms(1)] by blast
  have "(\<Sum>p\<in>P. length (posted out p w w')) = (\<Sum>p\<in>P. if p = a then length (posted out a w w') else 0)"
    using a by (intro sum.cong) auto
  also have "\<dots> \<le> length (posted out a w w')" using assms(2) by (simp add: sum.delta)
  finally show ?thesis using assms(3) [of a] by linarith
qed

lemma sv_send_once:
  assumes "outbox_laws K out" "out (sWorld s) = out u"
  shows "posts_once out u (sWorld (sv_send K p m s))"
  using outbox_send [OF assms(1), of "sWorld s" "(Parent, Parachain p)" "[Transact Native 0 (encode_message K m)]"]
    assms(2) by (auto simp: posts_once_def)

lemma sv_accept_once:
  assumes "outbox_laws K out" "out (sWorld s) = out u"
  shows "posts_once out u (sWorld (sv_order_accept K C s oo d dev))"
  using sv_send_once [OF assms] assms(2) by (simp del: sv_send_simps(4))

lemma sv_received_once:
  assumes laws: "outbox_laws K out"
  shows "posts_once out (sWorld s) (sWorld (snd (sv_order_received K C s oo d)))"
proof -
  have store: "posts_once out (sWorld s) (sWorld (sv_store_order K C (s\<lparr>sWorld := w\<rparr>) oo d dev))"
    if "out w = out (sWorld s)" for w dev
    using that sv_send_once [OF laws, of "s\<lparr>sWorld := w\<rparr>" "sWorld s"] by (simp del: sv_send_simps(4))
  show ?thesis
    using store [of "sWorld s"]
    by (auto simp: sv_order_received_def Let_def store simp del: sv_store_order_simps
        dest!: outbox_keeps_eq [OF laws] split: result_splits)
qed

lemma sv_reject_once:
  assumes laws: "outbox_laws K out"
  shows "posts_once out (sWorld s) (sWorld (snd (sv_order_reject K C s oo now d dev b)))"
  using sv_send_once [OF laws, of s "sWorld s"] outbox_keeps(2) [OF laws]
  by (auto simp: sv_order_reject_def sv_close_rejected_def sv_pay_penalty_def Let_def simp del: sv_send_simps(4)
      dest!: outbox_keeps_eq [OF laws] split: result_splits)

lemma sv_done_once:
  assumes laws: "outbox_laws K out"
  shows "posts_once out (sWorld s) (sWorld (snd (sv_done K C s origin onoff)))"
proof -
  have send: "posts_once out (sWorld s) (sWorld (sv_send K p m (s\<lparr>sOrders := f, sDevice := g\<rparr>)))" for p m f g
    by (rule sv_send_once [OF laws]) simp
  show ?thesis
    using send
    by (auto simp: sv_done_def sv_order_done_def sv_pay_penalty_def Let_def outbox_keeps [OF laws]
        simp del: sv_send_simps(4) dest!: outbox_keeps_eq [OF laws] split: result_splits)
qed

lemma sv_decision_once:
  assumes "outbox_laws K out" "sv_decides c"
  shows "posts_once out (sWorld s) (sWorld (snd (sv_dispatch K C s origin c)))"
  using assms(2) sv_done_once [OF assms(1)] sv_reject_once [OF assms(1)] sv_accept_once [OF assms(1) refl]
  by (cases c) (auto simp: sv_accept_def sv_cancel_def Let_def split: result_splits)

lemma sv_ask_once:
  assumes "outbox_laws K out"
  shows "posts_once out (sWorld s) (sWorld (snd (sv_handle_xcmp_messages K C s [(q, n, bs)] w)))"
  using sv_received_once [OF assms]
  by (auto simp: sv_handle_xcmp_messages.simps sv_handle_one_def split: sum.split XCMPMessage.split)

section \<open>The work left in the web\<close>

definition asks_load :: "('o, 'p, 'a, 'd, 'w, 'v) web \<Rightarrow> ('a, 'd, 'w, 'v) network \<Rightarrow> nat" where
  "asks_load W n = (\<Sum>p\<in>wClients W. \<Sum>q\<in>wServices W. 6 * length (nFlight n p q))"

definition service_load ::
  "('o, 'p, 'a, 'd, 'w, 'v) web \<Rightarrow> ('a, 'd, 'w, 'v) network \<Rightarrow> para_id \<Rightarrow> nat" where
  "service_load W n q = sv_load (nService n q) + (\<Sum>p\<in>wClients W. length (nFlight n q p))"

definition net_load :: "('o, 'p, 'a, 'd, 'w, 'v) web \<Rightarrow> ('a, 'd, 'w, 'v) network \<Rightarrow> nat" where
  "net_load W n = asks_load W n + (\<Sum>q\<in>wServices W. service_load W n q)"

lemma para_ids_finite [simp]: "finite (A :: para_id set)"
  by simp

lemma net_load_cong:
  assumes "asks_load W t + x = asks_load W n" "q \<in> wServices W"
    and "\<And>q'. q' \<in> wServices W \<Longrightarrow> q' \<noteq> q \<Longrightarrow> service_load W t q' = service_load W n q'"
    and "service_load W t q < service_load W n q + x"
  shows "net_load W t < net_load W n"
  using sum_change [of "wServices W" q "service_load W t" "service_load W n"] assms
  by (simp add: net_load_def)

text \<open>A message taken from a channel, and what a service posts.\<close>

lemma asks_load_service_acts:
  assumes "good_web W" "q \<in> wServices W"
  shows "asks_load W (service_acts W n q y) = asks_load W n"
proof -
  have "p \<noteq> q" if "p \<in> wClients W" for p using good_web_distinct [OF assms(1) that assms(2)] .
  then show ?thesis by (auto simp: asks_load_def service_acts_def intro!: sum.cong)
qed

lemma asks_load_take:
  assumes "p \<in> wClients W" "q \<in> wServices W" "nFlight n p q = xs @ bs # ys"
  shows "asks_load W (set_flight n p q (xs @ ys)) + 6 = asks_load W n"
proof -
  let ?n = "set_flight n p q (xs @ ys)"
  have row: "(\<Sum>q\<in>wServices W. 6 * length (nFlight ?n p q)) + 6 = (\<Sum>q\<in>wServices W. 6 * length (nFlight n p q))"
    using sum_change [of "wServices W" q "\<lambda>q. 6 * length (nFlight ?n p q)" "\<lambda>q. 6 * length (nFlight n p q)"] assms
    by (simp add: set_flight_def)
  have "asks_load W ?n + (\<Sum>q\<in>wServices W. 6 * length (nFlight n p q))
      = asks_load W n + (\<Sum>q\<in>wServices W. 6 * length (nFlight ?n p q))"
    unfolding asks_load_def
    using sum_change [of "wClients W" p "\<lambda>p. \<Sum>q\<in>wServices W. 6 * length (nFlight ?n p q)"
        "\<lambda>p. \<Sum>q\<in>wServices W. 6 * length (nFlight n p q)"] assms(1)
    by (simp add: set_flight_def)
  with row show ?thesis by linarith
qed

lemma service_load_acts:
  assumes "posts_once (wVOut W q) (sWorld (nService n q)) (sWorld y)"
    and "\<And>p. sv_load y + x + length (posted (wVOut W q) p (sWorld (nService n q)) (sWorld y)) \<le> z"
  shows "service_load W (service_acts W n q y) q + x \<le> z + (\<Sum>p\<in>wClients W. length (nFlight n q p))"
  using posts_once_total [OF assms(1) _ assms(2), of "wClients W"]
  by (simp add: service_load_def service_acts_def sum.distrib)

lemma service_load_other:
  "q' \<noteq> q \<Longrightarrow> service_load W (service_acts W n q y) q' = service_load W n q'"
  by (simp add: service_load_def service_acts_def)

lemma service_load_set_flight:
  "q' \<noteq> a \<Longrightarrow> service_load W (set_flight n a b msgs) q' = service_load W n q'"
  by (simp add: service_load_def set_flight_def)

section \<open>Progress\<close>

inductive net_progress ::
  "('o, 'p, 'a, 'd, 'w, 'v) web \<Rightarrow> ('a, 'd, 'w, 'v) network \<Rightarrow> ('a, 'd, 'w, 'v) network \<Rightarrow> bool"
  for W :: "('o, 'p, 'a, 'd, 'w, 'v) web"
where
  np_ask: "p \<in> wClients W \<Longrightarrow> q \<in> wServices W \<Longrightarrow> nFlight n p q = xs @ bs # ys \<Longrightarrow>
    net_progress W n (service_acts W (set_flight n p q (xs @ ys)) q
      (snd (sv_handle_xcmp_messages (wVHost W q) (wConfig W q) (nService n q) [(p, k, bs)] w)))"
| np_answer: "p \<in> wClients W \<Longrightarrow> q \<in> wServices W \<Longrightarrow> nFlight n q p = xs @ bs # ys \<Longrightarrow>
    net_progress W n (client_acts W (set_flight n q p (xs @ ys)) p
      (snd (xc_handle_xcmp_messages (wCHost W p) (nClient n p) [(q, k, bs)] w)))"
| np_decision: "q \<in> wServices W \<Longrightarrow> sv_decides c \<Longrightarrow>
    sv_dispatch (wVHost W q) (wConfig W q) (nService n q) origin c = (Inr (), y) \<Longrightarrow>
    net_progress W n (service_acts W n q y)"

lemma net_progress_step: "net_progress W n t \<Longrightarrow> \<exists>l. net_step W n l t"
proof (induction rule: net_progress.induct)
  case (np_decision q c n origin y)
  then show ?case using n_service_call [of q W n origin c] by auto
qed (blast intro: net_step.intros)+

lemma net_load_falls:
  assumes good: "good_web W"
  shows "net_progress W n t \<Longrightarrow> (\<And>q. q \<in> wServices W \<Longrightarrow> sv_finite (nService n q)) \<Longrightarrow> net_load W t < net_load W n"
proof (induction rule: net_progress.induct)
  case (np_ask p q n xs bs ys k w)
  let ?n = "set_flight n p q (xs @ ys)"
  let ?y = "snd (sv_handle_xcmp_messages (wVHost W q) (wConfig W q) (nService n q) [(p, k, bs)] w)"
  have pq: "p \<noteq> q'" if "q' \<in> wServices W" for q' using good_web_distinct [OF good np_ask(1) that] .
  have laws: "outbox_laws (wVHost W q) (wVOut W q)" using good np_ask(2) by (simp add: good_web_def)
  have "service_load W (service_acts W ?n q ?y) q + 0
      \<le> sv_load (nService n q) + 5 + (\<Sum>p\<in>wClients W. length (nFlight ?n q p))"
    using sv_ask_once [OF laws] sv_ask_load [OF laws np_ask(4) [OF np_ask(2)]]
    by (intro service_load_acts) simp_all
  then have "service_load W (service_acts W ?n q ?y) q < service_load W n q + 6"
    using pq [OF np_ask(2)] by (simp add: service_load_def set_flight_def)
  moreover have "asks_load W (service_acts W ?n q ?y) + 6 = asks_load W n"
    by (simp add: asks_load_service_acts [OF good np_ask(2)] asks_load_take [OF np_ask(1-3)])
  ultimately show ?case
    using pq by (intro net_load_cong [where x = 6, OF _ np_ask(2)])
      (simp_all add: service_load_other service_load_set_flight [OF not_sym])
next
  case (np_answer p q n xs bs ys k w)
  let ?n = "set_flight n q p (xs @ ys)"
  let ?x = "snd (xc_handle_xcmp_messages (wCHost W p) (nClient n p) [(q, k, bs)] w)"
  have pq: "p' \<noteq> q'" if "p' \<in> wClients W" "q' \<in> wServices W" for p' q' using good_web_distinct [OF good that] .
  have none: "posted (wCOut W p) b (xWorld (nClient n p)) (xWorld ?x) = []" for b
    using xc_answer_posts [of "wCHost W p" "wCOut W p" b] good np_answer(1) by (simp add: good_web_def)
  have same: "nFlight (client_acts W ?n p ?x) = nFlight ?n"
    by (simp add: client_acts_def none)
  have "asks_load W (client_acts W ?n p ?x) = asks_load W n"
    unfolding asks_load_def same using pq np_answer(2) by (auto simp: set_flight_def intro!: sum.cong)
  moreover have "(\<Sum>b\<in>wClients W. length (nFlight ?n q b)) + length (nFlight n q p)
      = (\<Sum>b\<in>wClients W. length (nFlight n q b)) + length (nFlight ?n q p)"
    using np_answer(1) by (intro sum_change) (simp_all add: set_flight_def)
  then have "service_load W (client_acts W ?n p ?x) q < service_load W n q"
    using np_answer(3) by (simp add: service_load_def same) (simp add: client_acts_def set_flight_def)
  moreover have "service_load W (client_acts W ?n p ?x) q' = service_load W n q'" if "q' \<noteq> q" for q'
    using that by (simp add: service_load_def same) (simp add: client_acts_def set_flight_def)
  ultimately show ?case by (intro net_load_cong [where x = 0, OF _ np_answer(2)]) simp_all
next
  case (np_decision q c n origin y)
  have laws: "outbox_laws (wVHost W q) (wVOut W q)" using good np_decision(1) by (simp add: good_web_def)
  have "sv_load y + 1 + length (posted (wVOut W q) p (sWorld (nService n q)) (sWorld y)) \<le> sv_load (nService n q)" for p
    using sv_decision_load [OF laws np_decision(4) [OF np_decision(1)] np_decision(2,3), of p] by simp
  moreover have "posts_once (wVOut W q) (sWorld (nService n q)) (sWorld y)"
    using sv_decision_once [OF laws np_decision(2), of "nService n q" "wConfig W q" origin] np_decision(3) by simp
  ultimately have "service_load W (service_acts W n q y) q + 1
      \<le> sv_load (nService n q) + (\<Sum>p\<in>wClients W. length (nFlight n q p))"
    by (intro service_load_acts)
  then have "service_load W (service_acts W n q y) q < service_load W n q"
    by (simp add: service_load_def)
  then show ?case
    by (intro net_load_cong [where x = 0, OF _ np_decision(1)])
      (simp_all add: asks_load_service_acts [OF good np_decision(1)] service_load_other)
qed

section \<open>The services' storages stay finite\<close>

lemma service_acts_step:
  assumes "sv_step (wVHost W q') (wConfig W q') (nService n q') k y" "nService m = nService n"
  shows "nService (service_acts W m q' y) q = nService n q
    \<or> (\<exists>k. sv_step (wVHost W q) (wConfig W q) (nService n q) k (nService (service_acts W m q' y) q))"
proof (cases "q = q'")
  case True
  then show ?thesis using assms(1) by (intro disjI2 exI [of _ k]) (simp add: service_acts_def)
qed (simp add: service_acts_def assms(2))

lemma net_service_step:
  "net_step W n l t \<Longrightarrow> nService t q = nService n q
    \<or> (\<exists>k. sv_step (wVHost W q) (wConfig W q) (nService n q) k (nService t q))"
proof (induction rule: net_step.induct)
  case (n_service_call q' n origin s)
  show ?case by (rule service_acts_step [OF sstep_call refl])
next
  case (n_ask p q' n xs bs ys k w)
  show ?case by (rule service_acts_step [OF sstep_deliver]) simp
next
  case (n_foreign q' a n bs k w)
  show ?case by (rule service_acts_step [OF sstep_deliver refl])
next
  case (n_service_killed q' n x)
  show ?case by (rule service_acts_step [OF sstep_killed refl])
next
  case (n_service_world q' v n)
  show ?case by (rule service_acts_step [OF sstep_environment refl])
qed (simp_all add: client_acts_def)

lemma net_service_finite:
  "reachable net_init (net_step W) n \<Longrightarrow> sv_finite (nService n q)"
proof (induction rule: reachable.induct)
  case (reachable_init n)
  then show ?case by (simp add: net_init_def sv_finite_init)
next
  case (reachable_step n l t)
  from net_service_step [OF reachable_step.hyps(2), of q] show ?case
    using reachable_step.IH sv_finite_step by metis
qed

section \<open>Coming to rest\<close>

interpretation web_run: progress_system "net_progress W"
    "\<lambda>n. good_web W \<and> reachable net_init (net_step W) n" "net_load W" for W
  by unfold_locales
    (blast dest: net_progress_step intro: reachable_step, blast intro: net_load_falls net_service_finite)

lemma net_progress_reachable:
  "(net_progress W)\<^sup>*\<^sup>* n t \<Longrightarrow> reachable net_init (net_step W) n \<Longrightarrow> reachable net_init (net_step W) t"
  by (induction rule: rtranclp_induct) (auto dest!: net_progress_step intro: reachable_step)

definition net_at_rest :: "('o, 'p, 'a, 'd, 'w, 'v) web \<Rightarrow> ('a, 'd, 'w, 'v) network \<Rightarrow> bool" where
  "net_at_rest W n \<longleftrightarrow> (\<forall>p\<in>wClients W. \<forall>q\<in>wServices W. at_rest (wlink W p q) (pair p q n))"

text \<open>A pair that could go on can do so in the web.\<close>

lemma pair_progress:
  assumes "p \<in> wClients W" "q \<in> wServices W" "market_progress (wlink W p q) (pair p q n) m"
  shows "\<exists>t. net_progress W n t"
  using assms(3)
proof (cases rule: market_progress.cases)
  case (progress_ask xs bs ys k w)
  then show ?thesis using np_ask [OF assms(1,2), of n xs bs ys k w] by auto
next
  case (progress_answer xs bs ys k w)
  then show ?thesis using np_answer [OF assms(1,2), of n xs bs ys k w] by auto
next
  case (progress_decision c origin y)
  then show ?thesis using np_decision [OF assms(2), of c n origin y] by auto
qed

lemma net_stuck_at_rest:
  assumes good: "good_web W"
    and served: "\<And>q. q \<in> wServices W \<Longrightarrow> order_policy (wPolicy W q) \<and> signs (wVHost W q)"
    and reach: "reachable net_init (net_step W) n" and stuck: "\<And>t. \<not> net_progress W n t"
  shows "net_at_rest W n"
  unfolding net_at_rest_def
proof (intro ballI)
  fix p q
  assume pq: "p \<in> wClients W" "q \<in> wServices W"
  have "\<not> market_progress (wlink W p q) (pair p q n) m" for m
    using pair_progress [OF pq] stuck by blast
  with served [OF pq(2)] net_pairs_reachable [OF good reach pq]
  show "at_rest (wlink W p q) (pair p q n)" by (intro stuck_at_rest) simp_all
qed

end
