(* ===== verification/Market_Properties.thy ===== *)
theory Market_Properties
  imports Market_Progress
begin

text \<open>
  The properties of the two chains as one system, each with a witness on a small run: device 7
  of parachain 2001 is ordered by client 9 of parachain 2000, accepts and completes.
\<close>

section \<open>A small run\<close>

definition mw_link ::
  "(8 word option, 8 word option, 8 word, 8 word, ledger, ledger) link" where
  "mw_link = \<lparr>cHost = ledger_host, cOut = l_outbox, cPara = 2000,
              vHost = ledger_host, vOut = l_outbox,
              vConfig = \<lparr>SelfParaId = 2001, OnReceived = (\<lambda>d oo. Some Busy)\<rparr>\<rparr>"

definition mw_client ::
  "(8 word, 8 word, ledger, ledger) market \<Rightarrow> 8 word \<Rightarrow> (8 word, 8 word) xc_Call
     \<Rightarrow> (8 word, 8 word, ledger, ledger) market" where
  "mw_client m a c = client_does mw_link m (snd (xc_dispatch ledger_host (mClient m) (Some a) c))"

definition mw_service ::
  "(8 word, 8 word, ledger, ledger) market \<Rightarrow> 8 word \<Rightarrow> (8 word, 8 word) sv_Call
     \<Rightarrow> (8 word, 8 word, ledger, ledger) market" where
  "mw_service m a c = service_does mw_link m
     (snd (sv_dispatch ledger_host (vConfig mw_link) (mService m) (Some a) c))"

definition mw_asks ::
  "(8 word, 8 word, ledger, ledger) market \<Rightarrow> bytes \<Rightarrow> (8 word, 8 word, ledger, ledger) market" where
  "mw_asks m bs = service_does mw_link (m\<lparr>mAsks := []\<rparr>)
     (snd (sv_handle_xcmp_messages ledger_host (vConfig mw_link) (mService m) [(2000, 0, bs)] 0))"

definition mw_start :: "(8 word, 8 word, ledger, ledger) market" where
  "mw_start = \<lparr>mClient = xw_start, mService = sw_start, mAsks = [], mAnswers = []\<rparr>"

definition mw_ready :: "(8 word, 8 word, ledger, ledger) market" where
  "mw_ready = mw_service (mw_client mw_start 7 (xc_call_register 2001 10 5 True))
     7 (sv_call_register 10 5 True)"

definition mw_ordered :: "(8 word, 8 word, ledger, ledger) market" where
  "mw_ordered = mw_client mw_ready 9 (xc_call_order xw_base)"

definition mw_order_bytes :: bytes where
  "mw_order_bytes = ledger_encode (NewOrder 9 xw_base)"

definition mw_taken :: "(8 word, 8 word, ledger, ledger) market" where
  "mw_taken = mw_asks mw_ordered mw_order_bytes"

definition mw_completed :: "(8 word, 8 word, ledger, ledger) market" where
  "mw_completed = mw_service (mw_service mw_taken 7 (sv_call_accept False True)) 7 (sv_call_done True)"

lemma mw_link_simps [simp]:
  "cHost mw_link = ledger_host" "vHost mw_link = ledger_host" "cOut mw_link = l_outbox" "vOut mw_link = l_outbox"
  "cPara mw_link = 2000" "vPara mw_link = 2001" "OnReceived (vConfig mw_link) = (\<lambda>d oo. Some Busy)"
  by (simp_all add: mw_link_def)

lemma mw_good: "good_link mw_link"
  by (simp add: good_link_def ledger_same_codec ledger_outbox)

lemma mw_policy: "order_policy (OnReceived (vConfig mw_link))"
  by unfold_locales simp

lemma mw_signs: "signs ledger_host"
  unfolding signs_def by (intro allI exI [of _ "Some _"]) simp

lemma mw_client_step:
  assumes "reachable market_init (market_sound_step mw_link) m" "\<And>d. c \<noteq> xc_call_cancel d"
  shows "reachable market_init (market_sound_step mw_link) (mw_client m a c)"
  using m_client_call [of mw_link m c "Some a"] assms
  by (intro reachable_step [OF assms(1), where l = "ClientCall (Some a) c"])
    (simp add: mw_client_def market_sound_step_def clean_def split: xc_Call.split)

lemma mw_service_step:
  assumes "reachable market_init (market_sound_step mw_link) m" "\<not> sv_gives_back c"
  shows "reachable market_init (market_sound_step mw_link) (mw_service m a c)"
  using m_service_call [of mw_link m "Some a" c] assms
  by (intro reachable_step [OF assms(1), where l = "ServiceCall (Some a) c"])
    (simp add: mw_service_def market_sound_step_def)

lemma mw_asks_step:
  assumes "reachable market_init (market_sound_step mw_link) m" "mAsks m = [bs]"
  shows "reachable market_init (market_sound_step mw_link) (mw_asks m bs)"
  using m_ask [of m "[]" bs "[]" mw_link 0 0] assms
  by (intro reachable_step [OF assms(1), where l = "Ask bs"]) (simp add: mw_asks_def market_sound_step_def)

lemma mw_start_reach: "reachable market_init (market_sound_step mw_link) mw_start"
  by (rule reachable_init) (simp add: market_init_def mw_start_def xc_init_def sv_init_def xw_start_def sw_start_def)

lemma mw_ready_eq:
  "mw_ready = \<lparr>mClient = xw_registered, mService = sw_registered, mAsks = [], mAnswers = []\<rparr>"
  by (simp add: mw_ready_def mw_service_def mw_client_def mw_start_def client_does_def service_does_def
      xw_registered_def sw_registered_def sw_run_def xc_register_def sv_register_def op_defs posted_same
      xw_start_def sw_start_def)

lemma mw_ordered_eq:
  "mw_ordered = \<lparr>mClient = xw_ordered, mService = sw_registered, mAsks = [mw_order_bytes], mAnswers = []\<rparr>"
proof -
  have "posted l_outbox 2001 (xWorld xw_registered) (xWorld xw_ordered) = [mw_order_bytes]"
    by (simp add: xw_ordered_world xw_registered_eq xw_ledger_def posted_def mw_order_bytes_def
        del: ledger_encode.simps)
  then show ?thesis
    by (simp add: mw_ordered_def mw_client_def mw_ready_eq client_does_def xw_order_ok [unfolded xc_dispatch.simps])
qed

lemma mw_order_decoded: "decode_message ledger_host mw_order_bytes = Inr (NewOrder 9 xw_base)"
  using decode_encode [OF ledger_codec, of "NewOrder 9 xw_base"] by (simp add: mw_order_bytes_def)

lemma mw_taken_eq:
  "mw_taken = \<lparr>mClient = xw_ordered,
     mService = \<lparr>sDevice = [7 \<mapsto> sw_device Busy], sOrders = [7 \<mapsto> sw_order 2000],
       sEvents = [SNewDevice 7, SNewOrder 7], sWorld = sw_ledger\<rparr>,
     mAsks = [], mAnswers = []\<rparr>"
  by (simp add: mw_taken_def mw_asks_def mw_ordered_eq sv_handle_new_order [OF mw_order_decoded]
      service_does_def sv_order_received_def sw_registered_eq sw_device_def xw_base_def sw_order_def
      sw_ledger_def Let_def sv_store_order_def sv_deposit_event_def posted_same)

lemma mw_completed_eq:
  "mClient mw_completed = xw_ordered" "mAsks mw_completed = []"
  "mAnswers mw_completed = [ledger_encode (OrderAccept 9 7), ledger_encode (OrderDone 9 7 True)]"
  by (simp_all add: mw_completed_def mw_service_def mw_taken_eq service_does_def sv_accept_def sv_done_def
      sv_order_accept_def sv_order_done_def sv_deposit_event_def sv_send_def sw_device_def sw_order_def
      sw_ledger_def Let_def posted_def)

lemma mw_ordered_reach: "reachable market_init (market_sound_step mw_link) mw_ordered"
  unfolding mw_ordered_def mw_ready_def
  by (intro mw_client_step mw_service_step mw_start_reach) simp_all

lemma mw_completed_reach: "reachable market_init (market_sound_step mw_link) mw_completed"
  unfolding mw_completed_def mw_taken_def
  by (intro mw_service_step mw_asks_step mw_ordered_reach) (simp_all add: mw_ordered_eq)

lemma mw_ordered_step_reach: "reachable market_init (market_step mw_link) mw_ordered"
  by (rule market_sound_reachable [OF mw_ordered_reach])

section \<open>Agreement\<close>

text \<open>Whatever is on its way and whatever the service holds agrees with the client chain: at most
  one claim on a device is anywhere in the system, an order the service holds for the client
  chain is the order open there, with the same client and terms, and an answer in flight names
  the client of the order open there.\<close>

theorem market_claims_agree:
  assumes "good_link L" "reachable market_init (market_step L) m"
  shows "length (claims L m d) \<le> 1
    \<and> (\<forall>so. sOrders (mService m) d = Some so \<and> o_paraid so = cPara L \<longrightarrow>
        (\<exists>oo. xOrders (mClient m) d = Some oo \<and> o_client oo = o_client so
          \<and> Order_convert oo d = Order_convert so d))
    \<and> (\<forall>bs\<in>set (mAnswers m). \<forall>c onoff.
        decode_message (cHost L) bs \<in> {Inr (OrderReject c d onoff), Inr (OrderDone c d onoff)} \<longrightarrow>
        (\<exists>oo. xOrders (mClient m) d = Some oo \<and> o_client oo = c))"
proof (intro conjI allI impI ballI)
  have agreed: "agreed L m" by (rule agreed_reachable [OF assms])
  then have h: "honest (xOrders (mClient m) d) d (claims L m d)" by (rule agreedD)
  then show "length (claims L m d) \<le> 1" by (rule honest_length)
  show "\<exists>oo. xOrders (mClient m) d = Some oo \<and> o_client oo = o_client so \<and> Order_convert oo d = Order_convert so d"
    if "sOrders (mService m) d = Some so \<and> o_paraid so = cPara L" for so
    using agreed_held_order [OF agreed] that by blast
  show "\<exists>oo. xOrders (mClient m) d = Some oo \<and> o_client oo = c"
    if "bs \<in> set (mAnswers m)"
      and "decode_message (cHost L) bs \<in> {Inr (OrderReject c d onoff), Inr (OrderDone c d onoff)}" for bs c onoff
    by (rule agreed_answer_named [OF agreed that(1), of d c None]) (use that(2) in \<open>auto simp: answered_def\<close>)
qed

theorem market_claims_agree_witness:
  "claims mw_link mw_ordered 7 = [(9, Some xw_base)] \<and> length (claims mw_link mw_ordered 7) \<le> 1"
proof -
  have "claims mw_link mw_ordered 7 = [(9, Some xw_base)]"
    by (simp add: claims_def mw_ordered_eq asked_def mw_order_decoded [simplified] held_def sw_registered_eq xw_base_def)
  moreover have "length (claims mw_link mw_ordered 7) \<le> 1"
    using market_claims_agree [OF mw_good mw_ordered_step_reach, of 7] by blast
  ultimately show ?thesis by simp
qed

section \<open>Escrow\<close>

text \<open>Both chains stay solvent, with no assumption on what the answers say: as long as payouts
  are not refused and the rest of each chain leaves reserves in place, every account has
  reserved at least what its open orders oblige it to keep, on the client chain for all orders
  and on the service chain for the local ones.\<close>

theorem market_escrow_solvent:
  assumes "good_link L" "currency_laws (cHost L)" "currency_laws (vHost L)"
    and "order_policy (OnReceived (vConfig L))" "reachable market_init (market_sound_step L) m"
  shows "xc_obligation (mClient m) a \<le> reserved_balance (cHost L) (xWorld (mClient m)) a
    \<and> sv_obligation (vPara L) (mService m) a \<le> reserved_balance (vHost L) (sWorld (mService m)) a"
  using market_both_backed [OF assms] by (simp add: xc_backed_def sv_backed_def)

theorem market_escrow_solvent_witness:
  "xc_obligation (mClient mw_completed) 9 \<le> reserved_balance ledger_host (xWorld (mClient mw_completed)) 9"
  using market_escrow_solvent [of mw_link mw_completed 9, OF mw_good _ _ mw_policy mw_completed_reach]
  by (simp add: ledger_laws)

text \<open>A completion on its way always finds its order: the client chain has it open for the client
  the message names, and the delivery pays exactly, the fee to the device, the penalty to the
  device in time and to the client if late, and closes the order, unless the currency refuses
  a payment.\<close>

theorem market_completion_pays:
  assumes "good_link L" "currency_laws (cHost L)" "reachable market_init (market_sound_step L) m"
    and "bs \<in> set (mAnswers m)" "decode_message (cHost L) bs = Inr (OrderDone c d onoff)"
  shows "\<exists>oo dev. xOrders (mClient m) d = Some oo \<and> o_client oo = c \<and> xDevice (mClient m) d = Some dev
    \<and> (let s = mClient m; t = snd (xc_handle_xcmp_messages (cHost L) s [(vPara L, n, bs)] w)
       in refused (xc_on_done (cHost L) s c d onoff)
          \<or> released (cHost L) (xWorld s) (xWorld t) c d (unat (o_fee oo))
              d (if timestamp_get (cHost L) (xWorld s) < o_until oo then d else c) (unat (xp_penalty dev))
            \<and> xOrders t = (xOrders s)(d := None))"
  by (rule market_done_pays [OF assms])

theorem market_completion_pays_witness:
  "\<exists>oo dev. xOrders (mClient mw_completed) 7 = Some oo \<and> o_client oo = 9
     \<and> xDevice (mClient mw_completed) 7 = Some dev"
proof -
  have "ledger_encode (OrderDone 9 7 True) \<in> set (mAnswers mw_completed)" by (simp add: mw_completed_eq)
  moreover have "decode_message (cHost mw_link) (ledger_encode (OrderDone 9 7 True)) = Inr (OrderDone 9 7 True)"
    using decode_encode [OF ledger_codec, of "OrderDone 9 7 True"] by simp
  ultimately show ?thesis
    using market_completion_pays [OF mw_good _ mw_completed_reach] ledger_laws by (simp del: ledger_encode.simps) blast
qed

section \<open>Termination and progress\<close>



text \<open>From every reachable state the two chains can come to rest by deliveries and decisions
  alone, and wherever such a run stops they are at rest: nothing is in flight, the service
  holds no order of another parachain, and no claim on any device is left, so that every order
  still open at the client chain may be cancelled.\<close>

theorem market_comes_to_rest:
  assumes "good_link L" "order_policy (OnReceived (vConfig L))" "signs (vHost L)"
    and "reachable market_init (market_step L) m"
  shows "(\<exists>t. (market_progress L)\<^sup>*\<^sup>* m t \<and> at_rest L t)
    \<and> (\<forall>t. (market_progress L)\<^sup>*\<^sup>* m t \<and> (\<forall>u. \<not> market_progress L t u) \<longrightarrow>
          at_rest L t \<and> (\<forall>d. claims L t d = []))"
proof (intro conjI allI impI)
  show "\<exists>t. (market_progress L)\<^sup>*\<^sup>* m t \<and> at_rest L t" using market_can_rest [OF assms] by blast
next
  fix t d
  assume t: "(market_progress L)\<^sup>*\<^sup>* m t \<and> (\<forall>u. \<not> market_progress L t u)"
  then show "at_rest L t"
    using stuck_at_rest [OF assms(2,3) progress_reachable [OF _ assms(4)]] by blast
  then show "claims L t d = []"
    by (rule at_rest_claims [OF assms(1)])
qed

theorem market_comes_to_rest_witness:
  "\<exists>t. (market_progress mw_link)\<^sup>*\<^sup>* mw_ordered t \<and> at_rest mw_link t"
  using market_comes_to_rest [OF mw_good mw_policy _ mw_ordered_step_reach] mw_signs by simp

end
