(* ===== verification/Web_Properties.thy ===== *)
theory Web_Properties
  imports Web_Progress Market_Properties
begin

text \<open>
  The properties of the web of all chains.  Their witness is a web of two client chains, 2000 and
  2002, and two services, 2001 and 2003: client 9 of chain 2000 orders device 7 of service 2001.
\<close>

section \<open>A small web\<close>

definition nw_web :: "(8 word option, 8 word option, 8 word, 8 word, ledger, ledger) web" where
  "nw_web = \<lparr>wClients = {2000, 2002}, wServices = {2001, 2003},
     wCHost = (\<lambda>p. ledger_host), wCOut = (\<lambda>p. l_outbox), wVHost = (\<lambda>q. ledger_host), wVOut = (\<lambda>q. l_outbox),
     wPolicy = (\<lambda>q d oo. Some Busy)\<rparr>"

lemma nw_web_simps [simp]:
  "wClients nw_web = {2000, 2002}" "wServices nw_web = {2001, 2003}"
  "wCHost nw_web p = ledger_host" "wCOut nw_web p = l_outbox"
  "wVHost nw_web q = ledger_host" "wVOut nw_web q = l_outbox" "wPolicy nw_web q d oo = Some Busy"
  by (simp_all add: nw_web_def)

lemma nw_good: "good_web nw_web"
  by (simp add: good_web_def ledger_same_codec ledger_outbox)

lemma nw_served: "q \<in> wServices nw_web \<Longrightarrow> order_policy (wPolicy nw_web q) \<and> signs (wVHost nw_web q)"
proof
  show "order_policy (wPolicy nw_web q)" by unfold_locales simp
  show "signs (wVHost nw_web q)" unfolding signs_def by (intro allI exI [of _ "Some _"]) simp
qed

definition nw_start :: "(8 word, 8 word, ledger, ledger) network" where
  "nw_start = \<lparr>nClient = (\<lambda>p. xw_start), nService = (\<lambda>q. sw_start), nFlight = (\<lambda>a b. [])\<rparr>"

definition nw_calls :: "(8 word, 8 word, ledger, ledger) network \<Rightarrow> 8 word \<Rightarrow> (8 word, 8 word) xc_Call
     \<Rightarrow> (8 word, 8 word, ledger, ledger) network" where
  "nw_calls n a c = client_acts nw_web n 2000 (snd (xc_dispatch ledger_host (nClient n 2000) (Some a) c))"

definition nw_ordered :: "(8 word, 8 word, ledger, ledger) network" where
  "nw_ordered = nw_calls (nw_calls nw_start 7 (xc_call_register 2001 10 5 True)) 9 (xc_call_order xw_base)"

lemma nw_calls_step:
  assumes "reachable net_init (net_sound_step nw_web) n" "\<And>d. c \<noteq> xc_call_cancel d"
  shows "reachable net_init (net_sound_step nw_web) (nw_calls n a c)"
proof (rule reachable_step [OF assms(1), where l = "NClientCall 2000 (Some a) c"])
  have "net_step nw_web n (NClientCall 2000 (Some a) c) (nw_calls n a c)"
    using n_client_call [of 2000 nw_web n c "Some a"] assms(2)
    by (simp add: nw_calls_def clean_def split: xc_Call.split)
  then show "net_sound_step nw_web n (NClientCall 2000 (Some a) c) (nw_calls n a c)"
    using assms(2) by (simp add: net_sound_step_def split: xc_Call.split)
qed

lemma nw_start_reach: "reachable net_init (net_sound_step nw_web) nw_start"
  by (rule reachable_init) (simp add: net_init_def nw_start_def xc_init_def sv_init_def xw_start_def sw_start_def)

lemma nw_ordered_reach: "reachable net_init (net_sound_step nw_web) nw_ordered"
  unfolding nw_ordered_def by (intro nw_calls_step nw_start_reach) simp_all

lemma nw_ordered_eq:
  "nClient nw_ordered 2000 = xw_ordered" "nFlight nw_ordered 2000 2001 = [ledger_encode (NewOrder 9 xw_base)]"
  "nService nw_ordered q = sw_start" "nFlight nw_ordered 2001 2000 = []"
proof -
  have reg: "snd (xc_dispatch ledger_host xw_start (Some 7) (xc_call_register 2001 10 5 True)) = xw_registered"
    by (simp add: xw_registered_def)
  have "posted l_outbox 2001 (xWorld xw_start) (xWorld xw_registered) = []"
    by (simp add: xw_registered_eq xw_start_def posted_def xw_ledger_def)
  moreover have "posted l_outbox 2001 (xWorld xw_registered) (xWorld xw_ordered) = [ledger_encode (NewOrder 9 xw_base)]"
    by (simp add: xw_ordered_world xw_registered_eq xw_ledger_def posted_def del: ledger_encode.simps)
  ultimately show "nClient nw_ordered 2000 = xw_ordered"
    "nFlight nw_ordered 2000 2001 = [ledger_encode (NewOrder 9 xw_base)]"
    "nService nw_ordered q = sw_start" "nFlight nw_ordered 2001 2000 = []"
    by (simp_all add: nw_ordered_def nw_calls_def nw_start_def client_acts_def reg [unfolded xc_dispatch.simps]
        xw_order_ok [unfolded xc_dispatch.simps] del: ledger_encode.simps)
qed

text \<open>The service takes the order, accepts and completes it.  Chains 2000 and 2001 alone are the
  two chains of \<open>Market_Properties\<close>.\<close>

definition nw_serves :: "(8 word, 8 word, ledger, ledger) network \<Rightarrow> (8 word, 8 word) sv_Call
     \<Rightarrow> (8 word, 8 word, ledger, ledger) network" where
  "nw_serves n c = service_acts nw_web n 2001
     (snd (sv_dispatch ledger_host (wConfig nw_web 2001) (nService n 2001) (Some 7) c))"

definition nw_asks :: "(8 word, 8 word, ledger, ledger) network \<Rightarrow> (8 word, 8 word, ledger, ledger) network" where
  "nw_asks n = service_acts nw_web (set_flight n 2000 2001 []) 2001
     (snd (sv_handle_xcmp_messages ledger_host (wConfig nw_web 2001) (nService n 2001) [(2000, 0, mw_order_bytes)] 0))"

definition nw_ready :: "(8 word, 8 word, ledger, ledger) network" where
  "nw_ready = nw_serves (nw_calls nw_start 7 (xc_call_register 2001 10 5 True)) (sv_call_register 10 5 True)"

definition nw_asked :: "(8 word, 8 word, ledger, ledger) network" where
  "nw_asked = nw_calls nw_ready 9 (xc_call_order xw_base)"

definition nw_completed :: "(8 word, 8 word, ledger, ledger) network" where
  "nw_completed = nw_serves (nw_serves (nw_asks nw_asked) (sv_call_accept False True)) (sv_call_done True)"

lemma nw_link: "wlink nw_web 2000 2001 = mw_link" "wConfig nw_web 2001 = vConfig mw_link"
  by (simp_all add: wlink_def mw_link_def wConfig_def nw_web_def)

lemma nw_pair:
  "pair 2000 2001 nw_start = mw_start"
  "pair 2000 2001 (nw_calls n a c) = mw_client (pair 2000 2001 n) a c"
  "pair 2000 2001 (nw_serves n sc) = mw_service (pair 2000 2001 n) 7 sc"
  "pair 2000 2001 (nw_asks n) = mw_asks (pair 2000 2001 n) mw_order_bytes"
  by (simp_all add: pair_def nw_start_def mw_start_def nw_calls_def mw_client_def nw_serves_def mw_service_def
      nw_asks_def mw_asks_def client_acts_def client_does_def service_acts_def service_does_def set_flight_def
      nw_link(2))

lemma nw_completed_flight:
  "nFlight nw_completed 2001 2000 = [ledger_encode (OrderAccept 9 7), ledger_encode (OrderDone 9 7 True)]"
proof -
  have "pair 2000 2001 nw_completed = mw_completed"
    by (simp add: nw_completed_def nw_asked_def nw_ready_def nw_pair mw_completed_def mw_taken_def
        mw_ordered_def mw_ready_def)
  then have "mAnswers (pair 2000 2001 nw_completed) = mAnswers mw_completed" by simp
  then show ?thesis by (simp add: mw_completed_eq del: ledger_encode.simps)
qed

lemma nw_serves_step:
  assumes "reachable net_init (net_sound_step nw_web) n" "\<not> sv_gives_back c"
  shows "reachable net_init (net_sound_step nw_web) (nw_serves n c)"
  using n_service_call [of 2001 nw_web n "Some 7" c] assms(2)
  by (intro reachable_step [OF assms(1), where l = "NServiceCall 2001 (Some 7) c"])
    (simp add: nw_serves_def net_sound_step_def)

lemma nw_asks_step:
  assumes "reachable net_init (net_sound_step nw_web) n" "nFlight n 2000 2001 = [mw_order_bytes]"
  shows "reachable net_init (net_sound_step nw_web) (nw_asks n)"
  using n_ask [of 2000 nw_web 2001 n "[]" mw_order_bytes "[]" 0 0] assms(2)
  by (intro reachable_step [OF assms(1), where l = "NAsk 2000 2001 mw_order_bytes"])
    (simp add: nw_asks_def net_sound_step_def)

lemma nw_completed_reach: "reachable net_init (net_sound_step nw_web) nw_completed"
proof -
  have "pair 2000 2001 nw_asked = mw_ordered"
    by (simp add: nw_asked_def nw_ready_def nw_pair mw_ordered_def mw_ready_def)
  then have "mAsks (pair 2000 2001 nw_asked) = mAsks mw_ordered" by simp
  then have flight: "nFlight nw_asked 2000 2001 = [mw_order_bytes]" by (simp add: mw_ordered_eq)
  have "reachable net_init (net_sound_step nw_web) nw_asked"
    unfolding nw_asked_def nw_ready_def by (intro nw_calls_step nw_serves_step nw_start_reach) simp_all
  with flight show ?thesis
    unfolding nw_completed_def by (intro nw_serves_step nw_asks_step) simp_all
qed

lemma nw_step_reach: "reachable net_init (net_step nw_web) nw_ordered"
  by (rule net_sound_reachable [OF nw_ordered_reach])

section \<open>Pairs\<close>



section \<open>Agreement\<close>



section \<open>Escrow\<close>



section \<open>Progress\<close>



text \<open>A completion on its way anywhere in the web finds its order: the client chain it is sent
  to has it open for the client the message names, and its delivery pays exactly and closes the
  order, unless the currency refuses a payment.\<close>

theorem web_completion_pays:
  assumes "good_web W" "p \<in> wClients W" "q \<in> wServices W" "currency_laws (wCHost W p)"
    and "reachable net_init (net_sound_step W) n"
    and "bs \<in> set (nFlight n q p)" "decode_message (wCHost W p) bs = Inr (OrderDone c d onoff)"
  shows "\<exists>oo dev. xOrders (nClient n p) d = Some oo \<and> o_client oo = c \<and> xDevice (nClient n p) d = Some dev
    \<and> xp_para_id dev = q
    \<and> (let s = nClient n p; t = snd (xc_handle_xcmp_messages (wCHost W p) s [(q, k, bs)] w)
       in refused (xc_on_done (wCHost W p) s c d onoff)
          \<or> released (wCHost W p) (xWorld s) (xWorld t) c d (unat (o_fee oo))
              d (if timestamp_get (wCHost W p) (xWorld s) < o_until oo then d else c) (unat (xp_penalty dev))
            \<and> xOrders t = (xOrders s)(d := None))"
proof -
  have answers: "answered (wCHost W p) d bs = [(c, None)]" using assms(7) by (simp add: answered_def)
  have "claims (wlink W p q) (pair p q n) d \<noteq> []"
    using split_list [OF assms(6)] answers by (auto simp: claims_def)
  moreover have "addressed (wlink W p q) (pair p q n)"
    using net_ok [OF assms(1) net_sound_reachable [OF assms(5)]] assms(2,3) by (simp add: pair_ok_def)
  ultimately have "map_option xp_para_id (xDevice (nClient n p) d) = Some q" by (simp add: addressed_def)
  moreover have "bs \<in> set (mAnswers (pair p q n))" using assms(6) by simp
  ultimately show ?thesis
    using market_done_pays [OF good_wlink [OF assms(1-3)] _ net_pairs_sound [OF assms(1-3,5)], of bs c d onoff k w]
      assms(4,7) by (auto split del: if_split)
qed

theorem web_completion_pays_witness:
  "\<exists>oo dev. xOrders (nClient nw_completed 2000) 7 = Some oo \<and> o_client oo = 9
     \<and> xDevice (nClient nw_completed 2000) 7 = Some dev \<and> xp_para_id dev = 2001"
proof -
  have "ledger_encode (OrderDone 9 7 True) \<in> set (nFlight nw_completed 2001 2000)"
    by (simp add: nw_completed_flight)
  moreover have "decode_message (wCHost nw_web 2000) (ledger_encode (OrderDone 9 7 True)) = Inr (OrderDone 9 7 True)"
    using decode_encode [OF ledger_codec, of "OrderDone 9 7 True"] by simp
  ultimately show ?thesis
    using web_completion_pays [OF nw_good _ _ _ nw_completed_reach, of 2000 2001 _ 9 7 True] ledger_laws
    by (simp del: ledger_encode.simps) blast
qed

end
