(* ===== verification/Delivery_Order.thy ===== *)
theory Delivery_Order
  imports Market_Prelude "HOL-Library.Multiset"
begin

text \<open>
  Batches of messages about different devices.  The interface \<open>device_batch\<close> is a handler whose
  every message changes the entry of one device, as a function of that entry and the clock, and
  moves quantities by amounts that depend on nothing else.  A batch then has one effect in
  whatever order its messages lie.
\<close>

section \<open>Delivering a list of messages\<close>

text \<open>A handler that returns \<open>None\<close> ends the batch.\<close>

fun deliver :: "('s \<Rightarrow> 'm \<Rightarrow> 's option) \<Rightarrow> 's \<Rightarrow> 'm list \<Rightarrow> 's" where
  "deliver step s [] = s"
| "deliver step s (m # ms) = (case step s m of None \<Rightarrow> s | Some t \<Rightarrow> deliver step t ms)"

fun sound_delivery :: "('s \<Rightarrow> 'm \<Rightarrow> 's option) \<Rightarrow> ('s \<Rightarrow> 'm \<Rightarrow> bool) \<Rightarrow> 's \<Rightarrow> 'm list \<Rightarrow> bool" where
  "sound_delivery step sound s [] = True"
| "sound_delivery step sound s (m # ms) =
     (sound s m \<and> (case step s m of None \<Rightarrow> True | Some t \<Rightarrow> sound_delivery step sound t ms))"

text \<open>Messages about different devices, and nothing else.\<close>

definition separate :: "('m \<Rightarrow> 'k option) \<Rightarrow> 'm list \<Rightarrow> bool" where
  "separate about ms \<longleftrightarrow> distinct (map about ms) \<and> None \<notin> about ` set ms"

lemma separate_Cons:
  "separate about (m # ms) \<longleftrightarrow> (\<exists>k. about m = Some k \<and> Some k \<notin> about ` set ms) \<and> separate about ms"
  by (cases "about m") (auto simp: separate_def)

lemma separate_mset: "mset ms' = mset ms \<Longrightarrow> separate about ms \<Longrightarrow> separate about ms'"
  unfolding separate_def by (metis mset_eq_imp_distinct_iff mset_eq_setD mset_map)

definition on_entry :: "('m \<Rightarrow> 'k option) \<Rightarrow> ('m \<Rightarrow> 'e \<Rightarrow> 'e) \<Rightarrow> 'k \<Rightarrow> 'm \<Rightarrow> 'e \<Rightarrow> 'e" where
  "on_entry about act k m e = (if about m = Some k then act m e else e)"

lemma on_entry_commute:
  assumes "separate about ms" "x \<in> set ms" "y \<in> set ms"
  shows "on_entry about act k x \<circ> on_entry about act k y = on_entry about act k y \<circ> on_entry about act k x"
proof (cases "about x = Some k \<and> about y = Some k")
  case True
  have "inj_on about (set ms)" using assms(1) by (simp add: separate_def distinct_map)
  from inj_onD [OF this _ assms(2,3)] True have "x = y" by simp
  then show ?thesis by simp
qed (auto simp: on_entry_def fun_eq_iff)

lemma on_entries_order:
  "separate about ms \<Longrightarrow> mset ms' = mset ms \<Longrightarrow> fold (on_entry about act k) ms' = fold (on_entry about act k) ms"
  by (rule fold_multiset_equiv [OF on_entry_commute [OF separate_mset]])

section \<open>The interface\<close>

locale device_batch =
  fixes step :: "'s \<Rightarrow> 'm \<Rightarrow> 's option"
    and sound :: "'s \<Rightarrow> 'm \<Rightarrow> bool"
    and inv :: "'s \<Rightarrow> bool"
    and clock :: "'s \<Rightarrow> 'c"
    and entry :: "'s \<Rightarrow> 'k \<Rightarrow> 'e"
    and about :: "'m \<Rightarrow> 'k option"
    and act :: "'c \<Rightarrow> 'm \<Rightarrow> 'e \<Rightarrow> 'e"
    and quantity :: "'s \<Rightarrow> 'q \<Rightarrow> int"
    and moves :: "'c \<Rightarrow> 'm \<Rightarrow> 'e \<Rightarrow> 'q \<Rightarrow> int"
  assumes handled: "inv s \<Longrightarrow> sound s m \<Longrightarrow> about m = Some k \<Longrightarrow> \<exists>t. step s m = Some t \<and> inv t"
    and kept_clock: "inv s \<Longrightarrow> sound s m \<Longrightarrow> about m = Some k \<Longrightarrow> step s m = Some t \<Longrightarrow> clock t = clock s"
    and own_entry: "inv s \<Longrightarrow> sound s m \<Longrightarrow> about m = Some k \<Longrightarrow> step s m = Some t
      \<Longrightarrow> entry t k = act (clock s) m (entry s k)"
    and other_entry: "inv s \<Longrightarrow> sound s m \<Longrightarrow> about m = Some k \<Longrightarrow> step s m = Some t \<Longrightarrow> x \<noteq> k
      \<Longrightarrow> entry t x = entry s x"
    and moved: "inv s \<Longrightarrow> sound s m \<Longrightarrow> about m = Some k \<Longrightarrow> step s m = Some t
      \<Longrightarrow> quantity t q = quantity s q + moves (clock s) m (entry s k) q"
begin

text \<open>The effect of a batch: the messages' actions on the entries, and the sum of what they move.\<close>

lemma batch_effect:
  "inv s \<Longrightarrow> separate about ms \<Longrightarrow> sound_delivery step sound s ms \<Longrightarrow>
     entry (deliver step s ms) k = fold (on_entry about (act (clock s)) k) ms (entry s k)
   \<and> quantity (deliver step s ms) q
       = quantity s q + (\<Sum>m\<leftarrow>ms. moves (clock s) m (entry s (the (about m))) q)"
proof (induction ms arbitrary: s)
  case (Cons m ms)
  obtain d where d: "about m = Some d" "Some d \<notin> about ` set ms" and sep: "separate about ms"
    using Cons.prems(2) by (auto simp: separate_Cons)
  have sound: "sound s m" using Cons.prems(3) by simp
  obtain t where t: "step s m = Some t" "inv t" using handled [OF Cons.prems(1) sound d(1)] by blast
  note facts = Cons.prems(1) sound d(1) t(1)
  have rest: "entry (deliver step t ms) k = fold (on_entry about (act (clock s)) k) ms (entry t k)"
    "quantity (deliver step t ms) q = quantity t q + (\<Sum>m\<leftarrow>ms. moves (clock s) m (entry t (the (about m))) q)"
    using Cons.IH [OF t(2) sep] Cons.prems(3) t(1) kept_clock [OF facts] by simp_all
  have "the (about m') \<noteq> d" if here: "m' \<in> set ms" for m'
  proof -
    obtain k' where "about m' = Some k'" using sep here by (cases "about m'") (force simp: separate_def)+
    with d(2) here show ?thesis by force
  qed
  then have same: "(\<Sum>m\<leftarrow>ms. moves (clock s) m (entry t (the (about m))) q)
      = (\<Sum>m\<leftarrow>ms. moves (clock s) m (entry s (the (about m))) q)"
    using other_entry [OF facts] by (simp cong: map_cong)
  have "entry t k = on_entry about (act (clock s)) k m (entry s k)"
    using own_entry [OF facts] other_entry [OF facts, of k] d(1) by (auto simp: on_entry_def)
  with rest same moved [OF facts, of q] d(1) t(1) show ?case by simp
qed simp

text \<open>So the order of a batch is irrelevant.\<close>

lemma batch_order:
  assumes "inv s" "separate about ms" "mset ms' = mset ms"
    and "sound_delivery step sound s ms" "sound_delivery step sound s ms'"
  shows "entry (deliver step s ms') = entry (deliver step s ms)"
    and "quantity (deliver step s ms') = quantity (deliver step s ms)"
proof -
  note one = batch_effect [OF assms(1,2,4)] and two = batch_effect [OF assms(1) separate_mset [OF assms(3,2)] assms(5)]
  show "entry (deliver step s ms') = entry (deliver step s ms)"
    by (rule ext) (simp add: one two on_entries_order [OF assms(2,3)])
  have "(\<Sum>m\<leftarrow>ms'. f m) = (\<Sum>m\<leftarrow>ms. f m)" for f :: "'m \<Rightarrow> int"
    using assms(3) by (metis mset_map sum_mset_sum_list)
  then show "quantity (deliver step s ms') = quantity (deliver step s ms)"
    by (intro ext) (simp add: one two)
qed

end

end
