(* ===== verification/Answer_Batches.thy ===== *)
theory Answer_Batches
  imports Xchange_Properties Delivery_Order
begin

text \<open>
  A batch of answers as a whole.  Sibling chains answer independently, so the order in which
  their answers lie in a batch is an accident; the theory computes what a batch about different
  devices does, as an effect on each device and a sum over the answers, from which it follows
  that the order does not matter.
\<close>

section \<open>One answer\<close>

definition answered_device :: "('o, 'a, 'd, 'w) host \<Rightarrow> bytes \<Rightarrow> 'a option" where
  "answered_device H data =
     (case decode_message H data of
        Inr (OrderAccept c d) \<Rightarrow> Some d
      | Inr (OrderReject c d onoff) \<Rightarrow> Some d
      | Inr (OrderDone c d onoff) \<Rightarrow> Some d
      | _ \<Rightarrow> None)"

text \<open>What a device and its order look like, what an answer makes of them, and what it moves: the
  units each account gains, and those that leave its reserve.\<close>

type_synonym ('a, 'd) entry = "('a, 'd) Order option \<times> xc_DeviceProfile option"

definition xc_entry :: "('a, 'd, 'w) xchange \<Rightarrow> 'a \<Rightarrow> ('a, 'd) entry" where
  "xc_entry s d = (xOrders s d, xDevice s d)"

definition answer_entry :: "('o, 'a, 'd, 'w) host \<Rightarrow> bytes \<Rightarrow> ('a, 'd) entry \<Rightarrow> ('a, 'd) entry" where
  "answer_entry H data e =
     (case (e, decode_message H data) of
        ((Some oo, Some dev), Inr (OrderReject c d onoff)) \<Rightarrow>
          (None, Some (dev\<lparr>xp_state := (if onoff then Ready else Off)\<rparr>))
      | ((Some oo, Some dev), Inr (OrderDone c d onoff)) \<Rightarrow>
          (None, Some (dev\<lparr>xp_state := (if onoff then Ready else Off)\<rparr>))
      | _ \<Rightarrow> e)"

definition answer_gain ::
  "('o, 'a, 'd, 'w) host \<Rightarrow> moment \<Rightarrow> bytes \<Rightarrow> 'a \<Rightarrow> ('a, 'd) entry \<Rightarrow> 'a \<Rightarrow> nat" where
  "answer_gain H now data dev_id e a =
     (case (e, decode_message H data) of
        ((Some oo, Some dev), Inr (OrderReject c d onoff)) \<Rightarrow>
          (if a = o_client oo then unat (o_fee oo) else 0)
          + (if a = (if now < o_until oo then dev_id else o_client oo) then unat (xp_penalty dev) else 0)
      | ((Some oo, Some dev), Inr (OrderDone c d onoff)) \<Rightarrow>
          (if a = dev_id then unat (o_fee oo) else 0)
          + (if a = (if now < o_until oo then dev_id else o_client oo) then unat (xp_penalty dev) else 0)
      | _ \<Rightarrow> 0)"

definition answer_release ::
  "('o, 'a, 'd, 'w) host \<Rightarrow> bytes \<Rightarrow> 'a \<Rightarrow> ('a, 'd) entry \<Rightarrow> 'a \<Rightarrow> nat" where
  "answer_release H data dev_id e a =
     (case (e, decode_message H data) of
        ((Some oo, Some dev), Inr (OrderReject c d onoff)) \<Rightarrow>
          (if a = o_client oo then unat (o_fee oo) else 0) + (if a = dev_id then unat (xp_penalty dev) else 0)
      | ((Some oo, Some dev), Inr (OrderDone c d onoff)) \<Rightarrow>
          (if a = o_client oo then unat (o_fee oo) else 0) + (if a = dev_id then unat (xp_penalty dev) else 0)
      | _ \<Rightarrow> 0)"

lemmas answer_defs = answer_entry_def answer_gain_def answer_release_def xc_entry_def

text \<open>Answers never touch the clock.\<close>

lemma unreserve_clock: "currency_laws H \<Longrightarrow> timestamp_get H (snd (unreserve H w a v)) = timestamp_get H w"
  by (metis moved_from_reserved_def prod.collapse unreserve_moves)

lemma repatriate_clock:
  "currency_laws H \<Longrightarrow> repatriate_reserved H w a b v Free = (r, w') \<Longrightarrow> timestamp_get H w' = timestamp_get H w"
  by (cases r) (auto dest: repatriate_ok repatriate_err simp: moved_from_reserved_def same_funds_def)

lemma xc_reject_clock:
  "currency_laws H \<Longrightarrow> timestamp_get H (xWorld (snd (xc_order_reject H s who oo now d dev))) = timestamp_get H (xWorld s)"
  by (auto simp: xc_order_reject_def xc_deposit_event_def Let_def unreserve_clock repatriate_clock
      split: sum.split prod.split)

lemma xc_done_clock:
  "currency_laws H \<Longrightarrow> timestamp_get H (xWorld (snd (xc_on_done H s who d onoff))) = timestamp_get H (xWorld s)"
  by (auto simp: xc_on_done_def xc_deposit_event_def Let_def unreserve_clock repatriate_clock
      split: option.split sum.split prod.split)

lemma xc_one_clock:
  "currency_laws H \<Longrightarrow> xc_handle_one H s data = Some t \<Longrightarrow> timestamp_get H (xWorld t) = timestamp_get H (xWorld s)"
  by (auto simp: xc_handle_one_def xc_on_accept_def xc_on_reject_def xc_deposit_event_def xc_reject_clock
      xc_done_clock Let_def split: sum.splits XCMPMessage.splits option.splits)

text \<open>A sound answer does what the four definitions say.\<close>

definition answer_does :: "('o, 'a, 'd, 'w) host \<Rightarrow> ('a, 'd, 'w) xchange \<Rightarrow> bytes \<Rightarrow> 'a \<Rightarrow> ('a, 'd, 'w) xchange \<Rightarrow> bool" where
  "answer_does H s data d t \<longleftrightarrow>
     xc_entry t d = answer_entry H data (xc_entry s d) \<and> (\<forall>x. x \<noteq> d \<longrightarrow> xc_entry t x = xc_entry s x)
   \<and> (\<forall>a. free_balance H (xWorld t) a = free_balance H (xWorld s) a
        + answer_gain H (timestamp_get H (xWorld s)) data d (xc_entry s d) a
      \<and> reserved_balance H (xWorld t) a + answer_release H data d (xc_entry s d) a
        = reserved_balance H (xWorld s) a)"

lemma answer_does_nothing:
  "xOrders s d = None \<or> xDevice s d = None \<Longrightarrow> xOrders t = xOrders s \<Longrightarrow> xDevice t = xDevice s
     \<Longrightarrow> xWorld t = xWorld s \<Longrightarrow> answer_does H s data d t"
  by (auto simp: answer_does_def answer_defs split: sum.split XCMPMessage.split option.split)

lemma answer_does_close:
  assumes "released H (xWorld s) (xWorld t) (o_client oo) f (unat (o_fee oo)) d
      (if timestamp_get H (xWorld s) < o_until oo then d else o_client oo) (unat (xp_penalty dev))"
    and "xOrders s d = Some oo" "xDevice s d = Some dev"
    and "xOrders t = (xOrders s)(d := None)"
    and "xDevice t = (xDevice s)(d \<mapsto> dev\<lparr>xp_state := (if onoff then Ready else Off)\<rparr>)"
    and "decode_message H data = Inr (OrderReject c d onoff) \<and> f = o_client oo
      \<or> decode_message H data = Inr (OrderDone c d onoff) \<and> f = d"
  shows "answer_does H s data d t"
proof -
  have gain: "answer_gain H (timestamp_get H (xWorld s)) data d (xc_entry s d) a
      = (if a = f then unat (o_fee oo) else 0)
        + (if a = (if timestamp_get H (xWorld s) < o_until oo then d else o_client oo)
           then unat (xp_penalty dev) else 0)" for a
    using assms(2,3,6) by (auto simp: answer_gain_def xc_entry_def)
  have release: "answer_release H data d (xc_entry s d) a
      = (if a = o_client oo then unat (o_fee oo) else 0) + (if a = d then unat (xp_penalty dev) else 0)" for a
    using assms(2,3,6) by (auto simp: answer_release_def xc_entry_def)
  have "xc_entry t d = answer_entry H data (xc_entry s d)" "x \<noteq> d \<Longrightarrow> xc_entry t x = xc_entry s x" for x
    using assms(2-6) by (auto simp: answer_entry_def xc_entry_def)
  with assms(1) show ?thesis
    by (auto simp only: answer_does_def gain release released_def add.assoc)
qed

lemma answer_effect:
  assumes laws: "currency_laws H" and b: "xc_backed H s" and "xc_sound_answer H s data"
    and "xc_handle_one H s data = Some t" and "answered_device H data = Some d"
  shows "answer_does H s data d t"
proof -
  consider c where "decode_message H data = Inr (OrderAccept c d)"
    | c onoff where "decode_message H data = Inr (OrderReject c d onoff)"
    | c onoff where "decode_message H data = Inr (OrderDone c d onoff)"
    using assms(5) by (auto simp: answered_device_def split: sum.splits XCMPMessage.splits)
  then show ?thesis
  proof cases
    case 1
    with assms(4) show ?thesis
      by (auto simp: xc_handle_one_def xc_on_accept_def xc_deposit_event_def answer_does_def answer_defs
          split: option.split)
  next
    case (2 c onoff)
    then have t: "t = snd (xc_on_reject H s c d onoff)" and ok: "\<not> refused (xc_on_reject H s c d onoff)"
      and named: "\<And>oo. xOrders s d = Some oo \<Longrightarrow> o_client oo = c"
      using assms(3,4) by (auto simp: xc_handle_one_def xc_sound_answer_def)
    show ?thesis
    proof (cases "\<exists>oo dev. xOrders s d = Some oo \<and> xDevice s d = Some dev")
      case True
      then obtain oo dev where o: "xOrders s d = Some oo" "xDevice s d = Some dev" by blast
      let ?dev = "dev\<lparr>xp_state := (if \<not> onoff then Off else Ready)\<rparr>"
      have r: "xc_order_reject H s (o_client oo) oo (timestamp_get H (xWorld s)) d ?dev = (Inr (), t)"
        using t ok named [OF o(1)] xc_order_reject_module [of H s c oo "timestamp_get H (xWorld s)" d ?dev]
        by (cases "xc_order_reject H s c oo (timestamp_get H (xWorld s)) d ?dev";
            cases "fst (xc_order_reject H s c oo (timestamp_get H (xWorld s)) d ?dev)";
            cases "projl (fst (xc_order_reject H s c oo (timestamp_get H (xWorld s)) d ?dev))")
          (auto simp: xc_on_reject_def refused_def o Let_def)
      show ?thesis
        using answer_does_close [of H s t oo "o_client oo" d dev onoff data c]
          xc_order_reject_releases [OF laws b o _ r] xc_order_reject_ok_simps [OF r] o 2
        by (simp split: if_splits)
    next
      case False
      then show ?thesis
        by (intro answer_does_nothing) (auto simp: t xc_on_reject_def split: option.split)
    qed
  next
    case (3 c onoff)
    then have t: "t = snd (xc_on_done H s c d onoff)" and ok: "\<not> refused (xc_on_done H s c d onoff)"
      and named: "\<And>oo. xOrders s d = Some oo \<Longrightarrow> o_client oo = c"
      using assms(3,4) by (auto simp: xc_handle_one_def xc_sound_answer_def)
    show ?thesis
    proof (cases "\<exists>oo dev. xOrders s d = Some oo \<and> xDevice s d = Some dev")
      case True
      then obtain oo dev where o: "xOrders s d = Some oo" "xDevice s d = Some dev" by blast
      have "fst (xc_on_done H s c d onoff) = Inr ()"
        using ok o by (auto simp: refused_def xc_on_done_def Let_def split: sum.splits prod.splits if_splits)
      then have r: "xc_on_done H s (o_client oo) d onoff = (Inr (), t)"
        using t named [OF o(1)] by (metis prod.collapse)
      show ?thesis
        by (rule answer_does_close [OF xc_on_done_releases [OF laws b o r] o xc_on_done_ok_simps(1,2) [OF r o]])
          (use 3 in simp)
    next
      case False
      then show ?thesis
        by (intro answer_does_nothing) (auto simp: t xc_on_done_def split: option.split)
    qed
  qed
qed

section \<open>A batch\<close>

type_synonym sibling_message = "para_id \<times> 32 word \<times> bytes"

definition payload :: "sibling_message \<Rightarrow> bytes" where
  "payload m = snd (snd m)"

abbreviation xc_message_step ::
  "('o, 'a, 'd, 'w) host \<Rightarrow> ('a, 'd, 'w) xchange \<Rightarrow> sibling_message \<Rightarrow> ('a, 'd, 'w) xchange option" where
  "xc_message_step H s m \<equiv> xc_handle_one H s (payload m)"

abbreviation xc_about :: "('o, 'a, 'd, 'w) host \<Rightarrow> sibling_message \<Rightarrow> 'a option" where
  "xc_about H m \<equiv> answered_device H (payload m)"

lemma xc_deliver_messages: "snd (xc_handle_xcmp_messages H s ms w) = deliver (xc_message_step H) s ms"
  by (induction H s ms w rule: xc_handle_xcmp_messages.induct) (auto simp: payload_def split: option.split)

lemma xc_sound_messages:
  "xc_sound_batch H s ms = sound_delivery (xc_message_step H) (\<lambda>s m. xc_sound_answer H s (payload m)) s ms"
  by (induction H s ms rule: xc_sound_batch.induct) (auto simp: payload_def split: option.split)

text \<open>Two quantities per account, its free and its reserved balance.\<close>

fun balances :: "('o, 'a, 'd, 'w) host \<Rightarrow> 'w \<Rightarrow> 'a \<times> balance_status \<Rightarrow> int" where
  "balances H w (a, Free) = int (free_balance H w a)"
| "balances H w (a, Reserved) = int (reserved_balance H w a)"

fun answer_moves ::
  "('o, 'a, 'd, 'w) host \<Rightarrow> moment \<Rightarrow> sibling_message \<Rightarrow> ('a, 'd) entry \<Rightarrow> 'a \<times> balance_status \<Rightarrow> int" where
  "answer_moves H now m e (a, Free) = int (answer_gain H now (payload m) (the (xc_about H m)) e a)"
| "answer_moves H now m e (a, Reserved) = - int (answer_release H (payload m) (the (xc_about H m)) e a)"

lemma balances_eq:
  "balances H w = balances H w' \<Longrightarrow> free_balance H w = free_balance H w' \<and> reserved_balance H w = reserved_balance H w'"
  by (simp add: fun_eq_iff) (metis balances.simps of_nat_eq_iff)

lemma answered_handled: "answered_device H data = Some d \<Longrightarrow> \<exists>t. xc_handle_one H s data = Some t"
  by (auto simp: answered_device_def xc_handle_one_def split: sum.splits XCMPMessage.splits)

lemma answer_moves_does:
  assumes "answer_does H s (payload m) d t" "xc_about H m = Some d"
  shows "balances H (xWorld t) q
    = balances H (xWorld s) q + answer_moves H (timestamp_get H (xWorld s)) m (xc_entry s d) q"
proof (cases q)
  case (Pair a st)
  have "reserved_balance H (xWorld t) a + answer_release H (payload m) d (xc_entry s d) a
      = reserved_balance H (xWorld s) a"
    using assms(1) by (simp add: answer_does_def)
  then have "int (reserved_balance H (xWorld t) a)
      = int (reserved_balance H (xWorld s) a) - int (answer_release H (payload m) d (xc_entry s d) a)"
    by linarith
  with assms show ?thesis by (cases st) (simp_all add: Pair answer_does_def)
qed

interpretation xc_answers: device_batch "xc_message_step H" "\<lambda>s m. xc_sound_answer H s (payload m)"
    "\<lambda>s. currency_laws H \<and> xc_backed H s" "\<lambda>s. timestamp_get H (xWorld s)" xc_entry "xc_about H"
    "\<lambda>now m. answer_entry H (payload m)" "\<lambda>s. balances H (xWorld s)" "answer_moves H"
  for H :: "('o, 'a, 'd, 'w) host"
proof unfold_locales
  fix s :: "('a, 'd, 'w) xchange" and t m d q x
  assume laws: "currency_laws H \<and> xc_backed H s" and sound: "xc_sound_answer H s (payload m)"
    and d: "xc_about H m = Some d"
  show "\<exists>t. xc_message_step H s m = Some t \<and> currency_laws H \<and> xc_backed H t"
    using answered_handled [OF d, of s] laws sound by (auto intro: xc_backed_kept xc_kept_one)
  assume t: "xc_message_step H s m = Some t"
  show "timestamp_get H (xWorld t) = timestamp_get H (xWorld s)" using xc_one_clock [OF _ t] laws by simp
  have does: "answer_does H s (payload m) d t" using answer_effect [OF _ _ sound t d] laws by simp
  then show "xc_entry t d = answer_entry H (payload m) (xc_entry s d)" by (simp add: answer_does_def)
  show "xc_entry t x = xc_entry s x" if "x \<noteq> d" using does that by (simp add: answer_does_def)
  show "balances H (xWorld t) q
      = balances H (xWorld s) q + answer_moves H (timestamp_get H (xWorld s)) m (xc_entry s d) q"
    by (rule answer_moves_does [OF does d])
qed

section \<open>Two orders on the concrete host\<close>

text \<open>Besides device 7, client 9 has ordered device 8, which asks for no penalty, for a fee of 20.\<close>

definition xw_two :: "(8 word, 8 word, ledger) xchange" where
  "xw_two = snd (xc_dispatch ledger_host
     (snd (xc_dispatch ledger_host xw_ordered (Some 8) (xc_call_register 2003 0 5 True)))
     (Some 9) (xc_call_order (xw_base\<lparr>ob_fee := 20, ob_device := 8\<rparr>)))"

lemma xw_two_reach: "reachable xc_init (xc_sound_step ledger_host) xw_two"
  unfolding xw_two_def
  by (rule reachable_step [where l = "XCall (Some 9) (xc_call_order (xw_base\<lparr>ob_fee := 20, ob_device := 8\<rparr>))"],
      rule reachable_step [where l = "XCall (Some 8) (xc_call_register 2003 0 5 True)"], rule xw_sound_reach)
    (rule xsound_call, simp)+

lemma xw_two_sel:
  "xOrders xw_two = [7 \<mapsto> OrderBase_convert xw_base 9,
     8 \<mapsto> OrderBase_convert (xw_base\<lparr>ob_fee := 20, ob_device := 8\<rparr>) 9]"
  "xDevice xw_two = [7 \<mapsto> xw_device\<lparr>xp_state := Busy\<rparr>,
     8 \<mapsto> \<lparr>xp_penalty = 0, xp_wcd = 5, xp_para_id = 2003, xp_state = Busy\<rparr>]"
  "l_free (xWorld xw_two) = (\<lambda>_. 0)(7 := 90, 9 := 440)"
  "l_reserved (xWorld xw_two) = (\<lambda>_. 0)(7 := 10, 9 := 60)"
  "l_now (xWorld xw_two) = 1000"
  by (simp_all add: xw_two_def op_defs xw_eval fun_eq_iff xc_order_message_def del: ledger_encode.simps)

definition two_answers :: "sibling_message list" where
  "two_answers = [(2001, 0, ledger_encode (OrderDone 9 7 True)), (2003, 0, ledger_encode (OrderReject 9 8 False))]"

lemma ledger_decodes [simp]: "ledger_decode (ledger_encode m) = Inr m"
  using decode_encode [OF ledger_codec, of m] by simp

lemma two_answers_separate: "separate (xc_about ledger_host) two_answers"
  by (simp add: separate_def two_answers_def payload_def answered_device_def del: ledger_encode.simps)

lemma two_answers_sound:
  "xc_sound_batch ledger_host xw_two two_answers" "xc_sound_batch ledger_host xw_two (rev two_answers)"
  by (simp_all add: two_answers_def xc_sound_answer_def refused_def xc_handle_one_def op_defs xw_two_sel xw_eval
      OrderBase_convert_def del: ledger_encode.simps)

section \<open>Properties\<close>



end
