(* ===== verification/Web_Settlement.thy ===== *)
theory Web_Settlement
  imports Web_Properties Answer_Batches Bank_Properties
begin

text \<open>
  How an order ends, anywhere in the web: by its client's cancel, by a rejection or by a
  completion of the service its device is registered for, and with which payments.
\<close>

section \<open>The three settlements\<close>

definition refunded ::
  "('o, 'a, 'd, 'w) host \<Rightarrow> 'w \<Rightarrow> 'w \<Rightarrow> ('a, 'd) Order \<Rightarrow> 'a \<Rightarrow> xc_DeviceProfile \<Rightarrow> bool" where
  "refunded H w w' oo d dev \<longleftrightarrow>
     released H w w' (o_client oo) (o_client oo) (unat (o_fee oo))
       d (if timestamp_get H w < o_until oo then d else o_client oo) (unat (xp_penalty dev))"

definition paid_out ::
  "('o, 'a, 'd, 'w) host \<Rightarrow> 'w \<Rightarrow> 'w \<Rightarrow> ('a, 'd) Order \<Rightarrow> 'a \<Rightarrow> xc_DeviceProfile \<Rightarrow> bool" where
  "paid_out H w w' oo d dev \<longleftrightarrow>
     released H w w' (o_client oo) d (unat (o_fee oo))
       d (if timestamp_get H w < o_until oo then d else o_client oo) (unat (xp_penalty dev))"

lemma xc_call_settles:
  assumes laws: "currency_laws H" and b: "xc_backed H s" and oo: "xOrders s d = Some oo"
    and closed: "xOrders (snd (xc_dispatch H s origin c)) d = None"
  shows "\<exists>dev. xDevice s d = Some dev \<and> c = xc_call_cancel d \<and> ensure_signed H origin = Inr (o_client oo)
    \<and> o_until oo \<le> timestamp_get H (xWorld s)
    \<and> refunded H (xWorld s) (xWorld (snd (xc_dispatch H s origin c))) oo d dev"
proof -
  from xc_call_closes [OF oo closed]
  have c: "c = xc_call_cancel d" "ensure_signed H origin = Inr (o_client oo)"
    "o_until oo \<le> timestamp_get H (xWorld s)" by auto
  obtain dev where dev: "xDevice s d = Some dev"
    using b oo by (auto simp: xc_backed_def xc_engaged_def)
  obtain r t where r: "xc_order_reject H s (o_client oo) oo (timestamp_get H (xWorld s)) d dev = (r, t)" by fastforce
  have t: "snd (xc_dispatch H s origin c) = t"
    using c(2,3) oo dev r by (simp add: c(1) xc_cancel_def Let_def not_less [symmetric])
  have "r = Inr ()"
  proof (rule ccontr)
    assume "r \<noteq> Inr ()"
    then have "xOrders t = xOrders s" using r by (auto simp: op_defs Let_def split: result_splits)
    with closed t oo show False by simp
  qed
  with xc_order_reject_releases [OF laws b oo dev refl] r
  have "refunded H (xWorld s) (xWorld t) oo d dev" by (simp add: refunded_def)
  with c dev t show ?thesis by blast
qed

lemma xc_answer_settles:
  assumes laws: "currency_laws H" and b: "xc_backed H s" and sound: "xc_sound_answer H s bs"
    and oo: "xOrders s d = Some oo"
    and t: "t = snd (xc_handle_xcmp_messages H s [(q, k, bs)] w)" and closed: "xOrders t d = None"
  shows "\<exists>dev onoff. xDevice s d = Some dev
    \<and> (decode_message H bs = Inr (OrderReject (o_client oo) d onoff) \<and> refunded H (xWorld s) (xWorld t) oo d dev
       \<or> decode_message H bs = Inr (OrderDone (o_client oo) d onoff) \<and> paid_out H (xWorld s) (xWorld t) oo d dev)"
proof -
  obtain dev where dev: "xDevice s d = Some dev"
    using b oo by (auto simp: xc_backed_def xc_engaged_def)
  have one: "xc_handle_one H s bs = Some t"
    using t closed oo by (cases "xc_handle_one H s bs") simp_all
  have "xc_handle_one H s bs \<noteq> Some s" using one closed oo by auto
  then obtain x where x: "answered_device H bs = Some x"
    using one by (auto simp: xc_handle_one_def answered_device_def split: sum.splits XCMPMessage.splits)
  note does = answer_effect [OF laws b sound one x]
  have "x = d"
    using does closed oo by (cases "x = d") (auto simp: answer_does_def xc_entry_def)
  then have e: "answer_entry H bs (xc_entry s d) = xc_entry t d"
    and f: "\<And>a. free_balance H (xWorld t) a = free_balance H (xWorld s) a
        + answer_gain H (timestamp_get H (xWorld s)) bs d (xc_entry s d) a"
    and r: "\<And>a. reserved_balance H (xWorld t) a + answer_release H bs d (xc_entry s d) a
        = reserved_balance H (xWorld s) a"
    using does by (simp_all add: answer_does_def)
  have kind: "\<exists>c onoff. decode_message H bs = Inr (OrderReject c d onoff) \<or> decode_message H bs = Inr (OrderDone c d onoff)"
    using e closed oo dev x \<open>x = d\<close>
    by (auto simp: answer_entry_def xc_entry_def answered_device_def split: sum.splits XCMPMessage.splits)
  then obtain onoff where m: "decode_message H bs = Inr (OrderReject (o_client oo) d onoff)
      \<or> decode_message H bs = Inr (OrderDone (o_client oo) d onoff)"
    using sound oo by (auto simp: xc_sound_answer_def)
  then show ?thesis
  proof
    assume m: "decode_message H bs = Inr (OrderReject (o_client oo) d onoff)"
    have "refunded H (xWorld s) (xWorld t) oo d dev"
      unfolding refunded_def released_def
      using f r by (simp add: answer_gain_def answer_release_def xc_entry_def oo dev m add.assoc)
    with m dev show ?thesis by blast
  next
    assume m: "decode_message H bs = Inr (OrderDone (o_client oo) d onoff)"
    have "paid_out H (xWorld s) (xWorld t) oo d dev"
      unfolding paid_out_def released_def
      using f r by (simp add: answer_gain_def answer_release_def xc_entry_def oo dev m add.assoc)
    with m dev show ?thesis by blast
  qed
qed

section \<open>In the web\<close>

lemma client_acts_sel [simp]: "nClient (client_acts W n p x) = (nClient n)(p := x)"
  "nClient (service_acts W n q y) = nClient n"
  by (simp_all add: client_acts_def service_acts_def)

text \<open>What can close an order of a client chain.\<close>

lemma net_step_closes:
  assumes "net_step W n l t" "xOrders (nClient n p) d = Some oo" "xOrders (nClient t p) d = None"
  shows "(\<exists>origin c. l = NClientCall p origin c \<and> nClient t p = snd (xc_dispatch (wCHost W p) (nClient n p) origin c))
    \<or> (\<exists>q bs k w. l = NAnswer q p bs \<and> q \<in> wServices W \<and> bs \<in> set (nFlight n q p)
        \<and> nClient t p = snd (xc_handle_xcmp_messages (wCHost W p) (nClient n p) [(q, k, bs)] w))"
  using assms
proof (induction rule: net_step.induct)
  case (n_client_call p' n c origin)
  then show ?case by (cases "p' = p") auto
next
  case (n_answer p' q n xs bs ys k w)
  then show ?case by (cases "p' = p") auto
next
  case (n_client_killed p' n x)
  then show ?case by (cases "p' = p") (auto simp: xc_on_killed_account_def split: option.splits if_splits)
next
  case (n_client_world p' u n)
  then show ?case by (cases "p' = p") auto
qed simp_all

lemma net_answer_addressed:
  assumes "pair_ok W n" "p \<in> wClients W" "q \<in> wServices W" "bs \<in> set (nFlight n q p)"
    and "answered (wCHost W p) d bs = [(c, v)]"
  shows "map_option xp_para_id (xDevice (nClient n p) d) = Some q"
proof -
  have "claims (wlink W p q) (pair p q n) d \<noteq> []"
    using split_list [OF assms(4)] assms(5) by (auto simp: claims_def)
  then show ?thesis using assms(1-3) by (simp add: pair_ok_def addressed_def)
qed

lemma net_sound_answer:
  assumes "pair_ok W n" "p \<in> wClients W" "q \<in> wServices W" "bs \<in> set (nFlight n q p)"
    and "answer_paid (wCHost W p) (nClient n p) bs"
  shows "xc_sound_answer (wCHost W p) (nClient n p) bs"
proof (rule named_sound_answer [OF _ assms(5)])
  fix d c v
  assume "answered (wCHost W p) d bs = [(c, v)]"
  moreover have "agreed (wlink W p q) (pair p q n)" using assms(1-3) by (simp add: pair_ok_def)
  ultimately show "\<exists>oo. xOrders (nClient n p) d = Some oo \<and> o_client oo = c"
    using agreed_answer_named [of "wlink W p q" "pair p q n" bs d c v] assms(4) by simp
qed

section \<open>Properties\<close>


lemma nw_completed_client: "nClient nw_completed 2000 = xw_ordered"
proof -
  have "pair 2000 2001 nw_completed = mw_completed"
    by (simp add: nw_completed_def nw_asked_def nw_ready_def nw_pair mw_completed_def mw_taken_def
        mw_ordered_def mw_ready_def)
  then have "mClient (pair 2000 2001 nw_completed) = mClient mw_completed" by simp
  then show ?thesis by (simp add: mw_completed_eq)
qed

definition xw_settled :: "(8 word, 8 word, ledger) xchange" where
  "xw_settled = snd (xc_handle_xcmp_messages ledger_host xw_ordered [(2001, 0, ledger_encode (OrderDone 9 7 True))] 0)"

lemma done_decoded: "decode_message ledger_host (ledger_encode (OrderDone 9 7 True)) = Inr (OrderDone 9 7 True)"
  using decode_encode [OF ledger_codec, of "OrderDone 9 7 True"] by simp

lemma xw_done_accepted: "fst (xc_on_done ledger_host xw_ordered 9 7 True) = Inr ()"
  by (simp add: xc_on_done_def xw_eval OrderBase_convert_def)

lemma xw_settled_orders: "xOrders xw_settled 7 = None"
  by (simp add: xw_settled_def xc_handle_one_def done_decoded xc_on_done_def xw_eval xc_deposit_event_def OrderBase_convert_def
      del: ledger_encode.simps)

definition nw_settled :: "(8 word, 8 word, ledger, ledger) network" where
  "nw_settled = client_acts nw_web (set_flight nw_completed 2001 2000 [ledger_encode (OrderAccept 9 7)]) 2000 xw_settled"


end
