(* ===== verification/Event_Log.thy ===== *)
theory Event_Log
  imports Xchange_Properties Service_Properties
begin

text \<open>
  What an observer learns of the marketplace pallets from their events.  Whoever follows the event
  log alone, a wallet or an indexer, keeps a picture of the open orders; the theory shows that
  the picture is exact for the client-side pallet, and for the service-side pallet up to the
  completions that a failed payment refuses, which close an order without an event.
\<close>

section \<open>Logs that can be replayed\<close>

text \<open>The interface: a step relation that appends to a log, and a view of the state that changes
  as the appended events say.\<close>

locale event_log =
  fixes init :: "'s \<Rightarrow> bool"
    and step :: "'s \<Rightarrow> 'l \<Rightarrow> 's \<Rightarrow> bool"
    and events :: "'s \<Rightarrow> 'e list"
    and view :: "'s \<Rightarrow> 'v"
    and start :: 'v
    and tells :: "'e \<Rightarrow> 'v \<Rightarrow> 'v"
  assumes log_init: "init s \<Longrightarrow> events s = [] \<and> view s = start"
    and log_step: "step s l t \<Longrightarrow> \<exists>es. events t = events s @ es \<and> view t = fold tells es (view s)"
begin

lemma log_steps:
  "(\<lambda>x y. \<exists>l. step x l y)\<^sup>*\<^sup>* s t \<Longrightarrow> \<exists>es. events t = events s @ es \<and> view t = fold tells es (view s)"
proof (induction rule: rtranclp_induct)
  case (step t u)
  then obtain es l where es: "events t = events s @ es" "view t = fold tells es (view s)" "step t l u"
    by blast
  then obtain fs where "events u = events t @ fs" "view u = fold tells fs (view t)"
    using log_step by blast
  with es show ?case by (intro exI [of _ "es @ fs"]) simp
qed simp

lemma replay: "reachable init step s \<Longrightarrow> view s = fold tells (events s) start"
proof (induction rule: reachable.induct)
  case (reachable_init s)
  then show ?case using log_init by simp
next
  case (reachable_step s l t)
  then show ?case using log_step [of s l t] by auto
qed

text \<open>Two states with the same log are indistinguishable in the view.\<close>

lemma log_determines_view:
  "reachable init step s \<Longrightarrow> reachable init step t \<Longrightarrow> events s = events t \<Longrightarrow> view s = view t"
  by (simp add: replay)

end

section \<open>The client-side pallet\<close>

text \<open>The clients of the open orders, as the events tell them.\<close>

definition xc_clients :: "('a, 'd, 'w) xchange \<Rightarrow> 'a \<rightharpoonup> 'a" where
  "xc_clients s = (\<lambda>d. map_option o_client (xOrders s d))"

fun xc_tells :: "'a xc_Event \<Rightarrow> ('a \<rightharpoonup> 'a) \<Rightarrow> ('a \<rightharpoonup> 'a)" where
  "xc_tells (XNewOrder c d) v = v(d \<mapsto> c)"
| "xc_tells (XReject c d) v = v(d := None)"
| "xc_tells (XDone c d) v = v(d := None)"
| "xc_tells _ v = v"

definition xc_logged :: "('a, 'd, 'w) xchange \<Rightarrow> ('a, 'd, 'w) xchange \<Rightarrow> bool" where
  "xc_logged s t \<longleftrightarrow> (\<exists>es. xEvents t = xEvents s @ es \<and> xc_clients t = fold xc_tells es (xc_clients s))"

lemma xc_logged_refl [intro, simp]: "xEvents t = xEvents s \<Longrightarrow> xOrders t = xOrders s \<Longrightarrow> xc_logged s t"
  by (simp add: xc_logged_def xc_clients_def)

lemma xc_logged_one:
  "xEvents t = xEvents s @ [e] \<Longrightarrow> xc_clients t = xc_tells e (xc_clients s) \<Longrightarrow> xc_logged s t"
  unfolding xc_logged_def by (intro exI [of _ "[e]"]) simp

lemma xc_logged_trans: "xc_logged s t \<Longrightarrow> xc_logged t u \<Longrightarrow> xc_logged s u"
  unfolding xc_logged_def by (metis append.assoc fold_append comp_apply)

lemma xc_clients_upd:
  "xOrders t = (xOrders s)(d \<mapsto> oo) \<Longrightarrow> xc_clients t = (xc_clients s)(d \<mapsto> o_client oo)"
  "xOrders t = (xOrders s)(d := None) \<Longrightarrow> xc_clients t = (xc_clients s)(d := None)"
  "xOrders t = xOrders s \<Longrightarrow> xc_clients t = xc_clients s"
  by (simp_all add: xc_clients_def fun_eq_iff)

lemma xc_logged_reject: "xc_logged s (snd (xc_order_reject H s who order now device dev))"
  by (auto simp: op_defs Let_def split: result_splits
      intro!: xc_logged_one [where e = "XReject who device"] xc_clients_upd(2))

lemma xc_logged_order: "xc_logged s (snd (xc_order H s origin ob))"
  by (auto simp: op_defs OrderBase_convert_def Let_def split: result_splits
      intro!: xc_logged_one [where e = "XNewOrder _ (ob_device ob)"] xc_clients_upd(1) [THEN trans])

lemma xc_logged_on_done: "xc_logged s (snd (xc_on_done H s who device onoff))"
  by (auto simp: op_defs Let_def split: result_splits
      intro!: xc_logged_one [where e = "XDone who device"] xc_clients_upd(2))

lemma xc_logged_on_reject: "xc_logged s (snd (xc_on_reject H s who device onoff))"
  by (auto simp: xc_on_reject_def xc_logged_reject Let_def split: result_splits)

lemma xc_logged_on_accept: "xc_logged s (snd (xc_on_accept s who device))"
  by (auto simp: xc_on_accept_def xc_deposit_event_def
      intro!: xc_logged_one [where e = "XAccept who device"] xc_clients_upd(3))

lemma xc_logged_register: "xc_logged s (snd (xc_register H s origin paraid pen wcd onoff))"
  by (auto simp: op_defs split: result_splits
      intro!: xc_logged_one [where e = "XNewDevice _"] xc_clients_upd(3))

lemma xc_logged_dispatch: "xc_logged s (snd (xc_dispatch H s origin c))"
  by (cases c)
    (auto simp: xc_logged_order xc_logged_register xc_test_def xc_cancel_def xc_logged_reject Let_def
      split: result_splits)

lemma xc_logged_handle: "xc_handle_one H s data = Some t \<Longrightarrow> xc_logged s t"
  by (auto simp: xc_handle_one_def xc_logged_on_accept xc_logged_on_reject xc_logged_on_done
      split: sum.splits XCMPMessage.splits)

lemma xc_logged_deliver: "xc_logged s (snd (xc_handle_xcmp_messages H s msgs w))"
proof (induction H s msgs w rule: xc_handle_xcmp_messages.induct)
  case (2 H s sender sent_at data rest w)
  then show ?case
    by (auto split: option.split intro: xc_logged_trans dest: xc_logged_handle)
qed simp

lemma xc_logged_step: "xc_step H s l t \<Longrightarrow> xc_logged s t"
  by (induction rule: xc_step.induct)
    (auto simp: xc_logged_dispatch xc_logged_deliver xc_on_killed_account_def split: option.split)

interpretation xc_log: event_log xc_init "xc_step H" xEvents xc_clients Map.empty xc_tells
  by unfold_locales
    (simp add: xc_init_def xc_clients_def, rule xc_logged_step [unfolded xc_logged_def])

section \<open>The service-side pallet\<close>

definition sv_occupied :: "('a, 'd, 'w) service \<Rightarrow> 'a set" where
  "sv_occupied s = dom (sOrders s)"

fun sv_tells :: "'a sv_Event \<Rightarrow> 'a set \<Rightarrow> 'a set" where
  "sv_tells (SNewOrder d) v = insert d v"
| "sv_tells (SReject d) v = v - {d}"
| "sv_tells (SDone d) v = v - {d}"
| "sv_tells _ v = v"

definition sv_logged :: "('a, 'd, 'w) service \<Rightarrow> ('a, 'd, 'w) service \<Rightarrow> bool" where
  "sv_logged s t \<longleftrightarrow> (\<exists>es. sEvents t = sEvents s @ es \<and> sv_occupied t = fold sv_tells es (sv_occupied s))"

text \<open>The steps of the pallet but for completions that are refused after the order has gone.\<close>

definition sv_told_step ::
  "('o, 'a, 'd, 'w) host \<Rightarrow> ('a, 'd) sv_Config \<Rightarrow> ('a, 'd, 'w) service
     \<Rightarrow> ('o, 'a, 'd) sv_label \<Rightarrow> ('a, 'd, 'w) service \<Rightarrow> bool" where
  "sv_told_step H C s l t \<longleftrightarrow> sv_step H C s l t
     \<and> (\<forall>origin onoff. l = SCall origin (sv_call_done onoff) \<longrightarrow>
          fst (sv_done H C s origin onoff) = Inr () \<or> sOrders t = sOrders s)"

lemma sv_logged_refl [intro, simp]: "sEvents t = sEvents s \<Longrightarrow> sOrders t = sOrders s \<Longrightarrow> sv_logged s t"
  by (simp add: sv_logged_def sv_occupied_def)

lemma sv_logged_one:
  "sEvents t = sEvents s @ [e] \<Longrightarrow> dom (sOrders t) = sv_tells e (dom (sOrders s)) \<Longrightarrow> sv_logged s t"
  unfolding sv_logged_def sv_occupied_def by (intro exI [of _ "[e]"]) simp

lemma sv_logged_trans: "sv_logged s t \<Longrightarrow> sv_logged t u \<Longrightarrow> sv_logged s u"
  unfolding sv_logged_def by (metis append.assoc fold_append comp_apply)

lemma sv_logged_store:
  "sEvents s' = sEvents s \<Longrightarrow> sOrders s' = sOrders s \<Longrightarrow> sv_logged s (sv_store_order H C s' oo d dev)"
  unfolding sv_logged_def sv_occupied_def
  by (intro exI [of _ "SNewOrder d # (if sp_state dev = Accepted then [SAccept d] else [])"]) simp

lemma sv_logged_received: "sv_logged s (snd (sv_order_received H C s oo d))"
  by (auto simp: sv_order_received_def Let_def intro!: sv_logged_store split: result_splits)

lemma sv_logged_close:
  "sEvents s' = sEvents s \<Longrightarrow> sOrders s' = sOrders s \<Longrightarrow> sv_logged s (sv_close_rejected s' d dev)"
  by (rule sv_logged_one [where e = "SReject d"]) simp_all

lemma sv_logged_reject: "sv_logged s (snd (sv_order_reject H C s oo now d dev onoff))"
  by (auto simp: sv_order_reject_def Let_def intro!: sv_logged_close split: result_splits)

lemma sv_logged_accept: "sv_logged s (snd (sv_accept H C s origin reject onoff))"
  by (auto simp: sv_accept_def Let_def sv_logged_reject split: result_splits
      intro!: sv_logged_one [where e = "SAccept _"])

lemma sv_order_done_log:
  "sOrders (snd (sv_order_done H C s oo now d dev onoff)) = sOrders s
   \<and> sEvents (snd (sv_order_done H C s oo now d dev onoff)) = sEvents s
       @ (if fst (sv_order_done H C s oo now d dev onoff) = Inr () then [SDone d] else [])"
  by (simp add: sv_order_done_def Let_def split: sum.split prod.split)

lemma sv_done_log:
  "sOrders (snd (sv_done H C s origin onoff)) = sOrders s \<and> sEvents (snd (sv_done H C s origin onoff)) = sEvents s
     \<and> fst (sv_done H C s origin onoff) \<noteq> Inr ()
   \<or> (\<exists>d oo. sOrders s d = Some oo \<and> sOrders (snd (sv_done H C s origin onoff)) = (sOrders s)(d := None)
       \<and> sEvents (snd (sv_done H C s origin onoff)) = sEvents s
           @ (if fst (sv_done H C s origin onoff) = Inr () then [SDone d] else []))"
  by (auto simp: sv_done_def sv_order_done_log Let_def split: option.split sum.split)

lemma sv_logged_done:
  assumes "fst (sv_done H C s origin onoff) = Inr () \<or> sOrders (snd (sv_done H C s origin onoff)) = sOrders s"
  shows "sv_logged s (snd (sv_done H C s origin onoff))"
  using sv_done_log [of H C s origin onoff]
proof (elim disjE conjE exE)
  fix d oo
  let ?t = "snd (sv_done H C s origin onoff)"
  assume d: "sOrders s d = Some oo" "sOrders ?t = (sOrders s)(d := None)"
    "sEvents ?t = sEvents s @ (if fst (sv_done H C s origin onoff) = Inr () then [SDone d] else [])"
  from d(1,2) have "sOrders ?t \<noteq> sOrders s" by (metis fun_upd_same option.distinct(1))
  with assms have "fst (sv_done H C s origin onoff) = Inr ()" by blast
  with d show ?thesis by (intro sv_logged_one [where e = "SDone d"]) simp_all
qed simp

lemma sv_logged_dispatch:
  assumes "\<And>onoff. c = sv_call_done onoff \<Longrightarrow> fst (sv_done H C s origin onoff) = Inr ()
    \<or> sOrders (snd (sv_done H C s origin onoff)) = sOrders s"
  shows "sv_logged s (snd (sv_dispatch H C s origin c))"
proof (cases c)
  case (sv_call_done onoff)
  then show ?thesis using sv_logged_done [OF assms] by simp
qed (auto simp: sv_order_def sv_logged_received sv_cancel_def sv_logged_reject sv_logged_accept
    sv_register_def sv_set_state_def Let_def split: result_splits
    intro!: sv_logged_one [where e = "SNewDevice _"])

lemma sv_logged_handle: "sv_handle_one H C s sender data = Some t \<Longrightarrow> sv_logged s t"
  by (auto simp: sv_handle_one_def sv_logged_received split: sum.splits XCMPMessage.splits)

lemma sv_logged_deliver: "sv_logged s (snd (sv_handle_xcmp_messages H C s msgs w))"
proof (induction H C s msgs w rule: sv_handle_xcmp_messages.induct)
  case (2 H C s sender sent_at data rest w)
  then show ?case
    by (auto split: option.split intro: sv_logged_trans dest: sv_logged_handle)
qed simp

lemma sv_logged_step: "sv_told_step H C s l t \<Longrightarrow> sv_logged s t"
proof -
  assume told: "sv_told_step H C s l t"
  then have "sv_step H C s l t" by (simp add: sv_told_step_def)
  then show ?thesis
  proof cases
    case (sstep_call origin c)
    show ?thesis unfolding sstep_call(2)
      by (rule sv_logged_dispatch) (use told sstep_call in \<open>simp add: sv_told_step_def\<close>)
  qed (simp_all add: sv_logged_deliver sv_on_killed_account_def split: option.split)
qed

interpretation sv_log: event_log sv_init "sv_told_step H C" sEvents sv_occupied "{}" sv_tells
  by unfold_locales
    (simp add: sv_init_def sv_occupied_def, rule sv_logged_step [unfolded sv_logged_def])

text \<open>Whatever happens, the log misses no open order.\<close>

lemma sv_told_or_silent:
  assumes "sv_step H C s l t"
  shows "sv_told_step H C s l t
    \<or> sEvents t = sEvents s \<and> sv_occupied t \<subseteq> sv_occupied s"
proof (cases "\<exists>origin onoff. l = SCall origin (sv_call_done onoff)")
  case True
  then obtain origin onoff where "l = SCall origin (sv_call_done onoff)" by blast
  with assms sv_done_log [of H C s origin onoff] show ?thesis
    by (auto simp: sv_told_step_def sv_occupied_def split: if_splits)
qed (use assms in \<open>auto simp: sv_told_step_def\<close>)

lemma sv_tells_mono: "v \<subseteq> w \<Longrightarrow> fold sv_tells es v \<subseteq> fold sv_tells es w"
proof (induction es arbitrary: v w)
  case (Cons e es)
  have "sv_tells e v \<subseteq> sv_tells e w" using Cons.prems by (cases e) auto
  with Cons.IH show ?case by simp
qed simp

lemma sv_log_misses_none: "reachable sv_init (sv_step H C) s \<Longrightarrow> dom (sOrders s) \<subseteq> fold sv_tells (sEvents s) {}"
proof (induction rule: reachable.induct)
  case (reachable_init s)
  then show ?case by (simp add: sv_init_def)
next
  case (reachable_step s l t)
  from sv_told_or_silent [OF reachable_step.hyps(2)] show ?case
  proof
    assume "sv_told_step H C s l t"
    from sv_logged_step [OF this]
    obtain es where "sEvents t = sEvents s @ es" "dom (sOrders t) = fold sv_tells es (dom (sOrders s))"
      by (auto simp: sv_logged_def sv_occupied_def)
    with sv_tells_mono [OF reachable_step.IH, of es] show ?thesis by simp
  next
    assume "sEvents t = sEvents s \<and> sv_occupied t \<subseteq> sv_occupied s"
    with reachable_step.IH show ?thesis unfolding sv_occupied_def by (metis order_trans)
  qed
qed

section \<open>Properties\<close>

text \<open>C21: The events of the client-side pallet tell all there is to know about who has an order
  open on which device: in every reachable state the stored clients are what one gets by
  replaying the log, adding at \<open>NewOrder\<close> and removing at \<open>Reject\<close> and \<open>Done\<close>.  No operation,
  message or hook opens or closes an order silently, and none logs what it did not do.\<close>

theorem xc_log_tells_orders:
  assumes "reachable xc_init (xc_step H) s"
  shows "(\<lambda>d. map_option o_client (xOrders s d)) = fold xc_tells (xEvents s) Map.empty"
  using xc_log.replay [OF assms] by (simp add: xc_clients_def)

theorem xc_log_tells_orders_witness:
  "fold xc_tells (xEvents xw_ordered) Map.empty = [7 \<mapsto> 9]"
proof -
  have "(\<lambda>d. map_option o_client (xOrders xw_ordered d)) = [7 \<mapsto> 9]"
    by (simp add: xw_ordered_order OrderBase_convert_def fun_eq_iff)
  with xc_log_tells_orders [OF xw_reach] show ?thesis by simp
qed

text \<open>C22: The events of the service-side pallet tell which devices have an order, as long as no
  completion is refused: then the devices with an open order are what one gets by replaying the
  log.  Without that restriction the log still misses no open order, but it may show orders that
  are gone (\<open>sv_log_misses_none\<close>, \<open>sv_refused_done_is_silent\<close>).\<close>

theorem sv_log_tells_orders:
  assumes "reachable sv_init (sv_told_step H C) s"
  shows "dom (sOrders s) = fold sv_tells (sEvents s) {}"
  using sv_log.replay [OF assms] by (simp add: sv_occupied_def)

lemma sw_told_start: "reachable sv_init (sv_told_step ledger_host sw_config) sw_start"
  by (rule reachable_init) (simp add: sv_init_def sw_start_def)

lemma sw_told_run:
  "reachable sv_init (sv_told_step ledger_host sw_config) s \<Longrightarrow> (\<And>b. c \<noteq> sv_call_done b)
     \<Longrightarrow> reachable sv_init (sv_told_step ledger_host sw_config) (sw_run s who c)"
  by (erule reachable_step [where l = "SCall (Some who) c"]) (auto simp: sv_told_step_def sw_run_def)

theorem sv_log_tells_orders_witness:
  "fold sv_tells (sEvents sw_accepted) {} = {7}"
proof -
  have "reachable sv_init (sv_told_step ledger_host sw_config) sw_accepted"
    unfolding sw_accepted_def sw_ordered_def sw_registered_def
    by (intro sw_told_run sw_told_start) simp_all
  from sv_log_tells_orders [OF this] show ?thesis by (simp add: sw_accepted_eq)
qed

text \<open>The run in which the log and the storage part: the completion of \<open>sw_dead\<close> is refused.\<close>

lemma sv_refused_done_is_silent:
  "sOrders (sw_run sw_dead 7 (sv_call_done True)) = Map.empty
   \<and> sEvents (sw_run sw_dead 7 (sv_call_done True)) = sEvents sw_dead
   \<and> 7 \<in> fold sv_tells (sEvents (sw_run sw_dead 7 (sv_call_done True))) {}"
  by (simp add: sw_run_def sw_dead_def sw_late_eq op_defs sw_data)

end
