(* ===== verification/Order_Batches.thy ===== *)
theory Order_Batches
  imports Answer_Batches Service_Properties
begin

text \<open>
  A batch of orders at the service-side pallet.  Client chains order independently; orders for
  different devices may lie in a batch in any order, and the pallet takes the same ones.
\<close>

section \<open>One order of another chain\<close>

definition ordered_device :: "('o, 'a, 'd, 'w) host \<Rightarrow> sibling_message \<Rightarrow> 'a option" where
  "ordered_device H m = (case decode_message H (payload m) of
     Inr (NewOrder c ob) \<Rightarrow> Some (ob_device ob) | _ \<Rightarrow> None)"

definition remote_order :: "'a \<Rightarrow> ('a, 'd) OrderBase \<Rightarrow> para_id \<Rightarrow> ('a, 'd) Order" where
  "remote_order c ob sender =
     \<lparr>o_until = ob_until ob, o_data = ob_data ob, o_fee = ob_fee ob, o_client = c, o_paraid = sender\<rparr>"

type_synonym ('a, 'd) sv_entry = "('a, 'd) Order option \<times> sv_DeviceProfile option"

definition sv_entry_of :: "('a, 'd, 'w) service \<Rightarrow> 'a \<Rightarrow> ('a, 'd) sv_entry" where
  "sv_entry_of s d = (sOrders s d, sDevice s d)"

text \<open>What an order does to the entry of its device: taken if the device is ready and free, the
  time suffices and the policy agrees.\<close>

definition order_entry ::
  "('o, 'a, 'd, 'w) host \<Rightarrow> ('a, 'd) sv_Config \<Rightarrow> moment \<Rightarrow> sibling_message \<Rightarrow> ('a, 'd) sv_entry
     \<Rightarrow> ('a, 'd) sv_entry" where
  "order_entry H C now m e =
     (case (decode_message H (payload m), e) of
        (Inr (NewOrder c ob), (None, Some dev)) \<Rightarrow>
          (let oo = remote_order c ob (fst m) in
           if now < ob_until ob \<and> sp_state dev = Ready \<and> \<not> ob_until ob < now + sp_wcd dev
           then (case OnReceived C (ob_device ob) oo of
                   None \<Rightarrow> e | Some st \<Rightarrow> (Some oo, Some (dev\<lparr>sp_state := st\<rparr>)))
           else e)
      | _ \<Rightarrow> e)"

abbreviation sv_message_step ::
  "('o, 'a, 'd, 'w) host \<Rightarrow> ('a, 'd) sv_Config \<Rightarrow> ('a, 'd, 'w) service \<Rightarrow> sibling_message
     \<Rightarrow> ('a, 'd, 'w) service option" where
  "sv_message_step H C s m \<equiv> sv_handle_one H C s (fst m) (payload m)"

lemma sv_deliver_messages: "snd (sv_handle_xcmp_messages H C s ms w) = deliver (sv_message_step H C) s ms"
  by (induction H C s ms w rule: sv_handle_xcmp_messages.induct) (auto simp: payload_def split: option.split)

lemma sv_order_message:
  assumes "ordered_device H m = Some d" "sv_message_step H C s m = Some t"
  obtains c ob where "decode_message H (payload m) = Inr (NewOrder c ob)" "ob_device ob = d"
    "t = snd (sv_order_received H C s (remote_order c ob (fst m)) d)"
  using assms
  by (auto simp: ordered_device_def sv_handle_one_def remote_order_def split: sum.splits XCMPMessage.splits)

lemma sv_received_entry:
  assumes "p \<noteq> SelfParaId C"
  shows "sv_entry_of (snd (sv_order_received H C s (remote_order c ob p) d)) d =
     (case sv_entry_of s d of
        (None, Some dev) \<Rightarrow>
          (if timestamp_get H (sWorld s) < ob_until ob \<and> sp_state dev = Ready
              \<and> \<not> ob_until ob < timestamp_get H (sWorld s) + sp_wcd dev
           then (case OnReceived C d (remote_order c ob p) of
                   None \<Rightarrow> sv_entry_of s d
                 | Some st \<Rightarrow> (Some (remote_order c ob p), Some (dev\<lparr>sp_state := st\<rparr>)))
           else sv_entry_of s d)
      | _ \<Rightarrow> sv_entry_of s d)"
  using assms
  by (auto simp: sv_order_received_def sv_entry_of_def Let_def remote_order_def not_le split: option.split)

lemma sv_received_other:
  "x \<noteq> d \<Longrightarrow> sv_entry_of (snd (sv_order_received H C s oo d)) x = sv_entry_of s x"
  by (auto simp: sv_order_received_def sv_entry_of_def Let_def split: result_splits)

interpretation sv_orders: device_batch "sv_message_step H C" "\<lambda>s m. fst m \<noteq> SelfParaId C"
    "\<lambda>s. currency_laws H" "\<lambda>s. timestamp_get H (sWorld s)" sv_entry_of "ordered_device H"
    "order_entry H C" "\<lambda>s. balances H (sWorld s)" "\<lambda>now m e q. 0"
  for H :: "('o, 'a, 'd, 'w) host" and C :: "('a, 'd) sv_Config"
proof unfold_locales
  fix s :: "('a, 'd, 'w) service" and t m d q x
  assume laws: "currency_laws H" and sender: "fst m \<noteq> SelfParaId C" and d: "ordered_device H m = Some d"
  show "\<exists>t. sv_message_step H C s m = Some t \<and> currency_laws H"
    using d laws by (auto simp: ordered_device_def sv_handle_one_def split: sum.splits XCMPMessage.splits)
  assume t: "sv_message_step H C s m = Some t"
  from sv_order_message [OF d t] obtain c ob where m: "decode_message H (payload m) = Inr (NewOrder c ob)"
    "ob_device ob = d" "t = snd (sv_order_received H C s (remote_order c ob (fst m)) d)" by blast
  have same: "same_funds H (sWorld s) (sWorld t)"
    unfolding m(3) by (rule sv_received_remote_same [OF laws]) (simp add: remote_order_def sender)
  then show "timestamp_get H (sWorld t) = timestamp_get H (sWorld s)" by (simp add: same_funds_def)
  show "sv_entry_of t d = order_entry H C (timestamp_get H (sWorld s)) m (sv_entry_of s d)"
    unfolding m(3) sv_received_entry [OF sender] by (simp add: order_entry_def m(1,2) Let_def split: option.split prod.split)
  show "sv_entry_of t x = sv_entry_of s x" if "x \<noteq> d" unfolding m(3) by (rule sv_received_other [OF that])
  show "balances H (sWorld t) q = balances H (sWorld s) q + 0"
    using same by (cases q; cases "snd q") (auto simp: same_funds_def)
qed

lemma foreign_delivery:
  "\<forall>m\<in>set ms. fst m \<noteq> p \<Longrightarrow> sound_delivery step (\<lambda>s m. fst m \<noteq> p) s ms"
  by (induction ms arbitrary: s) (auto split: option.split)

section \<open>Properties\<close>

text \<open>C20: Which orders of other chains a service takes does not depend on the order in which they
  arrive, if they are for different devices: the stored orders, the devices and all balances
  come out the same.\<close>

theorem order_arrival_irrelevant:
  assumes "currency_laws H" and "separate (ordered_device H) ms" and "mset ms' = mset ms"
    and "\<forall>m\<in>set ms. fst m \<noteq> SelfParaId C"
    and "t = snd (sv_handle_xcmp_messages H C s ms w)" and "t' = snd (sv_handle_xcmp_messages H C s ms' w')"
  shows "sOrders t' = sOrders t \<and> sDevice t' = sDevice t
    \<and> free_balance H (sWorld t') = free_balance H (sWorld t)
    \<and> reserved_balance H (sWorld t') = reserved_balance H (sWorld t)"
proof -
  have "\<forall>m\<in>set ms'. fst m \<noteq> SelfParaId C" using assms(4) mset_eq_setD [OF assms(3)] by simp
  note batch = sv_orders.batch_order [OF assms(1-3) foreign_delivery [OF assms(4)] foreign_delivery [OF this], of s]
  then have "sv_entry_of t' = sv_entry_of t" "balances H (sWorld t') = balances H (sWorld t)"
    unfolding assms(5,6) sv_deliver_messages by auto
  then show ?thesis using balances_eq [of H "sWorld t'" "sWorld t"] by (simp add: fun_eq_iff sv_entry_of_def)
qed

text \<open>Device 7 is registered; client 9 of parachain 2001 orders it, client 3 of parachain 2002 orders
  device 8, which is not.\<close>

definition two_orders :: "sibling_message list" where
  "two_orders = [(2001, 0, ledger_encode (NewOrder 9 sw_base)),
     (2002, 0, ledger_encode (NewOrder 3 (sw_base\<lparr>ob_device := 8\<rparr>)))]"

lemma two_orders_separate: "separate (ordered_device ledger_host) two_orders"
  by (simp add: separate_def two_orders_def payload_def ordered_device_def sw_base_def del: ledger_encode.simps)

theorem order_arrival_irrelevant_witness:
  "sOrders (snd (sv_handle_xcmp_messages ledger_host sw_config sw_registered (rev two_orders) 0)) = [7 \<mapsto> sw_order 2001]"
proof -
  have "sOrders (snd (sv_handle_xcmp_messages ledger_host sw_config sw_registered two_orders 0)) = [7 \<mapsto> sw_order 2001]"
    by (simp add: two_orders_def sv_handle_one_def op_defs sw_states sw_data del: ledger_encode.simps)
  moreover have "\<forall>m\<in>set two_orders. fst m \<noteq> SelfParaId sw_config"
    by (simp add: two_orders_def sw_config_def)
  ultimately show ?thesis
    using order_arrival_irrelevant [OF ledger_laws two_orders_separate mset_rev _ refl refl, of sw_config sw_registered 0 0]
    by simp
qed

end
