(* ===== verification/Storage_Types.thy ===== *)
theory Storage_Types
  imports Xchange_Properties Service_Properties
begin

text \<open>
  The storage of both pallets as a type: what a device's entry and its order look like
  together.  Every step keeps the storage well-typed, from any well-typed state.  It follows
  that no order and no device is ever stuck: the client can end an order after its deadline,
  and the device can free itself at any time, unless the currency refuses the payout.
\<close>

section \<open>The client pallet\<close>

text \<open>No device is ever \<open>Accepted\<close>; an order has parachain id 0, as \<open>convert\<close> writes it, and a
  device that is busy or abandoned.\<close>

definition xc_cell :: "xc_DeviceProfile option \<Rightarrow> ('a, 'd) Order option \<Rightarrow> bool" where
  "xc_cell device order \<longleftrightarrow>
     (\<forall>dev. device = Some dev \<longrightarrow> xp_state dev \<noteq> Accepted)
   \<and> (\<forall>oo. order = Some oo \<longrightarrow> o_paraid oo = 0
        \<and> (\<exists>dev. device = Some dev \<and> xp_state dev \<in> {Busy, Timewait}))"

definition xc_typed :: "('a, 'd, 'w) xchange \<Rightarrow> bool" where
  "xc_typed s \<longleftrightarrow> finite (dom (xDevice s)) \<and> (\<forall>d. xc_cell (xDevice s d) (xOrders s d))"

lemma xc_typed_cell: "xc_typed s \<Longrightarrow> xc_cell (xDevice s d) (xOrders s d)"
  by (simp add: xc_typed_def)

lemma xc_typed_world [simp]: "xc_typed (s\<lparr>xWorld := w\<rparr>) = xc_typed s"
  by (simp add: xc_typed_def)

text \<open>A change at one device.\<close>

lemma xc_typedI:
  assumes "xc_typed s" "xc_only {d} s t"
    and "xc_cell (xDevice s d) (xOrders s d) \<Longrightarrow> xc_cell (xDevice t d) (xOrders t d)"
  shows "xc_typed t"
proof -
  have same: "xDevice t e = xDevice s e" "xOrders t e = xOrders s e" if "e \<noteq> d" for e
    using assms(2) that by (simp_all add: xc_only_def)
  then have "dom (xDevice t) \<subseteq> insert d (dom (xDevice s))" by fastforce
  then have "finite (dom (xDevice t))"
    using assms(1) by (simp add: xc_typed_def finite_subset)
  moreover have "xc_cell (xDevice t e) (xOrders t e)" for e
    using assms(3) same xc_typed_cell [OF assms(1)] by (cases "e = d") simp_all
  ultimately show ?thesis by (simp add: xc_typed_def)
qed

lemma xc_typed_order:
  assumes "xc_typed s"
  shows "xc_typed (snd (xc_order H s origin ob))"
  by (rule xc_typedI [OF assms xc_order_only])
    (auto simp: op_defs xc_cell_def Let_def split: result_splits)

lemma xc_typed_reject:
  assumes "xc_typed s" "xp_state dev \<noteq> Accepted"
  shows "xc_typed (snd (xc_order_reject H s who oo now d dev))"
  by (rule xc_typedI [OF assms(1), of d])
    (use assms(2) in \<open>auto simp: frame_facts xc_only_def\<close>, use assms(2) in \<open>auto simp: op_defs xc_cell_def Let_def split: result_splits\<close>)

lemma xc_typed_dispatch:
  assumes "xc_typed s"
  shows "xc_typed (snd (xc_dispatch H s origin c))"
proof (cases c)
  case xc_call_test
  then show ?thesis using assms by (auto simp: xc_test_def Let_def split: result_splits)
next
  case (xc_call_cancel d)
  have "xp_state dev \<noteq> Accepted" if "xDevice s d = Some dev" for dev
    using xc_typed_cell [OF assms, of d] that by (simp add: xc_cell_def)
  with xc_call_cancel assms show ?thesis
    by (auto simp: xc_cancel_def Let_def intro: xc_typed_reject split: sum.split option.split)
next
  case (xc_call_register paraid penalty wcd onoff)
  have "xc_typed (snd (xc_register H s origin paraid penalty wcd onoff))"
  proof (cases "ensure_signed H origin")
    case (Inr who)
    show ?thesis
      by (rule xc_typedI [OF assms, of who])
        (auto simp: op_defs Inr xc_cell_def xc_only_def)
  qed (simp add: xc_register_def assms)
  with xc_call_register show ?thesis by simp
qed (simp add: xc_typed_order assms)

lemma xc_typed_on_done:
  assumes "xc_typed s"
  shows "xc_typed (snd (xc_on_done H s who d onoff))"
  by (rule xc_typedI [OF assms xc_on_done_only])
    (auto simp: op_defs xc_cell_def Let_def split: result_splits)

lemma xc_typed_one:
  assumes "xc_typed s" "xc_handle_one H s data = Some t"
  shows "xc_typed t"
proof -
  have "xc_typed (snd (xc_on_reject H s c d b))" for c d b
    using assms(1) by (auto simp: xc_on_reject_def Let_def intro: xc_typed_reject split: option.split)
  moreover have "xc_typed (snd (xc_on_accept s c d))" for c d
    using assms(1) by (simp add: xc_on_accept_def xc_deposit_event_def xc_typed_def)
  ultimately show ?thesis
    using assms xc_typed_on_done [OF assms(1)]
    by (auto simp: xc_handle_one_def split: sum.splits XCMPMessage.splits)
qed

lemma xc_typed_deliver: "xc_typed s \<Longrightarrow> xc_typed (snd (xc_handle_xcmp_messages H s msgs w))"
proof (induction H s msgs w rule: xc_handle_xcmp_messages.induct)
  case (2 H s sender sent_at data rest w)
  then show ?case by (cases "xc_handle_one H s data") (simp_all add: xc_typed_one)
qed simp

lemma xc_typed_killed:
  assumes "xc_typed s"
  shows "xc_typed (xc_on_killed_account s a)"
  by (rule xc_typedI [OF assms, of a])
    (auto simp: xc_on_killed_account_def xc_cell_def xc_only_def split: option.split)

lemma xc_typed_step: "xc_typed s \<Longrightarrow> xc_step H s l t \<Longrightarrow> xc_typed t"
  by (induction l rule: xc_label.induct)
    (auto simp: xc_typed_dispatch xc_typed_deliver xc_typed_killed simp del: xc_handle_xcmp_messages.simps)

interpretation xc_types: transition_system xc_init "xc_step H" xc_typed
  by unfold_locales (simp add: xc_init_def xc_typed_def xc_cell_def, rule xc_typed_step)

section \<open>The service pallet\<close>

text \<open>No device is ever \<open>Timewait\<close>, and an order has a device that is busy or has accepted.\<close>

definition sv_cell :: "sv_DeviceProfile option \<Rightarrow> ('a, 'd) Order option \<Rightarrow> bool" where
  "sv_cell device order \<longleftrightarrow>
     (\<forall>dev. device = Some dev \<longrightarrow> sp_state dev \<noteq> Timewait)
   \<and> (order \<noteq> None \<longrightarrow> (\<exists>dev. device = Some dev \<and> sp_state dev \<in> {Busy, Accepted}))"

definition sv_typed :: "('a, 'd, 'w) service \<Rightarrow> bool" where
  "sv_typed s \<longleftrightarrow> finite (dom (sDevice s)) \<and> (\<forall>d. sv_cell (sDevice s d) (sOrders s d))"

lemma sv_typed_cell: "sv_typed s \<Longrightarrow> sv_cell (sDevice s d) (sOrders s d)"
  by (simp add: sv_typed_def)

definition sv_only :: "'a \<Rightarrow> ('a, 'd, 'w) service \<Rightarrow> ('a, 'd, 'w) service \<Rightarrow> bool" where
  "sv_only d s t \<longleftrightarrow> (\<forall>e. e \<noteq> d \<longrightarrow> sDevice t e = sDevice s e \<and> sOrders t e = sOrders s e)"

lemma sv_typedI:
  assumes "sv_typed s" "sv_only d s t"
    and "sv_cell (sDevice s d) (sOrders s d) \<Longrightarrow> sv_cell (sDevice t d) (sOrders t d)"
  shows "sv_typed t"
proof -
  have same: "sDevice t e = sDevice s e" "sOrders t e = sOrders s e" if "e \<noteq> d" for e
    using assms(2) that by (simp_all add: sv_only_def)
  then have "dom (sDevice t) \<subseteq> insert d (dom (sDevice s))" by fastforce
  then have "finite (dom (sDevice t))"
    using assms(1) by (simp add: sv_typed_def finite_subset)
  moreover have "sv_cell (sDevice t e) (sOrders t e)" for e
    using assms(3) same sv_typed_cell [OF assms(1)] by (cases "e = d") simp_all
  ultimately show ?thesis by (simp add: sv_typed_def)
qed

lemma sv_typed_received:
  assumes "order_policy (OnReceived C)" "sv_typed s"
  shows "sv_typed (snd (sv_order_received H C s oo d))"
proof -
  have "st = Busy \<or> st = Accepted" if "OnReceived C d oo = Some st" for st
    using order_policy.policy_state [OF assms(1)] that by blast
  then show ?thesis
    by (intro sv_typedI [OF assms(2), of d])
      (auto simp: sv_order_received_def sv_cell_def sv_only_def Let_def split: result_splits)
qed

lemma sv_typed_dispatch:
  assumes "order_policy (OnReceived C)" "sv_typed s"
  shows "sv_typed (snd (sv_dispatch H C s origin c))"
proof (cases "ensure_signed H origin")
  case (Inl e)
  then show ?thesis using assms(2) by (cases c) (simp_all add: sv_calls)
next
  case (Inr who)
  have switch: "sv_switch b x = Some y \<Longrightarrow> y \<noteq> Timewait \<and> x \<noteq> Busy \<and> x \<noteq> Accepted" for b x y
    by (cases b; cases x) auto
  have other: "sv_typed (snd (sv_dispatch H C s origin c))" if "\<And>ob. c \<noteq> sv_call_order ob" "\<And>d. c \<noteq> sv_call_cancel d"
    by (rule sv_typedI [OF assms(2), of who]; insert that; cases c)
      (auto simp: sv_calls Inr sv_cell_def sv_only_def Let_def dest: switch split: result_splits)
  show ?thesis
  proof (cases c)
    case (sv_call_order ob)
    then show ?thesis by (simp add: sv_order_def Inr sv_typed_received [OF assms])
  next
    case (sv_call_cancel d)
    have "sv_typed (snd (sv_cancel H C s origin d))"
      by (rule sv_typedI [OF assms(2), of d]) (auto simp: sv_calls Inr sv_cell_def sv_only_def Let_def split: result_splits)
    with sv_call_cancel show ?thesis by simp
  qed (use other in simp_all)
qed

lemma sv_typed_deliver:
  assumes "order_policy (OnReceived C)"
  shows "sv_typed s \<Longrightarrow> sv_typed (snd (sv_handle_xcmp_messages H C s msgs w))"
proof (induction msgs arbitrary: s)
  case (Cons m msgs)
  obtain sender n data where m: "m = (sender, n, data)" by (cases m)
  show ?case
  proof (cases "sv_handle_one H C s sender data")
    case (Some t)
    then have "sv_typed t"
      using sv_typed_received [OF assms Cons.prems]
      by (auto simp: sv_handle_one_def split: sum.splits XCMPMessage.splits)
    with Cons.IH [of t] Some show ?thesis by (simp add: m)
  qed (simp add: m Cons.prems)
qed simp

lemma sv_typed_killed:
  assumes "sv_typed s"
  shows "sv_typed (sv_on_killed_account s a)"
  by (rule sv_typedI [OF assms, of a])
    (auto simp: sv_on_killed_account_def sv_cell_def sv_only_def split: option.split)

lemma sv_typed_step:
  assumes "order_policy (OnReceived C)"
  shows "sv_step H C s l t \<Longrightarrow> sv_typed s \<Longrightarrow> sv_typed t"
proof (induction rule: sv_step.induct)
  case (sstep_environment s v)
  then show ?case by (simp add: sv_typed_def)
qed (simp_all only: sv_typed_dispatch [OF assms] sv_typed_deliver [OF assms] sv_typed_killed)

interpretation sv_types: transition_system sv_init "sv_step H C" "\<lambda>s. order_policy (OnReceived C) \<longrightarrow> sv_typed s"
  by unfold_locales (simp add: sv_init_def sv_typed_def sv_cell_def, blast intro: sv_typed_step)

section \<open>Properties\<close>

lemma xw_late_typed: "xc_typed xw_late"
  by (rule xc_types.inv_reachable [OF xc_sound_reachable [OF xw_late_reach]])

lemma sw_ordered_typed: "sv_typed sw_ordered"
  using sv_types.inv_reachable [OF sv_sound_reachable [OF sw_ordered_reach]] sw_policy by blast

text \<open>C25: Every call, message batch and account hook of the client pallet keeps the storage
  well-typed: finitely many devices, none \<open>Accepted\<close>, and an order only for a registered device
  that is busy or abandoned, with parachain id 0.\<close>

theorem xc_storage_typed:
  assumes "xc_typed s" "xc_step H s l t"
  shows "xc_typed t"
  by (rule xc_typed_step [OF assms])

theorem xc_storage_typed_witness:
  "xc_typed (snd (xc_dispatch ledger_host xw_late (Some 9) (xc_call_cancel 7)))"
  by (rule xc_storage_typed [OF xw_late_typed, of ledger_host "XCall (Some 9) (xc_call_cancel 7)"]) (rule xstep_call)

text \<open>C26: With an order policy that keeps its contract, every call, message batch and account hook of
  the service pallet keeps its storage well-typed: finitely many devices, none \<open>Timewait\<close>, and
  an order only for a registered device that is busy or has accepted.\<close>

theorem sv_storage_typed:
  assumes "order_policy (OnReceived C)" "sv_typed s" "sv_step H C s l t"
  shows "sv_typed t"
  by (rule sv_typed_step [OF assms(1,3,2)])

theorem sv_storage_typed_witness:
  "sv_typed (snd (sv_dispatch ledger_host sw_config sw_ordered (Some 7) (sv_call_accept False True)))"
  by (rule sv_storage_typed [OF sw_policy sw_ordered_typed, of ledger_host "SCall (Some 7) (sv_call_accept False True)"])
    (rule sstep_call)

text \<open>C27: No client is stuck with an order: from the deadline on its \<open>cancel\<close> passes every check of
  the pallet and ends the order, unless the currency refuses to pay out the penalty.\<close>

theorem xc_order_can_be_ended:
  assumes "xc_typed s" "xOrders s d = Some oo" "o_until oo \<le> timestamp_get H (xWorld s)"
    and "ensure_signed H origin = Inr (o_client oo)"
  shows "(\<exists>t. xc_dispatch H s origin (xc_call_cancel d) = (Inr (), t) \<and> xOrders t = (xOrders s)(d := None))
    \<or> refused (xc_dispatch H s origin (xc_call_cancel d))"
proof -
  obtain dev where dev: "xDevice s d = Some dev"
    using xc_typed_cell [OF assms(1), of d] assms(2) by (auto simp: xc_cell_def)
  let ?r = "xc_order_reject H s (o_client oo) oo (timestamp_get H (xWorld s)) d dev"
  have r: "xc_dispatch H s origin (xc_call_cancel d) = ?r"
    using assms(2-4) dev by (auto simp: xc_cancel_def Let_def)
  obtain v t where v: "?r = (v, t)" by fastforce
  show ?thesis
  proof (cases v)
    case (Inl e)
    then have "refused ?r"
      using xc_order_reject_module [of H s "o_client oo" oo "timestamp_get H (xWorld s)" d dev] v by (cases e) (auto simp: refused_def)
    with r show ?thesis by simp
  next
    case (Inr x)
    then have "?r = (Inr (), t)" using v by simp
    from xc_order_reject_ok_simps(1) [OF this] this r show ?thesis by auto
  qed
qed

theorem xc_order_can_be_ended_witness:
  "(\<exists>t. xc_dispatch ledger_host xw_late (Some 9) (xc_call_cancel 7) = (Inr (), t)
      \<and> xOrders t = (xOrders xw_late)(7 := None))
    \<or> refused (xc_dispatch ledger_host xw_late (Some 9) (xc_call_cancel 7))"
proof -
  have o: "xOrders xw_late 7 = Some (OrderBase_convert xw_base 9)" by (simp add: xw_late_sel)
  have "o_until (OrderBase_convert xw_base 9) \<le> timestamp_get ledger_host (xWorld xw_late)"
    by (simp add: xw_base_def xw_late_sel)
  from xc_order_can_be_ended [OF xw_late_typed o this, of "Some 9"] show ?thesis by simp
qed

text \<open>C28: No device of the service is stuck with an order: its rejection passes every check of the
  pallet, ends the order and makes the device ready or off, as it chooses.  Only for an order
  of the own chain can the currency refuse it.\<close>

theorem sv_order_can_be_ended:
  assumes "sv_typed s" "sOrders s d = Some oo" "ensure_signed H origin = Inr d"
  shows "(\<exists>t. sv_dispatch H C s origin (sv_call_accept True onoff) = (Inr (), t)
        \<and> sOrders t = (sOrders s)(d := None)
        \<and> map_option sp_state (sDevice t d) = Some (if onoff then Ready else Off))
    \<or> o_paraid oo = SelfParaId C \<and> refused (sv_dispatch H C s origin (sv_call_accept True onoff))"
proof -
  obtain dev where dev: "sDevice s d = Some dev" "sp_state dev = Busy \<or> sp_state dev = Accepted"
    using sv_typed_cell [OF assms(1), of d] assms(2) by (auto simp: sv_cell_def)
  let ?dev = "dev\<lparr>sp_state := (if onoff then Ready else Off)\<rparr>"
  let ?r = "sv_order_reject H C s (Some oo) (timestamp_get H (sWorld s)) d ?dev onoff"
  have r: "sv_dispatch H C s origin (sv_call_accept True onoff) = ?r"
    using assms(2,3) dev by (auto simp: sv_accept_def Let_def)
  obtain v t where v: "?r = (v, t)" by fastforce
  show ?thesis
  proof (cases v)
    case (Inl e)
    then have "refused ?r"
      using sv_order_reject_module [of H C s "Some oo" "timestamp_get H (sWorld s)" d ?dev onoff] v by (cases e) (auto simp: refused_def)
    moreover have "o_paraid oo = SelfParaId C"
      using v Inl sv_order_reject_remote [of oo C H s "timestamp_get H (sWorld s)" d ?dev onoff] by auto
    ultimately show ?thesis using r by simp
  next
    case (Inr x)
    then have "?r = (Inr (), t)" using v by simp
    from sv_order_reject_ok_simps(1,2) [OF this] this r show ?thesis by auto
  qed
qed

theorem sv_order_can_be_ended_witness:
  "(\<exists>t. sv_dispatch ledger_host sw_config sw_ordered (Some 7) (sv_call_accept True True) = (Inr (), t)
        \<and> sOrders t = (sOrders sw_ordered)(7 := None) \<and> map_option sp_state (sDevice t 7) = Some Ready)
    \<or> o_paraid (sw_order 2000) = 2000
      \<and> refused (sv_dispatch ledger_host sw_config sw_ordered (Some 7) (sv_call_accept True True))"
proof -
  have "sOrders sw_ordered 7 = Some (sw_order 2000)" "ensure_signed ledger_host (Some 7) = Inr 7"
    by (simp_all add: sw_ordered_eq)
  from sv_order_can_be_ended [OF sw_ordered_typed this, of sw_config True] show ?thesis
    by (simp add: sw_config_def)
qed

end
