(* ===== verification/Message_Codec.thy ===== *)
theory Message_Codec
  imports Xchange_Safety Service_Safety "HOL-Library.Monad_Syntax"
begin

text \<open>
  The byte format of the messages between the two chains: what \<open>derive(Encode, Decode)\<close> on
  \<open>OrderBase\<close> and \<open>XCMPMessage\<close> (\<open>pallets/common/src/lib.rs\<close>) stands for.  A struct is its
  fields in the order of their declaration, an enum one byte with the index of the variant
  and then its fields; the codecs of the field types are a parameter.  \<open>codec\<close> is the
  interface of a codec, lawful for messages whenever it is lawful for the fields, and
  interpreted on the field types of the runtime: 32-byte accounts, 64-bit payloads and
  times, 128-bit balances, one byte per flag, numbers in little-endian order.
\<close>

section \<open>Codecs\<close>

text \<open>Decoding undoes encoding and leaves what follows; it accepts nothing but encodings.\<close>

locale codec =
  fixes enc :: "'x \<Rightarrow> bytes"
    and dec :: "bytes \<Rightarrow> ('x \<times> bytes) option"
  assumes dec_enc: "dec (enc x @ rest) = Some (x, rest)"
    and dec_only: "dec bs = Some (x, rest) \<Longrightarrow> bs = enc x @ rest"
begin

lemma dec_iff: "dec bs = Some (x, rest) \<longleftrightarrow> bs = enc x @ rest"
  using dec_enc dec_only by blast

lemma enc_prefix_free: "enc x @ rest = enc y @ rest' \<Longrightarrow> x = y \<and> rest = rest'"
  by (metis dec_enc option.inject prod.inject)

end

type_synonym 'x coder = "('x \<Rightarrow> bytes) \<times> (bytes \<Rightarrow> ('x \<times> bytes) option)"

record ('a, 'd) field_codecs =
  fAccount :: "'a coder"
  fPayload :: "'d coder"
  fMoment :: "moment coder"
  fBalance :: "balance coder"
  fBool :: "bool coder"

section \<open>The derived codecs\<close>

definition enc_OrderBase :: "('a, 'd) field_codecs \<Rightarrow> ('a, 'd) OrderBase \<Rightarrow> bytes" where
  "enc_OrderBase S ob = fst (fMoment S) (ob_until ob) @ fst (fPayload S) (ob_data ob)
     @ fst (fBalance S) (ob_fee ob) @ fst (fAccount S) (ob_device ob)"

definition dec_OrderBase :: "('a, 'd) field_codecs \<Rightarrow> bytes \<Rightarrow> (('a, 'd) OrderBase \<times> bytes) option" where
  "dec_OrderBase S bs = do {
     (until, bs) \<leftarrow> snd (fMoment S) bs;
     (data, bs) \<leftarrow> snd (fPayload S) bs;
     (fee, bs) \<leftarrow> snd (fBalance S) bs;
     (device, bs) \<leftarrow> snd (fAccount S) bs;
     Some (\<lparr>ob_until = until, ob_data = data, ob_fee = fee, ob_device = device\<rparr>, bs)
   }"

fun enc_XCMPMessage :: "('a, 'd) field_codecs \<Rightarrow> ('a, 'd) XCMPMessage \<Rightarrow> bytes" where
  "enc_XCMPMessage S (NewOrder client order) = 0 # fst (fAccount S) client @ enc_OrderBase S order"
| "enc_XCMPMessage S (OrderAccept client device) =
     1 # fst (fAccount S) client @ fst (fAccount S) device"
| "enc_XCMPMessage S (OrderReject client device onoff) =
     2 # fst (fAccount S) client @ fst (fAccount S) device @ fst (fBool S) onoff"
| "enc_XCMPMessage S (OrderDone client device onoff) =
     3 # fst (fAccount S) client @ fst (fAccount S) device @ fst (fBool S) onoff"

definition dec_parties :: "('a, 'd) field_codecs \<Rightarrow> bytes \<Rightarrow> (('a \<times> 'a) \<times> bytes) option" where
  "dec_parties S bs = do {
     (client, bs) \<leftarrow> snd (fAccount S) bs;
     (device, bs) \<leftarrow> snd (fAccount S) bs;
     Some ((client, device), bs)
   }"

fun dec_XCMPMessage :: "('a, 'd) field_codecs \<Rightarrow> bytes \<Rightarrow> (('a, 'd) XCMPMessage \<times> bytes) option" where
  "dec_XCMPMessage S [] = None"
| "dec_XCMPMessage S (index # bs) =
     (if index = 0 then do {
        (client, bs) \<leftarrow> snd (fAccount S) bs;
        (order, bs) \<leftarrow> dec_OrderBase S bs;
        Some (NewOrder client order, bs) }
      else if index = 1 then do {
        ((client, device), bs) \<leftarrow> dec_parties S bs;
        Some (OrderAccept client device, bs) }
      else if index = 2 then do {
        ((client, device), bs) \<leftarrow> dec_parties S bs;
        (onoff, bs) \<leftarrow> snd (fBool S) bs;
        Some (OrderReject client device onoff, bs) }
      else if index = 3 then do {
        ((client, device), bs) \<leftarrow> dec_parties S bs;
        (onoff, bs) \<leftarrow> snd (fBool S) bs;
        Some (OrderDone client device onoff, bs) }
      else None)"

text \<open>A host whose codec is the derived one.  Both pallets decode a message with
  \<open>XCMPMessage::decode(&mut data)\<close>, which leaves trailing bytes unread.\<close>

definition scale_host ::
  "('a, 'd) field_codecs \<Rightarrow> ('o, 'a, 'd, 'w) host \<Rightarrow> ('o, 'a, 'd, 'w) host" where
  "scale_host S H = H\<lparr>
     encode_message := enc_XCMPMessage S,
     decode_message := (\<lambda>bs. case dec_XCMPMessage S bs of
       None \<Rightarrow> Inl ''Error'' | Some (m, rest) \<Rightarrow> Inr m)\<rparr>"

lemma scale_host_sel [simp]:
  "encode_message (scale_host S H) = enc_XCMPMessage S"
  "decode_message (scale_host S H) bs
     = (case dec_XCMPMessage S bs of None \<Rightarrow> Inl ''Error'' | Some (m, rest) \<Rightarrow> Inr m)"
  by (simp_all add: scale_host_def)

section \<open>Messages have a codec if their fields have\<close>

locale fields =
  fixes S :: "('a, 'd) field_codecs"
  assumes account: "codec (fst (fAccount S)) (snd (fAccount S))"
    and payload: "codec (fst (fPayload S)) (snd (fPayload S))"
    and moment: "codec (fst (fMoment S)) (snd (fMoment S))"
    and balance: "codec (fst (fBalance S)) (snd (fBalance S))"
    and flag: "codec (fst (fBool S)) (snd (fBool S))"
begin

lemmas field_iff [simp] = codec.dec_iff [OF account] codec.dec_iff [OF payload] codec.dec_iff [OF moment]
  codec.dec_iff [OF balance] codec.dec_iff [OF flag]

lemmas field_dec [simp] = codec.dec_enc [OF account] codec.dec_enc [OF payload] codec.dec_enc [OF moment]
  codec.dec_enc [OF balance] codec.dec_enc [OF flag]

lemma order_codec: "codec (enc_OrderBase S) (dec_OrderBase S)"
  by unfold_locales
    (auto simp: enc_OrderBase_def dec_OrderBase_def Option.bind_eq_Some_conv)

lemma parties_dec: "dec_parties S bs = Some ((c, d), rest) \<longleftrightarrow> bs = fst (fAccount S) c @ fst (fAccount S) d @ rest"
  by (auto simp: dec_parties_def Option.bind_eq_Some_conv)

lemma message_dec: "dec_XCMPMessage S (enc_XCMPMessage S m @ rest) = Some (m, rest)"
proof -
  have p: "dec_parties S (fst (fAccount S) c @ fst (fAccount S) d @ rest') = Some ((c, d), rest')" for c d rest'
    by (simp add: parties_dec)
  show ?thesis by (cases m) (simp_all add: p codec.dec_enc [OF order_codec])
qed

lemma message_only: "dec_XCMPMessage S bs = Some (m, rest) \<Longrightarrow> bs = enc_XCMPMessage S m @ rest"
  by (cases bs)
    (auto simp: Option.bind_eq_Some_conv parties_dec codec.dec_iff [OF order_codec] split: if_splits)

end

sublocale fields \<subseteq> message: codec "enc_XCMPMessage S" "dec_XCMPMessage S"
  by unfold_locales (fact message_dec, fact message_only)

section \<open>The field types of the runtime\<close>

text \<open>An account is 32 bytes; it is represented by the number whose little-endian bytes it is.\<close>

definition word_coder :: "'w :: len word coder" where
  "word_coder = (let k = LENGTH('w) div 8 in
     (\<lambda>x. le_bytes k (unat x),
      \<lambda>bs. if length bs < k then None else Some (word_of_nat (le_value (take k bs)), drop k bs)))"

definition bool_coder :: "bool coder" where
  "bool_coder =
     (\<lambda>b. [of_bool b],
      \<lambda>bs. case bs of [] \<Rightarrow> None
        | b # rest \<Rightarrow> if b = 0 then Some (False, rest) else if b = 1 then Some (True, rest) else None)"

definition runtime_fields :: "(256 word, 64 word) field_codecs" where
  "runtime_fields = \<lparr>fAccount = word_coder, fPayload = word_coder, fMoment = word_coder,
     fBalance = word_coder, fBool = bool_coder\<rparr>"

lemma le_value_bound: "le_value bs < 256 ^ length bs"
proof (induction bs)
  case (Cons b bs)
  have "unat b < 256" using unsigned_less [of b, where ?'a = nat] by simp
  with Cons show ?case by simp
qed simp

lemma le_bytes_le_value: "le_bytes (length bs) (le_value bs) = bs"
proof (induction bs)
  case (Cons b bs)
  have b: "unat b < 256" using unsigned_less [of b, where ?'a = nat] by simp
  have "word_of_nat (unat b + 256 * le_value bs) = b"
  proof (rule unsigned_word_eqI [where ?'a = nat])
    have "unat (word_of_nat (unat b + 256 * le_value bs) :: 8 word) = (unat b + 256 * le_value bs) mod 2 ^ 8"
      by (simp only: unat_of_nat) simp
    also have "\<dots> = unat b" using b by simp
    finally show "unat (word_of_nat (unat b + 256 * le_value bs) :: 8 word) = unat b" .
  qed
  with Cons b show ?case by simp
qed simp

lemma word_codec:
  assumes "8 dvd LENGTH('w)"
  shows "codec (fst (word_coder :: 'w :: len word coder)) (snd (word_coder :: 'w word coder))"
proof -
  let ?k = "LENGTH('w) div 8"
  have size: "256 ^ ?k = (2 :: nat) ^ LENGTH('w)"
    using assms power_mult [of "2 :: nat" 8 ?k] by simp
  have inv: "le_value (le_bytes ?k (unat x)) = unat x" for x :: "'w word"
    using le_value_le_bytes [of "unat x" ?k] unsigned_less [of x, where ?'a = nat] size by simp
  show ?thesis
  proof
    fix x :: "'w word" and rest
    show "snd word_coder (fst (word_coder :: 'w word coder) x @ rest) = Some (x, rest)"
      by (simp add: word_coder_def Let_def inv)
  next
    fix bs and x :: "'w word" and rest
    assume "snd word_coder bs = Some (x, rest)"
    then have len: "?k \<le> length bs" and x: "x = word_of_nat (le_value (take ?k bs))" "rest = drop ?k bs"
      by (auto simp: word_coder_def Let_def split: if_splits)
    have l: "length (take ?k bs) = ?k" using len by simp
    have "unat x = le_value (take ?k bs)"
      using le_value_bound [of "take ?k bs"] size l by (simp add: x(1) unat_of_nat)
    then have "le_bytes ?k (unat x) = take ?k bs" using le_bytes_le_value [of "take ?k bs"] l by simp
    then show "bs = fst word_coder x @ rest" by (simp add: word_coder_def Let_def x(2))
  qed
qed

lemma bool_codec: "codec (fst bool_coder) (snd bool_coder)"
proof
  show "snd bool_coder (fst bool_coder x @ rest) = Some (x, rest)" for x rest
    by (cases x) (simp_all add: bool_coder_def)
  show "bs = fst bool_coder x @ rest" if "snd bool_coder bs = Some (x, rest)" for bs x rest
    using that by (auto simp: bool_coder_def split: list.splits if_splits)
qed

interpretation runtime: fields runtime_fields
  by unfold_locales
    (simp_all add: runtime_fields_def word_codec [THEN codec.dec_enc] word_codec [THEN codec.dec_only]
      bool_codec [THEN codec.dec_enc] bool_codec [THEN codec.dec_only])

section \<open>Properties\<close>

lemma runtime_lengths [simp]:
  "length (fst (fAccount runtime_fields) a) = 32" "length (fst (fPayload runtime_fields) x) = 8"
  "length (fst (fMoment runtime_fields) t) = 8" "length (fst (fBalance runtime_fields) b) = 16"
  "length (fst (fBool runtime_fields) f) = 1"
  by (simp_all add: runtime_fields_def word_coder_def bool_coder_def Let_def)

text \<open>C24: With the field types of the runtime, decoding accepts exactly the bytes that start with an
  encoded message and returns that message and what follows it; every kind of message has a
  fixed length; and a host with this codec satisfies the law of codecs, also when bytes follow
  the message.\<close>

theorem message_codec_exact:
  "(dec_XCMPMessage runtime_fields bs = Some (m, rest) \<longleftrightarrow> bs = enc_XCMPMessage runtime_fields m @ rest)
   \<and> length (enc_XCMPMessage runtime_fields m)
       = (case m of NewOrder c ob \<Rightarrow> 97 | OrderAccept c d \<Rightarrow> 65 | _ \<Rightarrow> 66)
   \<and> decode_message (scale_host runtime_fields H) (encode_message (scale_host runtime_fields H) m @ rest) = Inr m
   \<and> codec_laws (scale_host runtime_fields H)"
proof (intro conjI)
  show "length (enc_XCMPMessage runtime_fields m)
      = (case m of NewOrder c ob \<Rightarrow> 97 | OrderAccept c d \<Rightarrow> 65 | _ \<Rightarrow> 66)"
    by (cases m) (simp_all add: enc_OrderBase_def)
  show "codec_laws (scale_host runtime_fields H)"
    using runtime.message.dec_enc [where rest = "[]"] by (simp add: codec_laws_def)
qed (simp_all add: runtime.message.dec_iff runtime.message.dec_enc)

text \<open>C29: Both pallets hand \<open>Xcm([Transact ...])\<close> to the sender but decode the delivered blob as a bare
  message.  A blob of the XCMP format that carries XCM starts with the byte 0, the index of
  \<open>NewOrder\<close>, so a batch of such blobs changes nothing on the client chain, whatever answers
  they carry.\<close>

theorem client_ignores_envelopes:
  assumes "\<forall>(sender, sent_at, data)\<in>set msgs. \<exists>rest. data = 0 # rest"
  shows "snd (xc_handle_xcmp_messages (scale_host S H) s msgs w) = s"
  using assms
proof (induction msgs)
  case (Cons m msgs)
  obtain sender sent_at rest where m: "m = (sender, sent_at, 0 # rest)"
    using Cons.prems by (cases m) auto
  have "xc_handle_one (scale_host S H) s (0 # rest) \<in> {None, Some s}"
    by (auto simp: xc_handle_one_def split: option.split bind_split)
  then show ?case using Cons by (auto simp: m)
qed simp

definition enveloped_done :: bytes where
  "enveloped_done = 0 # enc_XCMPMessage runtime_fields (OrderDone 9 7 True)"

theorem client_ignores_envelopes_witness:
  "\<forall>H s w. snd (xc_handle_xcmp_messages (scale_host runtime_fields H) s [(2001, 0, enveloped_done)] w) = s"
  by (intro allI, rule client_ignores_envelopes) (simp add: enveloped_done_def)

end
