(* ===== verification/Runtime_Benchmarks.thy ===== *)
theory Runtime_Benchmarks
  imports Runtime_Constants
begin

text \<open>
  The benchmarking interface of the runtime (\<open>runtime/src/lib.rs\<close>, feature
  \<open>runtime-benchmarks\<close>): which benchmarks \<open>benchmark_metadata\<close> lists, which ones
  \<open>dispatch_benchmark\<close> can run, and the storage keys it does not count.  The macros
  \<open>list_benchmark!\<close> and \<open>add_benchmark!\<close> and the storage information of the pallets are the
  framework's, the record \<open>bench_framework\<close>.
\<close>

section \<open>Hexadecimal literals\<close>

text \<open>\<open>hex_literal::hex!\<close> on literals of lower-case digits; anything else does not compile, here
  \<open>None\<close>.\<close>

definition hex_digit :: "char \<Rightarrow> 8 word option" where
  "hex_digit c =
     (let n = (of_char c :: nat) in
      if 48 \<le> n \<and> n \<le> 57 then Some (of_nat (n - 48))
      else if 97 \<le> n \<and> n \<le> 102 then Some (of_nat (n - 87))
      else None)"

fun hex :: "string \<Rightarrow> bytes option" where
  "hex [] = Some []"
| "hex [c] = None"
| "hex (c # d # cs) =
     (case (hex_digit c, hex_digit d, hex cs) of
        (Some h, Some l, Some bs) \<Rightarrow> Some ((16 * h + l) # bs)
      | _ \<Rightarrow> None)"

lemma hex_length: "hex cs = Some bs \<Longrightarrow> length cs = 2 * length bs"
  by (induction cs arbitrary: bs rule: hex.induct) (auto split: option.splits prod.splits)

section \<open>The benchmarks\<close>

datatype bench_module = SystemBench | SessionBench | PalletBench pallet

record ('c, 'l, 'i, 'b) bench_framework =
  list_benchmark :: "bool \<Rightarrow> string \<Rightarrow> bench_module \<Rightarrow> 'l"
  storage_info :: "pallet list \<Rightarrow> 'i"
  add_benchmark :: "'c \<Rightarrow> bytes list \<Rightarrow> string \<Rightarrow> bench_module \<Rightarrow> 'b list \<Rightarrow> string + 'b list"

definition listed_benchmarks :: "(string \<times> bench_module) list" where
  "listed_benchmarks =
     [(''frame_system'', SystemBench), (''pallet_balances'', PalletBench Balances),
      (''pallet_timestamp'', PalletBench TimestampPallet),
      (''pallet_collator_selection'', PalletBench CollatorSelection)]"

definition benchmark_metadata :: "('c, 'l, 'i, 'b) bench_framework \<Rightarrow> bool \<Rightarrow> 'l list \<times> 'i" where
  "benchmark_metadata B extra =
     (map (\<lambda>(name, m). list_benchmark B extra name m) listed_benchmarks, storage_info B all_pallets)"

definition whitelist :: "bytes option list" where
  "whitelist = map hex
     [''26aa394eea5630e07c48ae0c9558cef702a5c1b19ab7a04f536c519aca4983ac'',
      ''c2261276cc9d1f8598ea4b6a74b15c2f57c875e4cff74148e4628f264b974c80'',
      ''26aa394eea5630e07c48ae0c9558cef7ff553b5a9862a516939d82b3d3d8661a'',
      ''26aa394eea5630e07c48ae0c9558cef70a98fdbe9ce6c55837576c60c7af3850'',
      ''26aa394eea5630e07c48ae0c9558cef780d41e5e16056765bc8461851072c9d7'']"

definition added_benchmarks :: "(string \<times> bench_module) list" where
  "added_benchmarks =
     [(''frame_system'', SystemBench), (''pallet_balances'', PalletBench Balances),
      (''pallet_session'', SessionBench), (''pallet_timestamp'', PalletBench TimestampPallet),
      (''pallet_collator_selection'', PalletBench CollatorSelection),
      (''pallet_session'', PalletBench Session)]"

fun add_benchmarks ::
  "(string \<Rightarrow> bench_module \<Rightarrow> 'b list \<Rightarrow> string + 'b list) \<Rightarrow> (string \<times> bench_module) list \<Rightarrow> 'b list
     \<Rightarrow> string + 'b list" where
  "add_benchmarks add [] batches = Inr batches"
| "add_benchmarks add ((name, m) # rest) batches =
     (case add name m batches of Inl e \<Rightarrow> Inl e | Inr batches' \<Rightarrow> add_benchmarks add rest batches')"

definition dispatch_benchmark :: "('c, 'l, 'i, 'b) bench_framework \<Rightarrow> 'c \<Rightarrow> string + 'b list" where
  "dispatch_benchmark B config =
     (case add_benchmarks (add_benchmark B config (map the whitelist)) added_benchmarks [] of
        Inl e \<Rightarrow> Inl e
      | Inr batches \<Rightarrow>
          if batches = [] then Inl ''Benchmark not found for this pallet.'' else Inr batches)"

section \<open>Properties\<close>

text \<open>The macro runs the benchmark of one pallet, the one the configuration names: for another name
  it leaves the batches as they are, for that name it runs the benchmark and adds its batch or
  ends with its error.\<close>

definition adds_named ::
  "string \<Rightarrow> (bench_module \<Rightarrow> string + 'b) \<Rightarrow> (string \<Rightarrow> bench_module \<Rightarrow> 'b list \<Rightarrow> string + 'b list) \<Rightarrow> bool" where
  "adds_named wanted run_one add \<longleftrightarrow> (\<forall>name m batches. add name m batches =
     (if name = wanted
      then (case run_one m of Inl e \<Rightarrow> Inl e | Inr b \<Rightarrow> Inr (batches @ [b]))
      else Inr batches))"

definition collect :: "(bench_module \<Rightarrow> string + 'b) \<Rightarrow> bench_module list \<Rightarrow> string + 'b list" where
  "collect run_one ms = foldr (\<lambda>m rest. case run_one m of
     Inl e \<Rightarrow> Inl e | Inr b \<Rightarrow> (case rest of Inl e \<Rightarrow> Inl e | Inr bs \<Rightarrow> Inr (b # bs))) ms (Inr [])"

lemma add_benchmarks_named:
  assumes "adds_named wanted run_one add"
  shows "add_benchmarks add xs batches
    = (case collect run_one (map snd (filter (\<lambda>x. fst x = wanted) xs)) of
         Inl e \<Rightarrow> Inl e | Inr bs \<Rightarrow> Inr (batches @ bs))"
  using assms
proof (induction xs arbitrary: batches)
  case Nil
  then show ?case by (simp add: collect_def)
next
  case (Cons x xs)
  obtain name m where x: "x = (name, m)" by (cases x)
  show ?case
  proof (cases "name = wanted")
    case True
    with Cons show ?thesis by (cases "run_one m") (auto simp: x adds_named_def collect_def split: sum.splits)
  next
    case False
    with Cons show ?thesis by (simp add: x adds_named_def)
  qed
qed

lemma collect_length: "collect run_one ms = Inr bs \<Longrightarrow> length bs = length ms"
  by (induction ms arbitrary: bs) (auto simp: collect_def split: sum.splits)

text \<open>The runtime benchmarks four pallets and the session, each under its own name and the session
  with both of its modules; every other name, those of the marketplace pallets and the template
  among them, is answered with the error.\<close>

theorem benchmarks_found:
  assumes "adds_named wanted run_one (add_benchmark B config (map the whitelist))"
  shows "dispatch_benchmark B config =
    (let found = (if wanted = ''frame_system'' then [SystemBench]
       else if wanted = ''pallet_balances'' then [PalletBench Balances]
       else if wanted = ''pallet_session'' then [SessionBench, PalletBench Session]
       else if wanted = ''pallet_timestamp'' then [PalletBench TimestampPallet]
       else if wanted = ''pallet_collator_selection'' then [PalletBench CollatorSelection]
       else [])
     in if found = [] then Inl ''Benchmark not found for this pallet.'' else collect run_one found)"
proof -
  let ?found = "map snd (filter (\<lambda>x. fst x = wanted) added_benchmarks)"
  have "dispatch_benchmark B config =
    (if ?found = [] then Inl ''Benchmark not found for this pallet.'' else collect run_one ?found)"
    using collect_length [of run_one ?found]
    by (cases "collect run_one ?found")
      (auto simp: dispatch_benchmark_def add_benchmarks_named [OF assms] collect_def [of _ "[]"])
  moreover have "?found = (if wanted = ''frame_system'' then [SystemBench]
       else if wanted = ''pallet_balances'' then [PalletBench Balances]
       else if wanted = ''pallet_session'' then [SessionBench, PalletBench Session]
       else if wanted = ''pallet_timestamp'' then [PalletBench TimestampPallet]
       else if wanted = ''pallet_collator_selection'' then [PalletBench CollatorSelection]
       else [])"
    by (auto simp: added_benchmarks_def)
  ultimately show ?thesis by (simp only: Let_def)
qed

definition naming_framework :: "(string, unit, unit, bench_module) bench_framework" where
  "naming_framework = \<lparr>list_benchmark = (\<lambda>extra name m. ()), storage_info = (\<lambda>ps. ()),
     add_benchmark = (\<lambda>wanted keys name m bs. if name = wanted then Inr (bs @ [m]) else Inr bs)\<rparr>"

theorem benchmarks_found_witness:
  "dispatch_benchmark naming_framework ''pallet_session'' = Inr [SessionBench, PalletBench Session]
    \<and> dispatch_benchmark naming_framework ''pallet_xchange'' = Inl ''Benchmark not found for this pallet.''"
proof -
  have "adds_named n Inr (add_benchmark naming_framework n keys)" for n keys
    by (simp add: adds_named_def naming_framework_def)
  from benchmarks_found [OF this] show ?thesis by (simp add: Let_def collect_def)
qed

text \<open>Everything that is listed can be run; the session benchmarks can be run but are not listed.\<close>

theorem listed_benchmarks_run:
  "set listed_benchmarks \<subseteq> set added_benchmarks
    \<and> set added_benchmarks - set listed_benchmarks
        = {(''pallet_session'', SessionBench), (''pallet_session'', PalletBench Session)}"
  by (auto simp: listed_benchmarks_def added_benchmarks_def)

text \<open>The five literals are well formed: keys of 32 bytes, all different, and all but the total
  issuance in the storage of one pallet, whose name is hashed to the first 16 bytes.\<close>

theorem whitelist_keys:
  "\<exists>keys. whitelist = map Some keys \<and> distinct keys \<and> list_all (\<lambda>k. length k = 32) keys
    \<and> length keys = 5 \<and> card (take 16 ` set keys) = 2"
proof -
  have all: "list_all (\<lambda>k. k \<noteq> None) whitelist" by (simp add: whitelist_def hex_digit_def)
  then have "whitelist = map Some (map the whitelist)" by (simp add: list_all_iff map_idI)
  moreover have "distinct (map the whitelist)" "list_all (\<lambda>k. length k = 32) (map the whitelist)"
    "length (map the whitelist) = 5" "card (take 16 ` set (map the whitelist)) = 2"
    by (simp_all add: whitelist_def hex_digit_def card_insert_if)
  ultimately show ?thesis by blast
qed

end
