(* ===== verification/Chain_Spec.thy ===== *)
theory Chain_Spec
  imports Runtime_Constants
begin

text \<open>
  The chain specifications the node can build (\<open>node/src/chain_spec.rs\<close>): keys from seeds, the
  two built-in specifications, and their genesis state.  Key derivation is sp_core's and an
  argument, \<open>keyring\<close>; \<open>None\<close> is a panic of \<open>expect\<close>.  The runtime's \<open>WASM_BINARY\<close>, which a
  build script makes, and the defaults of the framework's genesis types are arguments too.
\<close>

section \<open>Keys\<close>

record ('pub, 'aura, 'acc) keyring =
  sr25519_from_string :: "string \<Rightarrow> 'pub option"
  aura_from_string :: "string \<Rightarrow> 'aura option"
  into_account :: "'pub \<Rightarrow> 'acc"

definition get_public_from_seed :: "(string \<Rightarrow> 'p option) \<Rightarrow> string \<Rightarrow> 'p option" where
  "get_public_from_seed from_string seed = from_string (''//'' @ seed)"

definition get_collator_keys_from_seed :: "('pub, 'aura, 'acc) keyring \<Rightarrow> string \<Rightarrow> 'aura option" where
  "get_collator_keys_from_seed K seed = get_public_from_seed (aura_from_string K) seed"

definition get_account_id_from_seed :: "('pub, 'aura, 'acc) keyring \<Rightarrow> string \<Rightarrow> 'acc option" where
  "get_account_id_from_seed K seed =
     map_option (into_account K) (get_public_from_seed (sr25519_from_string K) seed)"

record 'aura SessionKeys =
  aura :: 'aura

definition template_session_keys :: "'aura \<Rightarrow> 'aura SessionKeys" where
  "template_session_keys keys = \<lparr>aura = keys\<rparr>"

section \<open>Specifications\<close>

record Extensions =
  relay_chain :: string
  ext_para_id :: "32 word"

datatype chain_type = Development | Local | Live

datatype property_value = PString string | PNumber nat

record ('acc, 'aura) GenesisConfig =
  g_code :: bytes
  g_balances :: "('acc \<times> balance) list"
  g_parachain_id :: para_id
  g_invulnerables :: "'acc list"
  g_candidacy_bond :: balance
  g_desired_candidates :: "32 word"
  g_session_keys :: "('acc \<times> 'acc \<times> 'aura SessionKeys) list"
  g_aura_authorities :: "'aura list"

record ('acc, 'aura) chain_spec =
  cs_name :: string
  cs_id :: string
  cs_type :: chain_type
  cs_genesis :: "('acc, 'aura) GenesisConfig option"
  cs_boot_nodes :: "string list"
  cs_telemetry :: "string option"
  cs_protocol_id :: "string option"
  cs_properties :: "(string \<rightharpoonup> property_value) option"
  cs_extensions :: Extensions

text \<open>The fields of \<open>GenesisConfig\<close> that the code fills, by the pallet they configure.\<close>

definition genesis_fields :: "pallet list" where
  "genesis_fields = [System, Balances, ParachainInfo, CollatorSelection, Session, Aura, AuraExt, ParachainSystem]"

text \<open>What the framework's \<open>Default\<close> gives for the fields left out.\<close>

record 'aura genesis_defaults =
  d_desired_candidates :: "32 word"
  d_aura_authorities :: "'aura list"

definition testnet_genesis ::
  "bytes option \<Rightarrow> 'aura genesis_defaults \<Rightarrow> ('acc \<times> 'aura) list \<Rightarrow> 'acc list \<Rightarrow> para_id
     \<Rightarrow> ('acc, 'aura) GenesisConfig option" where
  "testnet_genesis wasm_binary D invulnerables endowed_accounts para_id =
     (case wasm_binary of
        None \<Rightarrow> None
      | Some code \<Rightarrow> Some
          \<lparr>g_code = code,
           g_balances = map (\<lambda>k. (k, push_bit 60 1)) endowed_accounts,
           g_parachain_id = para_id,
           g_invulnerables = map fst invulnerables,
           g_candidacy_bond = EXISTENTIAL_DEPOSIT * 16,
           g_desired_candidates = d_desired_candidates D,
           g_session_keys = map (\<lambda>(acc, aura). (acc, acc, template_session_keys aura)) invulnerables,
           g_aura_authorities = d_aura_authorities D\<rparr>)"

section \<open>The two built-in specifications\<close>

definition unit_properties :: "string \<rightharpoonup> property_value" where
  "unit_properties = Map.empty(''tokenSymbol'' \<mapsto> PString ''UNIT'', ''tokenDecimals'' \<mapsto> PNumber 12,
     ''ss58Format'' \<mapsto> PNumber 42)"

definition collator_seeds :: "string list" where
  "collator_seeds = [''Alice'', ''Bob'']"

definition endowed_seeds :: "string list" where
  "endowed_seeds = [''Alice'', ''Bob'', ''Charlie'', ''Dave'', ''Eve'', ''Ferdie'', ''Alice//stash'',
     ''Bob//stash'', ''Charlie//stash'', ''Dave//stash'', ''Eve//stash'', ''Ferdie//stash'']"

definition initial_collator :: "('pub, 'aura, 'acc) keyring \<Rightarrow> string \<Rightarrow> ('acc \<times> 'aura) option" where
  "initial_collator K seed =
     (case get_account_id_from_seed K seed of
        None \<Rightarrow> None
      | Some acc \<Rightarrow> map_option (Pair acc) (get_collator_keys_from_seed K seed))"

text \<open>The closure both specifications pass as their genesis.\<close>

definition testnet_closure ::
  "('pub, 'aura, 'acc) keyring \<Rightarrow> bytes option \<Rightarrow> 'aura genesis_defaults \<Rightarrow> ('acc, 'aura) GenesisConfig option" where
  "testnet_closure K wasm_binary D =
     (case those (map (initial_collator K) collator_seeds) of
        None \<Rightarrow> None
      | Some collators \<Rightarrow>
     (case those (map (get_account_id_from_seed K) endowed_seeds) of
        None \<Rightarrow> None
      | Some endowed \<Rightarrow> testnet_genesis wasm_binary D collators endowed 2000))"

definition development_config ::
  "('pub, 'aura, 'acc) keyring \<Rightarrow> bytes option \<Rightarrow> 'aura genesis_defaults \<Rightarrow> ('acc, 'aura) chain_spec" where
  "development_config K wasm_binary D =
     (let properties = unit_properties
      in \<lparr>cs_name = ''Development'', cs_id = ''dev'', cs_type = Development,
          cs_genesis = testnet_closure K wasm_binary D, cs_boot_nodes = [], cs_telemetry = None,
          cs_protocol_id = None, cs_properties = None,
          cs_extensions = \<lparr>relay_chain = ''rococo-local'', ext_para_id = 2000\<rparr>\<rparr>)"

definition local_testnet_config ::
  "('pub, 'aura, 'acc) keyring \<Rightarrow> bytes option \<Rightarrow> 'aura genesis_defaults \<Rightarrow> ('acc, 'aura) chain_spec" where
  "local_testnet_config K wasm_binary D =
     (let properties = unit_properties
      in \<lparr>cs_name = ''Local Testnet'', cs_id = ''local_testnet'', cs_type = Local,
          cs_genesis = testnet_closure K wasm_binary D, cs_boot_nodes = [], cs_telemetry = None,
          cs_protocol_id = Some ''template-local'', cs_properties = Some properties,
          cs_extensions = \<lparr>relay_chain = ''rococo-local'', ext_para_id = 2000\<rparr>\<rparr>)"

section \<open>Lemmas\<close>

lemma those_Some_iff: "those xs = Some ys \<longleftrightarrow> xs = map Some ys"
proof (induction xs arbitrary: ys)
  case (Cons x xs)
  then show ?case by (cases x; cases ys) (auto split: option.splits)
qed auto

lemma those_map_Some: "those (map f xs) = Some ys \<longleftrightarrow> map f xs = map Some ys"
  by (rule those_Some_iff)

lemma testnet_closure_cases:
  assumes "testnet_closure K wasm_binary D = Some g"
  obtains collators endowed code where
    "map (initial_collator K) collator_seeds = map Some collators"
    "map (get_account_id_from_seed K) endowed_seeds = map Some endowed"
    "wasm_binary = Some code" "testnet_genesis wasm_binary D collators endowed 2000 = Some g"
  using assms by (auto simp: testnet_closure_def those_map_Some testnet_genesis_def split: option.splits)

section \<open>Properties\<close>

text \<open>The genesis of both built-in specifications fits the rest of the system: its parachain id
  is the one of the extensions; its session keys are those of the collators, each its own
  validator, in order; all collators are among the endowed accounts and hold more than the
  candidacy bond, which is sixteen existential deposits; and all endowments together fit into a
  balance.\<close>

theorem testnet_genesis_consistent:
  assumes "cs_genesis (development_config K wasm_binary D) = Some g"
  shows "g_parachain_id g = ext_para_id (cs_extensions (development_config K wasm_binary D))
    \<and> map (\<lambda>(a, v, k). (a, v)) (g_session_keys g) = map (\<lambda>a. (a, a)) (g_invulnerables g)
    \<and> length (g_invulnerables g) = 2
    \<and> set (g_invulnerables g) \<subseteq> fst ` set (g_balances g)
    \<and> (\<forall>e\<in>set (g_balances g). g_candidacy_bond g < snd e \<and> EXISTENTIAL_DEPOSIT < snd e)
    \<and> unat (g_candidacy_bond g) = 16 * unat EXISTENTIAL_DEPOSIT
    \<and> (\<Sum>e\<leftarrow>g_balances g. unat (snd e)) < 2 ^ 128"
proof -
  obtain collators endowed code where c: "map (initial_collator K) collator_seeds = map Some collators"
    and e: "map (get_account_id_from_seed K) endowed_seeds = map Some endowed"
    and g: "testnet_genesis wasm_binary D collators endowed 2000 = Some g" "wasm_binary = Some code"
    by (rule testnet_closure_cases [of K wasm_binary D g])
      (use assms in \<open>simp_all add: development_config_def Let_def\<close>)
  have accounts: "map fst collators = take 2 endowed"
    using c e by (auto simp: collator_seeds_def endowed_seeds_def initial_collator_def split: option.splits)
  have len: "length collators = 2" "length endowed = 12"
    using arg_cong [OF c, of length] arg_cong [OF e, of length]
    by (simp_all add: collator_seeds_def endowed_seeds_def)
  have subset: "set (map fst collators) \<subseteq> set endowed" unfolding accounts by (rule set_take_subset)
  have "(\<Sum>e\<leftarrow>map (\<lambda>k. (k, push_bit 60 (1 :: balance))) endowed. unat (snd e)) = 12 * 2 ^ 60"
    by (simp add: o_def sum_list_triv len)
  moreover have "a \<in> set endowed" if "(a, b) \<in> set collators" for a b
    using subset that by force
  ultimately show ?thesis
    using g len by (auto simp: testnet_genesis_def development_config_def EXISTENTIAL_DEPOSIT_def
        MILLIUNIT_def o_def image_image case_prod_beta)
qed

text \<open>A keyring whose keys are the seeds.\<close>

definition seed_keyring :: "(string, string, string) keyring" where
  "seed_keyring = \<lparr>sr25519_from_string = Some, aura_from_string = Some, into_account = (\<lambda>p. p)\<rparr>"

theorem testnet_genesis_consistent_witness:
  "\<exists>g. cs_genesis (development_config seed_keyring (Some [0]) \<lparr>d_desired_candidates = 0, d_aura_authorities = []\<rparr>) = Some g
     \<and> g_parachain_id g = 2000 \<and> set (g_invulnerables g) \<subseteq> fst ` set (g_balances g)"
proof -
  let ?spec = "development_config seed_keyring (Some [0]) \<lparr>d_desired_candidates = 0, d_aura_authorities = []\<rparr>"
  obtain g where g: "cs_genesis ?spec = Some g"
    by (simp add: development_config_def Let_def testnet_closure_def collator_seeds_def endowed_seeds_def
        initial_collator_def get_account_id_from_seed_def get_collator_keys_from_seed_def
        get_public_from_seed_def seed_keyring_def testnet_genesis_def)
  from testnet_genesis_consistent [OF g] g show ?thesis
    by (intro exI [of _ g]) (simp add: development_config_def Let_def)
qed

text \<open>The two specifications have the same genesis, extensions, boot nodes and telemetry.  Both
  build the same properties, but only the local one has them: the development specification
  has no token symbol, decimals or address format.\<close>

theorem built_in_specs_compared:
  "cs_genesis (development_config K wasm_binary D) = cs_genesis (local_testnet_config K wasm_binary D)
   \<and> cs_extensions (development_config K wasm_binary D) = cs_extensions (local_testnet_config K wasm_binary D)
   \<and> cs_boot_nodes (development_config K wasm_binary D) = cs_boot_nodes (local_testnet_config K wasm_binary D)
   \<and> cs_properties (local_testnet_config K wasm_binary D) = Some unit_properties
   \<and> cs_properties (development_config K wasm_binary D) = None"
  by (simp add: development_config_def local_testnet_config_def Let_def)

text \<open>The genesis state configures exactly the pallets that the runtime declares with a genesis
  configuration.\<close>

theorem genesis_covers_configured_pallets:
  "distinct genesis_fields \<and> set genesis_fields = {p. has_config p}"
  by (auto simp: genesis_fields_def has_config_def)

end
