(* ===== verification/Node_Command.thy ===== *)
theory Node_Command
  imports Chain_Spec
begin

text \<open>
  The node's command line (\<open>node/src/cli.rs\<close>, \<open>node/src/command.rs\<close>): which specification a
  name loads, what each subcommand runs, the arguments of the relay chain node, and the values
  that the relay chain's command line falls back to.  Each branch of \<open>run\<close> ends with one call
  of the framework whose result it returns; \<open>run\<close> is modelled up to and including the choice of
  that call, an \<open>action\<close>, or the error that prevents it.  The framework's functions are the
  fields of \<open>cli_host\<close>.
\<close>

section \<open>The command line\<close>

record export_command =
  ec_output :: "string option"
  ec_raw :: bool
  ec_chain :: "string option"

text \<open>The framework's own commands, with their arguments \<open>'c\<close>.\<close>

datatype 'c Subcommand =
  ExportGenesisState export_command
| ExportGenesisWasm export_command
| BuildSpec 'c
| CheckBlock 'c
| ExportBlocks 'c
| ExportState 'c
| ImportBlocks 'c
| PurgeChain 'c
| Revert 'c
| Benchmark 'c

record 'c Cli =
  subcommand :: "'c Subcommand option"
  run_cmd :: 'c
  relay_chain_args :: "string list"

record 'rb RelayChainCli =
  rc_base :: 'rb
  rc_chain_id :: "string option"
  rc_base_path :: "string option"

text \<open>A service configuration, as far as the code looks into it.\<close>

record ('acc, 'aura, 'cfg) configuration =
  chain_spec_of :: "('acc, 'aura) chain_spec"
  base_path_of :: "string option"
  rest_of :: 'cfg

section \<open>The framework\<close>

text \<open>What the built-in specifications need, and the parser for specification files.\<close>

record ('pub, 'aura, 'acc) spec_source =
  ss_keyring :: "('pub, 'aura, 'acc) keyring"
  ss_wasm :: "bytes option"
  ss_defaults :: "'aura genesis_defaults"
  ss_from_json_file :: "string \<Rightarrow> string + ('acc, 'aura) chain_spec"

record ('acc, 'aura, 'cfg, 'c, 'rb, 'blk, 'comp) cli_host =
  create_runner :: "'c \<Rightarrow> string + ('acc, 'aura, 'cfg) configuration"
  normalize :: "'c \<Rightarrow> 'c"
  new_partial :: "('acc, 'aura, 'cfg) configuration \<Rightarrow> string + 'comp"
  get_extension :: "('acc, 'aura) chain_spec \<Rightarrow> Extensions option"
  join_path :: "string \<Rightarrow> string \<Rightarrow> string"
  relay_from_iter :: "string list \<Rightarrow> 'rb"
  executable_name :: string
  create_configuration :: "'rb RelayChainCli \<Rightarrow> string + ('acc, 'aura, 'cfg) configuration"
  generate_genesis_block :: "('acc, 'aura) chain_spec \<Rightarrow> string + 'blk"
  header_encode :: "'blk \<Rightarrow> bytes"
  build_storage :: "('acc, 'aura) chain_spec \<Rightarrow> string + (bytes \<rightharpoonup> bytes)"
  code_key :: bytes
  hex_display :: "bytes \<Rightarrow> bytes"
  debug_format :: "string \<Rightarrow> string"
  runtime_benchmarks :: bool

text \<open>The one call that ends a branch of \<open>run\<close>.\<close>

datatype ('acc, 'aura, 'cfg, 'c, 'comp) action =
  RunSync "'c Subcommand" "('acc, 'aura, 'cfg) configuration"
| RunAsync "'c Subcommand" 'comp "('acc, 'aura, 'cfg) configuration"
| RunPurge 'c "('acc, 'aura, 'cfg) configuration" "('acc, 'aura, 'cfg) configuration"
| WriteFile string bytes
| WriteStdout bytes
| StartParachainNode "('acc, 'aura, 'cfg) configuration" "('acc, 'aura, 'cfg) configuration" para_id

text \<open>The \<open>?\<close> operator, and \<open>map_err\<close>.\<close>

definition try_with :: "string + 'x \<Rightarrow> ('x \<Rightarrow> string + 'y) \<Rightarrow> string + 'y" where
  "try_with r f = (case r of Inl e \<Rightarrow> Inl e | Inr x \<Rightarrow> f x)"

definition map_err :: "(string \<Rightarrow> string) \<Rightarrow> string + 'x \<Rightarrow> string + 'x" where
  "map_err f r = (case r of Inl e \<Rightarrow> Inl (f e) | Inr x \<Rightarrow> Inr x)"

lemma try_simps [simp]: "try_with (Inl e) f = Inl e" "try_with (Inr x) f = f x"
  by (simp_all add: try_with_def)

lemma try_Inr_iff: "try_with r f = Inr y \<longleftrightarrow> (\<exists>x. r = Inr x \<and> f x = Inr y)"
  by (cases r) simp_all

lemma map_err_Inr_iff [simp]: "map_err f r = Inr x \<longleftrightarrow> r = Inr x"
  by (cases r) (simp_all add: map_err_def)

section \<open>Loading a specification\<close>

definition load_spec ::
  "('pub, 'aura, 'acc) spec_source \<Rightarrow> string \<Rightarrow> string + ('acc, 'aura) chain_spec" where
  "load_spec S name =
     (if name = ''dev'' then Inr (development_config (ss_keyring S) (ss_wasm S) (ss_defaults S))
      else if name = ''template-rococo''
        then Inr (local_testnet_config (ss_keyring S) (ss_wasm S) (ss_defaults S))
      else if name = [] \<or> name = ''local''
        then Inr (local_testnet_config (ss_keyring S) (ss_wasm S) (ss_defaults S))
      else ss_from_json_file S name)"

definition unwrap_or_default :: "string option \<Rightarrow> string" where
  "unwrap_or_default x = (case x of None \<Rightarrow> [] | Some s \<Rightarrow> s)"

definition extract_genesis_wasm ::
  "('acc, 'aura, 'cfg, 'c, 'rb, 'blk, 'comp) cli_host \<Rightarrow> ('acc, 'aura) chain_spec \<Rightarrow> string + bytes" where
  "extract_genesis_wasm F chain_spec =
     try_with (build_storage F chain_spec) (\<lambda>top.
       case top (code_key F) of
         None \<Rightarrow> Inl ''Could not find wasm file in genesis state!''
       | Some code \<Rightarrow> Inr code)"

section \<open>The relay chain's command line\<close>

definition RelayChainCli_new ::
  "('acc, 'aura, 'cfg, 'c, 'rb, 'blk, 'comp) cli_host \<Rightarrow> ('acc, 'aura, 'cfg) configuration
     \<Rightarrow> string list \<Rightarrow> 'rb RelayChainCli" where
  "RelayChainCli_new F para_config args =
     (let extension = get_extension F (chain_spec_of para_config);
          chain_id = map_option relay_chain extension;
          base_path = map_option (\<lambda>x. join_path F x ''polkadot'') (base_path_of para_config)
      in \<lparr>rc_base = relay_from_iter F args, rc_chain_id = chain_id, rc_base_path = base_path\<rparr>)"

text \<open>What the relay chain node uses: its own arguments first, the parachain's values otherwise.
  \<open>own_path\<close> and \<open>own_chain_id\<close> are what the framework reads from its arguments.\<close>

definition relay_base_path :: "string option \<Rightarrow> 'rb RelayChainCli \<Rightarrow> string option" where
  "relay_base_path own_path self = (case own_path of Some p \<Rightarrow> Some p | None \<Rightarrow> rc_base_path self)"

definition relay_chain_id :: "string + string \<Rightarrow> 'rb RelayChainCli \<Rightarrow> string + string" where
  "relay_chain_id own_chain_id self =
     try_with own_chain_id (\<lambda>chain_id.
       Inr (if chain_id = [] then unwrap_or_default (rc_chain_id self) else chain_id))"

definition p2p_listen_port :: "16 word" where "p2p_listen_port = 30334"
definition rpc_ws_listen_port :: "16 word" where "rpc_ws_listen_port = 9945"
definition rpc_http_listen_port :: "16 word" where "rpc_http_listen_port = 9934"
definition prometheus_listen_port :: "16 word" where "prometheus_listen_port = 9616"

section \<open>Running a command\<close>

definition async_run ::
  "('acc, 'aura, 'cfg, 'c, 'rb, 'blk, 'comp) cli_host \<Rightarrow> 'c Subcommand \<Rightarrow> 'c
     \<Rightarrow> string + ('acc, 'aura, 'cfg, 'c, 'comp) action" where
  "async_run F sub cmd =
     try_with (create_runner F cmd) (\<lambda>config.
     try_with (new_partial F config) (\<lambda>components.
     Inr (RunAsync sub components config)))"

definition write_output :: "string option \<Rightarrow> bytes \<Rightarrow> ('acc, 'aura, 'cfg, 'c, 'comp) action" where
  "write_output output buf = (case output of Some path \<Rightarrow> WriteFile path buf | None \<Rightarrow> WriteStdout buf)"

text \<open>The bytes of \<open>0x\<close> and the hexadecimal digits, or the raw bytes.\<close>

definition output_buf ::
  "('acc, 'aura, 'cfg, 'c, 'rb, 'blk, 'comp) cli_host \<Rightarrow> bool \<Rightarrow> bytes \<Rightarrow> bytes" where
  "output_buf F raw blob = (if raw then blob else [48, 120] @ hex_display F blob)"

definition relay_args :: "('acc, 'aura, 'cfg, 'c, 'rb, 'blk, 'comp) cli_host \<Rightarrow> 'c Cli \<Rightarrow> string list" where
  "relay_args F cli = executable_name F # relay_chain_args cli"

definition run_purge ::
  "('acc, 'aura, 'cfg, 'c, 'rb, 'blk, 'comp) cli_host \<Rightarrow> 'c Cli \<Rightarrow> 'c
     \<Rightarrow> string + ('acc, 'aura, 'cfg, 'c, 'comp) action" where
  "run_purge F cli cmd =
     try_with (create_runner F cmd) (\<lambda>config.
     let polkadot_cli = RelayChainCli_new F config (relay_args F cli) in
     try_with (map_err (\<lambda>err. ''Relay chain argument error: '' @ err) (create_configuration F polkadot_cli))
       (\<lambda>polkadot_config. Inr (RunPurge cmd config polkadot_config)))"

definition run_node ::
  "('acc, 'aura, 'cfg, 'c, 'rb, 'blk, 'comp) cli_host \<Rightarrow> 'c Cli
     \<Rightarrow> string + ('acc, 'aura, 'cfg, 'c, 'comp) action" where
  "run_node F cli =
     try_with (create_runner F (normalize F (run_cmd cli))) (\<lambda>config.
     case get_extension F (chain_spec_of config) of
       None \<Rightarrow> Inl ''Could not find parachain ID in chain-spec.''
     | Some extension \<Rightarrow>
    (let para_id = ext_para_id extension;
         polkadot_cli = RelayChainCli_new F config (relay_args F cli)
     in try_with (map_err (debug_format F) (generate_genesis_block F (chain_spec_of config))) (\<lambda>block.
        try_with (map_err (\<lambda>err. ''Relay chain argument error: '' @ err) (create_configuration F polkadot_cli))
          (\<lambda>polkadot_config. Inr (StartParachainNode config polkadot_config para_id)))))"

definition run ::
  "('pub, 'aura, 'acc) spec_source \<Rightarrow> ('acc, 'aura, 'cfg, 'c, 'rb, 'blk, 'comp) cli_host \<Rightarrow> 'c Cli
     \<Rightarrow> string + ('acc, 'aura, 'cfg, 'c, 'comp) action" where
  "run S F cli =
     (case subcommand cli of
        Some (BuildSpec cmd) \<Rightarrow> try_with (create_runner F cmd) (\<lambda>config. Inr (RunSync (BuildSpec cmd) config))
      | Some (CheckBlock cmd) \<Rightarrow> async_run F (CheckBlock cmd) cmd
      | Some (ExportBlocks cmd) \<Rightarrow> async_run F (ExportBlocks cmd) cmd
      | Some (ExportState cmd) \<Rightarrow> async_run F (ExportState cmd) cmd
      | Some (ImportBlocks cmd) \<Rightarrow> async_run F (ImportBlocks cmd) cmd
      | Some (PurgeChain cmd) \<Rightarrow> run_purge F cli cmd
      | Some (Revert cmd) \<Rightarrow> async_run F (Revert cmd) cmd
      | Some (ExportGenesisState params) \<Rightarrow>
          try_with (load_spec S (unwrap_or_default (ec_chain params))) (\<lambda>spec.
          try_with (generate_genesis_block F spec) (\<lambda>block.
          Inr (write_output (ec_output params) (output_buf F (ec_raw params) (header_encode F block)))))
      | Some (ExportGenesisWasm params) \<Rightarrow>
          try_with (load_spec S (unwrap_or_default (ec_chain params))) (\<lambda>spec.
          try_with (extract_genesis_wasm F spec) (\<lambda>wasm.
          Inr (write_output (ec_output params) (output_buf F (ec_raw params) wasm))))
      | Some (Benchmark cmd) \<Rightarrow>
          if runtime_benchmarks F
          then try_with (create_runner F cmd) (\<lambda>config. Inr (RunSync (Benchmark cmd) config))
          else Inl (''Benchmarking wasn't enabled when building the node. ''
                 @ ''You can enable it with `--features runtime-benchmarks`.'')
      | None \<Rightarrow> run_node F cli)"

section \<open>Properties\<close>

text \<open>A node that starts was given a configuration by the framework whose specification has the
  extensions; it starts for their parachain id, and its relay chain node is configured from the
  arguments after \<open>--\<close>, with the extensions' relay chain and the directory \<open>polkadot\<close> below
  the parachain's base path as fall-backs.\<close>

theorem started_node_follows_extensions:
  assumes "run S F cli = Inr (StartParachainNode config polkadot_config para_id)"
  shows "subcommand cli = None \<and> create_runner F (normalize F (run_cmd cli)) = Inr config
    \<and> (\<exists>ext blk. get_extension F (chain_spec_of config) = Some ext \<and> para_id = ext_para_id ext
        \<and> generate_genesis_block F (chain_spec_of config) = Inr blk
        \<and> create_configuration F
            \<lparr>rc_base = relay_from_iter F (executable_name F # relay_chain_args cli),
             rc_chain_id = Some (relay_chain ext),
             rc_base_path = map_option (\<lambda>x. join_path F x ''polkadot'') (base_path_of config)\<rparr>
          = Inr polkadot_config)"
proof (cases "subcommand cli")
  case None
  with assms show ?thesis
    by (auto simp: run_def run_node_def try_Inr_iff RelayChainCli_new_def relay_args_def Let_def
        split: option.splits)
next
  case (Some sub)
  with assms show ?thesis
    by (cases sub)
      (auto simp: run_def run_purge_def async_run_def try_Inr_iff write_output_def Let_def
        split: option.splits if_splits)
qed

text \<open>A framework that knows the built-in specifications.\<close>

definition small_source :: "(string, string, string) spec_source" where
  "small_source = \<lparr>ss_keyring = seed_keyring, ss_wasm = Some [0, 97], ss_defaults =
     \<lparr>d_desired_candidates = 0, d_aura_authorities = []\<rparr>, ss_from_json_file = (\<lambda>path. Inl ''No such file'')\<rparr>"

definition small_host ::
  "(string, string, unit, string, string list, string, unit) cli_host" where
  "small_host =
     \<lparr>create_runner = (\<lambda>c. case load_spec small_source c of
        Inl e \<Rightarrow> Inl e | Inr spec \<Rightarrow> Inr \<lparr>chain_spec_of = spec, base_path_of = Some ''/data'', rest_of = ()\<rparr>),
      normalize = (\<lambda>c. c), new_partial = (\<lambda>c. Inr ()), get_extension = (\<lambda>spec. Some (cs_extensions spec)),
      join_path = (\<lambda>a b. a @ ''/'' @ b), relay_from_iter = (\<lambda>args. args), executable_name = ''node'',
      create_configuration = (\<lambda>rc. Inr \<lparr>chain_spec_of = local_testnet_config seed_keyring None
        \<lparr>d_desired_candidates = 0, d_aura_authorities = []\<rparr>, base_path_of = rc_base_path rc, rest_of = ()\<rparr>),
      generate_genesis_block = (\<lambda>spec. Inr (cs_name spec)), header_encode = (\<lambda>b. [1, 2]),
      build_storage = (\<lambda>spec. Inr Map.empty), code_key = [], hex_display = concat \<circ> map (\<lambda>b. [48, 48 + b]),
      debug_format = (\<lambda>e. e), runtime_benchmarks = False\<rparr>"

theorem started_node_follows_extensions_witness:
  "\<exists>config pc. run small_source small_host \<lparr>subcommand = None, run_cmd = ''dev'', relay_chain_args = []\<rparr>
       = Inr (StartParachainNode config pc 2000) \<and> cs_id (chain_spec_of config) = ''dev''
     \<and> (\<exists>ext. get_extension small_host (chain_spec_of config) = Some ext \<and> ext_para_id ext = 2000)"
proof -
  let ?cli = "\<lparr>subcommand = None, run_cmd = ''dev'', relay_chain_args = []\<rparr>"
  obtain config pc where r: "run small_source small_host ?cli = Inr (StartParachainNode config pc 2000)"
    and c: "cs_id (chain_spec_of config) = ''dev''"
    by (simp add: run_def run_node_def small_host_def map_err_def load_spec_def development_config_def Let_def)
  from started_node_follows_extensions [OF r] have
    "\<exists>ext. get_extension small_host (chain_spec_of config) = Some ext \<and> ext_para_id ext = 2000" by auto
  with r c show ?thesis by blast
qed

text \<open>The raw and the hexadecimal form of both export commands agree: with the same chain and
  output they fail with the same error, or write to the same place, the latter the prefix
  \<open>0x\<close> and the hexadecimal form of what the former writes.\<close>

theorem export_forms_agree:
  "run S F (cli\<lparr>subcommand := Some (ExportGenesisState (p\<lparr>ec_raw := False\<rparr>))\<rparr>)
     = (case run S F (cli\<lparr>subcommand := Some (ExportGenesisState (p\<lparr>ec_raw := True\<rparr>))\<rparr>) of
          Inr (WriteFile path blob) \<Rightarrow> Inr (WriteFile path ([48, 120] @ hex_display F blob))
        | Inr (WriteStdout blob) \<Rightarrow> Inr (WriteStdout ([48, 120] @ hex_display F blob))
        | r \<Rightarrow> r)
   \<and> run S F (cli\<lparr>subcommand := Some (ExportGenesisWasm (p\<lparr>ec_raw := False\<rparr>))\<rparr>)
     = (case run S F (cli\<lparr>subcommand := Some (ExportGenesisWasm (p\<lparr>ec_raw := True\<rparr>))\<rparr>) of
          Inr (WriteFile path blob) \<Rightarrow> Inr (WriteFile path ([48, 120] @ hex_display F blob))
        | Inr (WriteStdout blob) \<Rightarrow> Inr (WriteStdout ([48, 120] @ hex_display F blob))
        | r \<Rightarrow> r)"
  by (auto simp: run_def try_with_def write_output_def output_buf_def split: sum.split option.split)

text \<open>Names of specifications: the development specification is loaded by its own id, but the
  id of the local one, \<open>local_testnet\<close>, is taken for the name of a file; the names \<open>local\<close>,
  \<open>template-rococo\<close> and the empty one, the default, all give the local specification.\<close>

theorem spec_names:
  "(\<exists>spec. load_spec S ''dev'' = Inr spec \<and> load_spec S (cs_id spec) = Inr spec)
   \<and> (\<exists>spec. load_spec S (unwrap_or_default None) = Inr spec
        \<and> load_spec S ''local'' = Inr spec \<and> load_spec S ''template-rococo'' = Inr spec
        \<and> load_spec S (cs_id spec) = ss_from_json_file S ''local_testnet'')"
  by (simp add: load_spec_def development_config_def local_testnet_config_def unwrap_or_default_def Let_def)

text \<open>The relay chain of a node: a chain the user names for the relay chain is used as it is; with
  none named, a node whose specification has the extensions uses the relay chain they name.\<close>

theorem relay_chain_resolution:
  assumes "get_extension F (chain_spec_of config) = Some ext"
  shows "relay_chain_id (Inr user_chain) (RelayChainCli_new F config args)
     = Inr (if user_chain = [] then relay_chain ext else user_chain)"
  using assms by (simp add: relay_chain_id_def RelayChainCli_new_def unwrap_or_default_def)

theorem relay_chain_resolution_witness:
  "relay_chain_id (Inr []) (RelayChainCli_new small_host
      \<lparr>chain_spec_of = local_testnet_config seed_keyring None \<lparr>d_desired_candidates = 0, d_aura_authorities = []\<rparr>,
       base_path_of = None, rest_of = ()\<rparr> [])
     = Inr ''rococo-local''"
  by (subst relay_chain_resolution [where ext = "\<lparr>relay_chain = ''rococo-local'', ext_para_id = 2000\<rparr>"])
    (simp_all add: small_host_def local_testnet_config_def Let_def)

end
