(* ===== verification/Node_Service.thy ===== *)
theory Node_Service
  imports Node_Command
begin

text \<open>
  How a node starts (\<open>node/src/service.rs\<close>): \<open>new_partial\<close> and \<open>start_node_impl\<close> as the
  sequence of framework calls they make, over an opaque world.  A call that returns a
  \<open>Result\<close> is \<open>attempt\<close>ed and its error ends the start; the others are \<open>perform\<close>ed.  Each
  call is named with the data of the code that decides it.
\<close>

section \<open>Configuration and calls\<close>

datatype role = Full | Authority | Light

record service_config =
  role_of :: role
  telemetry_endpoints :: "string list option"
  force_authoring :: bool

definition is_authority :: "role \<Rightarrow> bool" where
  "is_authority r \<longleftrightarrow> r = Authority"

datatype startup =
  NewTelemetryWorker nat
| NewTelemetry "string list"
| NewFullParts bool
| SpawnTelemetry
| NewTransactionPool bool
| BuildImportQueue bool
| BuildRelayNode bool
| BuildAnnounceValidator para_id
| BuildNetwork
| SpawnTasks bool
| BuildConsensus bool bool
| StartCollator para_id
| StartFullNode para_id
| StartNetwork

text \<open>The relay chain node reports errors of its own type.\<close>

datatype relay_error = SubError string | RelayError string

record 'w service_host =
  perform :: "startup \<Rightarrow> 'w \<Rightarrow> 'w"
  attempt :: "startup \<Rightarrow> 'w \<Rightarrow> (string + unit) \<times> 'w"
  build_polkadot_full_node :: "bool \<Rightarrow> 'w \<Rightarrow> (relay_error + unit) \<times> 'w"
  prepare_node_config :: "service_config \<Rightarrow> service_config"

definition then_with ::
  "(string + 'x) \<times> 'w \<Rightarrow> ('x \<Rightarrow> 'w \<Rightarrow> (string + 'y) \<times> 'w) \<Rightarrow> (string + 'y) \<times> 'w" where
  "then_with r f = (case r of (Inl e, w) \<Rightarrow> (Inl e, w) | (Inr x, w) \<Rightarrow> f x w)"

lemma then_with_simps [simp]:
  "then_with (Inl e, w) f = (Inl e, w)"
  "then_with (Inr x, w) f = f x w"
  by (simp_all add: then_with_def)

section \<open>Building the components\<close>

text \<open>The endpoints that are used: those given, unless the list is empty.\<close>

definition used_endpoints :: "service_config \<Rightarrow> string list option" where
  "used_endpoints config = (case telemetry_endpoints config of
     None \<Rightarrow> None | Some es \<Rightarrow> if es = [] then None else Some es)"

definition start_telemetry ::
  "'w service_host \<Rightarrow> service_config \<Rightarrow> 'w \<Rightarrow> (string + bool) \<times> 'w" where
  "start_telemetry F config w =
     (case used_endpoints config of
        None \<Rightarrow> (Inr False, w)
      | Some endpoints \<Rightarrow>
          then_with (attempt F (NewTelemetryWorker 16) w) (\<lambda>_ w.
            (Inr True, perform F (NewTelemetry endpoints) w)))"

text \<open>The result says whether there is telemetry.\<close>

definition new_partial_parts ::
  "'w service_host \<Rightarrow> service_config \<Rightarrow> 'w \<Rightarrow> (string + bool) \<times> 'w" where
  "new_partial_parts F config w =
     then_with (start_telemetry F config w) (\<lambda>telemetry w.
     then_with (attempt F (NewFullParts telemetry) w) (\<lambda>_ w.
     let w = (if telemetry then perform F SpawnTelemetry w else w);
         w = perform F (NewTransactionPool (is_authority (role_of config))) w
     in then_with (attempt F (BuildImportQueue telemetry) w) (\<lambda>_ w. (Inr telemetry, w))))"

section \<open>Starting a node\<close>

fun map_relay_error :: "relay_error \<Rightarrow> string" where
  "map_relay_error (SubError x) = x"
| "map_relay_error (RelayError s) = s"

definition start_relay_node ::
  "'w service_host \<Rightarrow> bool \<Rightarrow> 'w \<Rightarrow> (string + unit) \<times> 'w" where
  "start_relay_node F telemetry w =
     (case build_polkadot_full_node F telemetry w of
        (Inl e, w) \<Rightarrow> (Inl (map_relay_error e), w) | (Inr u, w) \<Rightarrow> (Inr u, w))"

definition start_node_impl ::
  "'w service_host \<Rightarrow> service_config \<Rightarrow> para_id \<Rightarrow> 'w \<Rightarrow> (string + unit) \<times> 'w" where
  "start_node_impl F parachain_config para_id w =
     (if role_of parachain_config = Light then (Inl ''Light client not supported!'', w)
      else
     (let config = prepare_node_config F parachain_config
      in then_with (new_partial_parts F config w) (\<lambda>telemetry w.
         then_with (start_relay_node F telemetry w) (\<lambda>_ w.
         let w = perform F (BuildAnnounceValidator para_id) w;
             force = force_authoring config;
             validator = is_authority (role_of config)
         in then_with (attempt F BuildNetwork w) (\<lambda>_ w.
            then_with (attempt F (SpawnTasks telemetry) w) (\<lambda>_ w.
            then_with
              (if validator
               then then_with (attempt F (BuildConsensus telemetry force) w) (\<lambda>_ w.
                    attempt F (StartCollator para_id) w)
               else attempt F (StartFullNode para_id) w) (\<lambda>_ w.
            (Inr (), perform F StartNetwork w))))))))"

section \<open>The same as a list of calls\<close>

datatype call = Try startup | Do startup | Relay bool

fun run_calls :: "'w service_host \<Rightarrow> call list \<Rightarrow> 'w \<Rightarrow> (string + unit) \<times> 'w" where
  "run_calls F [] = (\<lambda>w. (Inr (), w))"
| "run_calls F (Try c # cs) = (\<lambda>w. then_with (attempt F c w) (\<lambda>_. run_calls F cs))"
| "run_calls F (Do c # cs) = (\<lambda>w. run_calls F cs (perform F c w))"
| "run_calls F (Relay t # cs) = (\<lambda>w. then_with (start_relay_node F t w) (\<lambda>_. run_calls F cs))"

definition startup_calls :: "service_config \<Rightarrow> para_id \<Rightarrow> call list" where
  "startup_calls config para_id =
     (let t = used_endpoints config \<noteq> None; v = is_authority (role_of config) in
      (case used_endpoints config of
         None \<Rightarrow> [] | Some es \<Rightarrow> [Try (NewTelemetryWorker 16), Do (NewTelemetry es)])
      @ [Try (NewFullParts t)] @ (if t then [Do SpawnTelemetry] else [])
      @ [Do (NewTransactionPool v), Try (BuildImportQueue t), Relay t,
         Do (BuildAnnounceValidator para_id), Try BuildNetwork, Try (SpawnTasks t)]
      @ (if v then [Try (BuildConsensus t (force_authoring config)), Try (StartCollator para_id)]
         else [Try (StartFullNode para_id)])
      @ [Do StartNetwork])"

lemma then_with_assoc [simp]: "then_with (then_with r f) g = then_with r (\<lambda>x w. then_with (f x w) g)"
  by (auto simp: then_with_def split: prod.split sum.split)

lemma then_with_ok: "then_with r (\<lambda>_ w. (Inr (), w)) = r" for r :: "(string + unit) \<times> 'w"
  by (auto simp: then_with_def split: prod.split sum.split)

lemma start_node_calls:
  assumes "role_of config \<noteq> Light"
  shows "start_node_impl F config para_id w
     = run_calls F (startup_calls (prepare_node_config F config) para_id) w"
  using assms
  by (cases "used_endpoints (prepare_node_config F config)")
    (simp_all add: start_node_impl_def new_partial_parts_def start_telemetry_def startup_calls_def Let_def
      fun_eq_iff)

text \<open>Runs that succeed pass through a world in which the network has not started.\<close>

lemma run_calls_append:
  "run_calls F (cs @ ds) = (\<lambda>w. then_with (run_calls F cs w) (\<lambda>_. run_calls F ds))"
  by (induction F cs rule: run_calls.induct) simp_all

section \<open>Properties\<close>


text \<open>A start that fails has not started the network: it ended at a failing call, and every call
  made up to there was one before the last.\<close>

theorem failed_start_before_network:
  assumes "start_node_impl F config para_id w = (Inl e, w')" and "role_of config \<noteq> Light"
  shows "\<exists>made. startup_calls (prepare_node_config F config) para_id = made @ [Do StartNetwork]
    \<and> run_calls F made w = (Inl e, w') \<and> Do StartNetwork \<notin> set made"
proof -
  let ?calls = "startup_calls (prepare_node_config F config) para_id"
  obtain made where made: "?calls = made @ [Do StartNetwork]"
    by (auto simp: startup_calls_def Let_def split: option.split)
  have "Do StartNetwork \<notin> set made"
    using made by (auto simp: startup_calls_def Let_def split: option.splits if_splits)
  moreover have "run_calls F made w = (Inl e, w')"
    using assms start_node_calls [OF assms(2), of F para_id w]
    by (simp add: made run_calls_append) (cases "run_calls F made w"; cases "fst (run_calls F made w)"; simp)
  ultimately show ?thesis using made by blast
qed

text \<open>A framework that records its calls and cannot build a network.\<close>

definition no_network :: "startup list service_host" where
  "no_network = \<lparr>perform = (\<lambda>c w. w @ [c]),
     attempt = (\<lambda>c w. (if c = BuildNetwork then Inl ''no network'' else Inr (), w @ [c])),
     build_polkadot_full_node = (\<lambda>t w. (Inr (), w @ [BuildRelayNode t])), prepare_node_config = (\<lambda>c. c)\<rparr>"

theorem failed_start_before_network_witness:
  "\<exists>w'. start_node_impl no_network \<lparr>role_of = Authority, telemetry_endpoints = Some [], force_authoring = False\<rparr>
       2000 [] = (Inl ''no network'', w') \<and> StartNetwork \<notin> set w'
     \<and> (\<exists>made. run_calls no_network made [] = (Inl ''no network'', w'))"
proof -
  let ?c = "\<lparr>role_of = Authority, telemetry_endpoints = Some [], force_authoring = False\<rparr>"
  obtain w' where w': "start_node_impl no_network ?c 2000 [] = (Inl ''no network'', w')"
    and "StartNetwork \<notin> set w'"
    by (simp add: start_node_impl_def new_partial_parts_def start_telemetry_def used_endpoints_def
        start_relay_node_def no_network_def Let_def is_authority_def)
  with failed_start_before_network [OF w'] show ?thesis by auto
qed

end
