(* ===== verification/Node_Cli_Config.thy ===== *)
theory Node_Cli_Config
  imports Node_Command Runtime_Constants
begin

text \<open>
  The two command-line interfaces of the node as the framework sees them
  (\<open>node/src/command.rs\<close>): \<open>SubstrateCli\<close> for \<open>Cli\<close> and \<open>RelayChainCli\<close>, and
  \<open>CliConfiguration\<close> and \<open>DefaultConfigurationValues\<close> for \<open>RelayChainCli\<close>.  A method of
  \<open>CliConfiguration\<close> is a query; the answers of the relay chain's own command,
  \<open>self.base.base\<close>, are the argument \<open>base\<close>.
\<close>

section \<open>Identity\<close>

text \<open>\<open>env!\<close> and \<open>executable_name\<close> come from the build and the framework.\<close>

record build_env =
  impl_version_env :: string
  authors_env :: string

record ('s, 'v) substrate_cli =
  cli_impl_name :: string
  cli_impl_version :: string
  cli_description :: string
  cli_author :: string
  cli_support_url :: string
  cli_copyright_start_year :: int
  cli_load_spec :: "string \<Rightarrow> string + 's"
  cli_native_runtime_version :: "'s \<Rightarrow> 'v"

definition cli_text :: string where
  "cli_text = ''Parachain Collator Template'' @ [CHR 0x0A, CHR 0x0A]
     @ ''The command-line arguments provided first will be ''
     @ ''passed to the parachain node, while the arguments provided after -- will be passed ''
     @ ''to the relay chain node.'' @ [CHR 0x0A, CHR 0x0A]
     @ ''parachain-collator <parachain-args> -- <relay-chain-args>''"

definition Cli_substrate ::
  "build_env \<Rightarrow> ('pub, 'aura, 'acc) spec_source \<Rightarrow> (('acc, 'aura) chain_spec, runtime_version) substrate_cli" where
  "Cli_substrate E S =
     \<lparr>cli_impl_name = ''Parachain Collator Template'',
      cli_impl_version = impl_version_env E,
      cli_description = cli_text,
      cli_author = authors_env E,
      cli_support_url = ''https://github.com/paritytech/cumulus/issues/new'',
      cli_copyright_start_year = 2020,
      cli_load_spec = load_spec S,
      cli_native_runtime_version = (\<lambda>spec. VERSION)\<rparr>"

text \<open>The relay chain's own command line, which is parsed from the executable's name alone, loads
  the specification and knows the version.\<close>

definition RelayChainCli_substrate ::
  "build_env \<Rightarrow> string \<Rightarrow> (string list \<Rightarrow> string \<Rightarrow> string + 's) \<Rightarrow> ('s \<Rightarrow> 'v) \<Rightarrow> ('s, 'v) substrate_cli" where
  "RelayChainCli_substrate E executable polkadot_load_spec polkadot_version =
     \<lparr>cli_impl_name = ''Parachain Collator Template'',
      cli_impl_version = impl_version_env E,
      cli_description = cli_text,
      cli_author = authors_env E,
      cli_support_url = ''https://github.com/paritytech/cumulus/issues/new'',
      cli_copyright_start_year = 2020,
      cli_load_spec = polkadot_load_spec [executable],
      cli_native_runtime_version = polkadot_version\<rparr>"

section \<open>Configuration of the relay chain node\<close>

datatype 's cli_query =
  SharedParams | ImportParams | NetworkParams | KeystoreParams
| BasePath | RpcHttp "16 word" | RpcIpc | RpcWs "16 word" | PrometheusConfig "16 word"
| Init | ChainId bool | RoleQuery bool | TransactionPool | StateCacheChildRatio | RpcMethods
| RpcWsMaxConnections | RpcCors bool | DefaultHeapPages | ForceAuthoring | DisableGrandpa
| MaxRuntimeInstances | AnnounceBlock | TelemetryEndpoints 's

datatype 'v answer = PathAnswer "string option" | ChainAnswer string | OtherAnswer 'v

record ('rb, 's, 'v) base_command =
  base_answers :: "'rb \<Rightarrow> 's cli_query \<Rightarrow> string + 'v answer"
  base_chain_id :: "'rb \<Rightarrow> bool \<Rightarrow> string + string"
  shared_base_path :: "'rb \<Rightarrow> string option"

text \<open>\<open>None\<close> is the panic of \<open>unreachable!\<close>.\<close>

fun relay_query ::
  "('rb, 's, 'v) base_command \<Rightarrow> 'rb RelayChainCli \<Rightarrow> 's cli_query \<Rightarrow> (string + 'v answer) option" where
  "relay_query B self SharedParams = Some (base_answers B (rc_base self) SharedParams)"
| "relay_query B self ImportParams = Some (base_answers B (rc_base self) ImportParams)"
| "relay_query B self NetworkParams = Some (base_answers B (rc_base self) NetworkParams)"
| "relay_query B self KeystoreParams = Some (base_answers B (rc_base self) KeystoreParams)"
| "relay_query B self BasePath =
     Some (Inr (PathAnswer (relay_base_path (shared_base_path B (rc_base self)) self)))"
| "relay_query B self (RpcHttp port) = Some (base_answers B (rc_base self) (RpcHttp port))"
| "relay_query B self RpcIpc = Some (base_answers B (rc_base self) RpcIpc)"
| "relay_query B self (RpcWs port) = Some (base_answers B (rc_base self) (RpcWs port))"
| "relay_query B self (PrometheusConfig port) =
     Some (base_answers B (rc_base self) (PrometheusConfig port))"
| "relay_query B self Init = None"
| "relay_query B self (ChainId is_dev) =
     Some (try_with (relay_chain_id (base_chain_id B (rc_base self) is_dev) self) (\<lambda>c. Inr (ChainAnswer c)))"
| "relay_query B self (RoleQuery is_dev) = Some (base_answers B (rc_base self) (RoleQuery is_dev))"
| "relay_query B self TransactionPool = Some (base_answers B (rc_base self) TransactionPool)"
| "relay_query B self StateCacheChildRatio = Some (base_answers B (rc_base self) StateCacheChildRatio)"
| "relay_query B self RpcMethods = Some (base_answers B (rc_base self) RpcMethods)"
| "relay_query B self RpcWsMaxConnections = Some (base_answers B (rc_base self) RpcWsMaxConnections)"
| "relay_query B self (RpcCors is_dev) = Some (base_answers B (rc_base self) (RpcCors is_dev))"
| "relay_query B self DefaultHeapPages = Some (base_answers B (rc_base self) DefaultHeapPages)"
| "relay_query B self ForceAuthoring = Some (base_answers B (rc_base self) ForceAuthoring)"
| "relay_query B self DisableGrandpa = Some (base_answers B (rc_base self) DisableGrandpa)"
| "relay_query B self MaxRuntimeInstances = Some (base_answers B (rc_base self) MaxRuntimeInstances)"
| "relay_query B self AnnounceBlock = Some (base_answers B (rc_base self) AnnounceBlock)"
| "relay_query B self (TelemetryEndpoints chain_spec) =
     Some (base_answers B (rc_base self) (TelemetryEndpoints chain_spec))"

section \<open>Properties\<close>

text \<open>The relay chain node of a parachain with extensions: what the user says about the relay
  chain's directory and chain is used; what is not said comes from the parachain, the directory
  \<open>polkadot\<close> below its own and the relay chain of its specification; everything else is the
  relay chain's own configuration, and only \<open>init\<close> panics.\<close>

theorem relay_configuration_falls_back:
  assumes "get_extension F (chain_spec_of config) = Some ext"
    and "self = RelayChainCli_new F config args" "rb = relay_from_iter F args"
  shows "relay_query B self BasePath = Some (Inr (PathAnswer (case shared_base_path B rb of
        Some p \<Rightarrow> Some p
      | None \<Rightarrow> map_option (\<lambda>x. join_path F x ''polkadot'') (base_path_of config))))
    \<and> relay_query B self (ChainId is_dev) = Some (case base_chain_id B rb is_dev of
        Inl e \<Rightarrow> Inl e
      | Inr c \<Rightarrow> Inr (ChainAnswer (if c = [] then relay_chain ext else c)))
    \<and> (q \<noteq> BasePath \<and> (\<forall>b. q \<noteq> ChainId b) \<and> q \<noteq> Init \<longrightarrow> relay_query B self q = Some (base_answers B rb q))
    \<and> (relay_query B self q = None \<longleftrightarrow> q = Init)"
proof -
  have "relay_query B self (ChainId is_dev) = Some (case base_chain_id B rb is_dev of
      Inl e \<Rightarrow> Inl e | Inr c \<Rightarrow> Inr (ChainAnswer (if c = [] then relay_chain ext else c)))"
    by (cases "base_chain_id B rb is_dev")
      (simp_all add: assms RelayChainCli_new_def relay_chain_id_def unwrap_or_default_def)
  moreover have "q \<noteq> BasePath \<and> (\<forall>b. q \<noteq> ChainId b) \<and> q \<noteq> Init \<longrightarrow> relay_query B self q = Some (base_answers B rb q)"
    by (cases q) (auto simp: assms(2,3) RelayChainCli_new_def)
  moreover have "relay_query B self q = None \<longleftrightarrow> q = Init" by (cases q) simp_all
  moreover have "relay_query B self BasePath = Some (Inr (PathAnswer (case shared_base_path B rb of
      Some p \<Rightarrow> Some p | None \<Rightarrow> map_option (\<lambda>x. join_path F x ''polkadot'') (base_path_of config))))"
    by (simp add: assms RelayChainCli_new_def relay_base_path_def split: option.split)
  ultimately show ?thesis by (intro conjI)
qed

theorem relay_configuration_falls_back_witness:
  "relay_query \<lparr>base_answers = (\<lambda>rb q. Inr (OtherAnswer ())), base_chain_id = (\<lambda>rb dev. Inr []),
       shared_base_path = (\<lambda>rb. None)\<rparr>
     (RelayChainCli_new small_host \<lparr>chain_spec_of = local_testnet_config seed_keyring None
         \<lparr>d_desired_candidates = 0, d_aura_authorities = []\<rparr>, base_path_of = Some ''/data'', rest_of = ()\<rparr> [])
     (BasePath :: unit cli_query)
   = Some (Inr (PathAnswer (Some ''/data/polkadot'')))"
proof -
  let ?config = "\<lparr>chain_spec_of = local_testnet_config seed_keyring None
    \<lparr>d_desired_candidates = 0, d_aura_authorities = []\<rparr>, base_path_of = Some ''/data'', rest_of = ()\<rparr>"
  let ?B = "\<lparr>base_answers = (\<lambda>rb q. Inr (OtherAnswer ())), base_chain_id = (\<lambda>rb dev. Inr []),
       shared_base_path = (\<lambda>rb. None)\<rparr> :: (string list, unit, unit) base_command"
  have "get_extension small_host (chain_spec_of ?config) = Some (cs_extensions (chain_spec_of ?config))"
    by (simp add: small_host_def)
  from relay_configuration_falls_back [OF this refl refl, of ?B "[]"]
  show ?thesis by (simp add: small_host_def)
qed

text \<open>Both interfaces present themselves as the same program; only the parachain's knows the
  runtime's version by itself.\<close>

lemma same_program:
  "cli_impl_name (Cli_substrate E S) = cli_impl_name (RelayChainCli_substrate E x l v)
   \<and> cli_description (Cli_substrate E S) = cli_description (RelayChainCli_substrate E x l v)
   \<and> cli_native_runtime_version (Cli_substrate E S) spec = VERSION"
  by (simp add: Cli_substrate_def RelayChainCli_substrate_def)

end
