(* ===== verification/Node_Rpc.thy ===== *)
theory Node_Rpc
  imports Node_Cli_Config
begin

text \<open>
  The RPC extensions of the node (\<open>node/src/rpc.rs\<close>) and its entry point
  (\<open>node/src/main.rs\<close>).  The handler table, an opaque \<open>'io\<close>, its operations and the delegates
  of \<open>SystemApi\<close> and \<open>TransactionPaymentApi\<close>, which map the names of methods to handlers, are
  the framework's; \<open>rpc_docs\<close> is the documented behaviour of a table.
\<close>

record ('io, 'm, 'c, 'p) rpc_framework =
  default_handler :: 'io
  extend_with :: "'io \<Rightarrow> (string \<rightharpoonup> 'm) \<Rightarrow> 'io"
  handler :: "'io \<Rightarrow> string \<rightharpoonup> 'm"
  system_delegate :: "'c \<Rightarrow> 'p \<Rightarrow> bool \<Rightarrow> (string \<rightharpoonup> 'm)"
  payment_delegate :: "'c \<Rightarrow> (string \<rightharpoonup> 'm)"

definition rpc_docs :: "('io, 'm, 'c, 'p) rpc_framework \<Rightarrow> bool" where
  "rpc_docs F \<longleftrightarrow> handler F (default_handler F) = Map.empty
     \<and> (\<forall>io d. handler F (extend_with F io d) = handler F io ++ d)"

record ('c, 'p) FullDeps =
  deps_client :: 'c
  deps_pool :: 'p
  deps_deny_unsafe :: bool

definition create_full :: "('io, 'm, 'c, 'p) rpc_framework \<Rightarrow> ('c, 'p) FullDeps \<Rightarrow> 'io" where
  "create_full F deps =
     (let io = default_handler F;
          client = deps_client deps; pool = deps_pool deps; deny_unsafe = deps_deny_unsafe deps;
          io = extend_with F io (system_delegate F client pool deny_unsafe);
          io = extend_with F io (payment_delegate F client)
      in io)"

text \<open>The builder that \<open>start_node_impl\<close> gives to \<open>spawn_tasks\<close>; the one it is called with,
  \<open>_rpc_ext_builder\<close>, is not used.\<close>

definition rpc_extensions_builder ::
  "('io, 'm, 'c, 'p) rpc_framework \<Rightarrow> 'c \<Rightarrow> 'p \<Rightarrow> (unit \<Rightarrow> string + 'io) \<Rightarrow> bool \<Rightarrow> string + 'io" where
  "rpc_extensions_builder F client pool unused_builder deny_unsafe =
     (let deps = \<lparr>deps_client = client, deps_pool = pool, deps_deny_unsafe = deny_unsafe\<rparr>
      in Inr (create_full F deps))"

text \<open>\<open>main\<close> runs the command the framework parsed from the arguments.\<close>

definition main ::
  "('pub, 'aura, 'acc) spec_source \<Rightarrow> ('acc, 'aura, 'cfg, 'c, 'rb, 'blk, 'comp) cli_host
     \<Rightarrow> (string list \<Rightarrow> 'c Cli) \<Rightarrow> string list \<Rightarrow> string + ('acc, 'aura, 'cfg, 'c, 'comp) action" where
  "main S F from_args args = run S F (from_args args)"

text \<open>A node serves exactly the methods of the two delegates, a payment method before a system
  method of the same name, and passes on whether unsafe calls are denied.  Building the
  extensions never fails and ignores the builder passed in.\<close>

theorem node_serves_both_apis:
  assumes "rpc_docs F"
  shows "\<exists>io. rpc_extensions_builder F client pool builder deny = Inr io
     \<and> dom (handler F io) = dom (system_delegate F client pool deny) \<union> dom (payment_delegate F client)
     \<and> (\<forall>m. handler F io m = (case payment_delegate F client m of
          Some h \<Rightarrow> Some h | None \<Rightarrow> system_delegate F client pool deny m))"
proof (intro exI conjI allI)
  show "rpc_extensions_builder F client pool builder deny = Inr (create_full F
      \<lparr>deps_client = client, deps_pool = pool, deps_deny_unsafe = deny\<rparr>)" (is "_ = Inr ?io")
    by (simp add: rpc_extensions_builder_def)
  have io: "handler F ?io = system_delegate F client pool deny ++ payment_delegate F client"
    using assms by (simp add: create_full_def rpc_docs_def Let_def)
  show "dom (handler F ?io) = dom (system_delegate F client pool deny) \<union> dom (payment_delegate F client)"
    by (simp add: io Un_commute)
  show "handler F ?io m = (case payment_delegate F client m of
      Some h \<Rightarrow> Some h | None \<Rightarrow> system_delegate F client pool deny m)" for m
    by (simp add: io map_add_def)
qed

definition sample_rpc :: "(string \<rightharpoonup> bool, bool, unit, unit) rpc_framework" where
  "sample_rpc = \<lparr>default_handler = Map.empty, extend_with = (++), handler = (\<lambda>io. io),
     system_delegate = (\<lambda>c p deny. [''system_dryRun'' \<mapsto> deny]),
     payment_delegate = (\<lambda>c. [''payment_queryInfo'' \<mapsto> False])\<rparr>"

lemma sample_rpc_docs: "rpc_docs sample_rpc"
  by (simp add: rpc_docs_def sample_rpc_def)

theorem node_serves_both_apis_witness:
  "\<exists>io. rpc_extensions_builder sample_rpc () () (\<lambda>_. Inl []) True = Inr io
     \<and> handler sample_rpc io ''system_dryRun'' = Some True"
proof -
  obtain io where io: "rpc_extensions_builder sample_rpc () () (\<lambda>_. Inl []) True = Inr io"
    and served: "\<forall>m. handler sample_rpc io m = (case payment_delegate sample_rpc () m of
       Some h \<Rightarrow> Some h | None \<Rightarrow> system_delegate sample_rpc () () True m)"
    using node_serves_both_apis [OF sample_rpc_docs, of "()" "()" "\<lambda>_. Inl []" True] by blast
  have "handler sample_rpc io ''system_dryRun'' = Some True"
    unfolding served [rule_format] by (simp add: sample_rpc_def)
  with io show ?thesis by blast
qed

end
