(* ===== verification/Runtime_Api.thy ===== *)
theory Runtime_Api
  imports Runtime_Constants
begin

text \<open>
  The outside of the runtime (\<open>runtime/src/lib.rs\<close>): the checks a signed extrinsic passes, in
  the order of \<open>SignedExtra\<close>, and the runtime API, which hands every question to a pallet or to
  \<open>Executive\<close>.  Both stand on the framework: the checks are the function \<open>check\<close>, the
  pallets and \<open>Executive\<close> the record \<open>api_framework\<close>.
\<close>

section \<open>Checks of a signed extrinsic\<close>

datatype extension =
  CheckSpecVersion | CheckTxVersion | CheckGenesis | CheckEra | CheckNonce | CheckWeight
| ChargeTransactionPayment

definition SignedExtra :: "extension list" where
  "SignedExtra = [CheckSpecVersion, CheckTxVersion, CheckGenesis, CheckEra, CheckNonce, CheckWeight,
     ChargeTransactionPayment]"

text \<open>\<open>SignedExtension\<close> of a tuple runs its elements in order and stops at the first error.\<close>

fun pre_dispatch ::
  "(extension \<Rightarrow> 'x \<Rightarrow> 'w \<Rightarrow> string + 'w) \<Rightarrow> extension list \<Rightarrow> 'x \<Rightarrow> 'w \<Rightarrow> string + 'w" where
  "pre_dispatch check [] x w = Inr w"
| "pre_dispatch check (e # es) x w =
     (case check e x w of Inl err \<Rightarrow> Inl err | Inr w' \<Rightarrow> pre_dispatch check es x w')"

lemma pre_dispatch_append:
  "pre_dispatch check (es @ fs) x w =
     (case pre_dispatch check es x w of Inl err \<Rightarrow> Inl err | Inr w' \<Rightarrow> pre_dispatch check fs x w')"
  by (induction es arbitrary: w) (simp_all split: sum.split)

lemma pre_dispatch_cong:
  "(\<And>e. e \<in> set es \<Longrightarrow> check e = check' e) \<Longrightarrow> pre_dispatch check es x w = pre_dispatch check' es x w"
  by (induction es arbitrary: w) (simp_all split: sum.split)

section \<open>Runtime API\<close>

record ('b, 'h, 'x, 'a, 'ar, 'ci, 'va, 'di, 'fd, 'w) api_framework =
  aura_slot_duration :: "moment \<Rightarrow> moment"
  aura_authorities :: "'w \<Rightarrow> bytes list"
  executive_execute_block :: "'b \<Rightarrow> 'w \<Rightarrow> 'w"
  executive_initialize_block :: "'h \<Rightarrow> 'w \<Rightarrow> 'w"
  executive_apply_extrinsic :: "'x \<Rightarrow> 'w \<Rightarrow> 'ar \<times> 'w"
  executive_finalize_block :: "'w \<Rightarrow> 'h \<times> 'w"
  executive_validate_transaction :: "string \<Rightarrow> 'x \<Rightarrow> bytes \<Rightarrow> 'w \<Rightarrow> 'va"
  executive_offchain_worker :: "'h \<Rightarrow> 'w \<Rightarrow> 'w"
  runtime_metadata :: bytes
  create_extrinsics :: "bytes \<Rightarrow> 'x list"
  check_extrinsics :: "bytes \<Rightarrow> 'b \<Rightarrow> 'ci"
  session_keys_generate :: "bytes option \<Rightarrow> bytes"
  session_keys_decode :: "bytes \<Rightarrow> (bytes \<times> bytes) list option"
  system_account_nonce :: "'a \<Rightarrow> 'w \<Rightarrow> 32 word"
  payment_query_info :: "'x \<Rightarrow> 32 word \<Rightarrow> 'w \<Rightarrow> 'di"
  payment_query_fee_details :: "'x \<Rightarrow> 32 word \<Rightarrow> 'w \<Rightarrow> 'fd"
  collect_collation :: "'w \<Rightarrow> bytes"

record ('b, 'h, 'x, 'a, 'ar, 'ci, 'va, 'di, 'fd, 'w) runtime_Api =
  slot_duration :: moment
  authorities :: "'w \<Rightarrow> bytes list"
  version :: runtime_version
  execute_block :: "'b \<Rightarrow> 'w \<Rightarrow> 'w"
  initialize_block :: "'h \<Rightarrow> 'w \<Rightarrow> 'w"
  metadata :: bytes
  apply_extrinsic :: "'x \<Rightarrow> 'w \<Rightarrow> 'ar \<times> 'w"
  finalize_block :: "'w \<Rightarrow> 'h \<times> 'w"
  inherent_extrinsics :: "bytes \<Rightarrow> 'x list"
  api_check_inherents :: "'b \<Rightarrow> bytes \<Rightarrow> 'ci"
  validate_transaction :: "string \<Rightarrow> 'x \<Rightarrow> bytes \<Rightarrow> 'w \<Rightarrow> 'va"
  offchain_worker :: "'h \<Rightarrow> 'w \<Rightarrow> 'w"
  generate_session_keys :: "bytes option \<Rightarrow> bytes"
  decode_session_keys :: "bytes \<Rightarrow> (bytes \<times> bytes) list option"
  account_nonce :: "'a \<Rightarrow> 'w \<Rightarrow> 32 word"
  query_info :: "'x \<Rightarrow> 32 word \<Rightarrow> 'w \<Rightarrow> 'di"
  query_fee_details :: "'x \<Rightarrow> 32 word \<Rightarrow> 'w \<Rightarrow> 'fd"
  collect_collation_info :: "'w \<Rightarrow> bytes"

text \<open>\<open>Aura::slot_duration\<close> depends on the \<open>MinimumPeriod\<close> the timestamp pallet is configured with.\<close>

definition runtime_api ::
  "('b, 'h, 'x, 'a, 'ar, 'ci, 'va, 'di, 'fd, 'w) api_framework \<Rightarrow> ('b, 'h, 'x, 'a, 'ar, 'ci, 'va, 'di, 'fd, 'w) runtime_Api" where
  "runtime_api F = \<lparr>
     slot_duration = aura_slot_duration F MinimumPeriod,
     authorities = aura_authorities F,
     version = VERSION,
     execute_block = executive_execute_block F,
     initialize_block = executive_initialize_block F,
     metadata = runtime_metadata F,
     apply_extrinsic = executive_apply_extrinsic F,
     finalize_block = executive_finalize_block F,
     inherent_extrinsics = create_extrinsics F,
     api_check_inherents = (\<lambda>block data. check_extrinsics F data block),
     validate_transaction = executive_validate_transaction F,
     offchain_worker = executive_offchain_worker F,
     generate_session_keys = session_keys_generate F,
     decode_session_keys = session_keys_decode F,
     account_nonce = system_account_nonce F,
     query_info = payment_query_info F,
     query_fee_details = payment_query_fee_details F,
     collect_collation_info = collect_collation F\<rparr>"

record NativeVersion =
  runtime_version_of :: runtime_version
  can_author_with :: "nat set"

definition native_version :: NativeVersion where
  "native_version = \<lparr>runtime_version_of = VERSION, can_author_with = {}\<rparr>"

section \<open>Properties\<close>

text \<open>The fee is charged last: an extrinsic that any other check refuses is refused with the
  first such error before the payment is touched, whatever the payment would have said, and one
  that passes has passed every check.\<close>

theorem fee_charged_last:
  "(case pre_dispatch check (butlast SignedExtra) x w of
      Inl err \<Rightarrow> pre_dispatch (check(ChargeTransactionPayment := pay)) SignedExtra x w = Inl err
    | Inr w' \<Rightarrow> pre_dispatch (check(ChargeTransactionPayment := pay)) SignedExtra x w = pay x w')
   \<and> set (butlast SignedExtra) = UNIV - {ChargeTransactionPayment}"
proof
  have same: "pre_dispatch (check(ChargeTransactionPayment := pay)) (butlast SignedExtra) x w
      = pre_dispatch check (butlast SignedExtra) x w"
    by (rule pre_dispatch_cong) (auto simp: SignedExtra_def)
  have "SignedExtra = butlast SignedExtra @ [ChargeTransactionPayment]" by (simp add: SignedExtra_def)
  then show "case pre_dispatch check (butlast SignedExtra) x w of
      Inl err \<Rightarrow> pre_dispatch (check(ChargeTransactionPayment := pay)) SignedExtra x w = Inl err
    | Inr w' \<Rightarrow> pre_dispatch (check(ChargeTransactionPayment := pay)) SignedExtra x w = pay x w'"
    using same pre_dispatch_append [of "check(ChargeTransactionPayment := pay)" "butlast SignedExtra"
        "[ChargeTransactionPayment]" x w]
    by (auto split: sum.split)
  have "e \<in> set (butlast SignedExtra) \<longleftrightarrow> e \<noteq> ChargeTransactionPayment" for e
    by (cases e) (simp_all add: SignedExtra_def)
  then show "set (butlast SignedExtra) = UNIV - {ChargeTransactionPayment}" by auto
qed

text \<open>With Aura's slots of two minimum periods, as documented, the slot the API reports is the
  block time of the runtime, 12 seconds, and two of the relay chain slots of 6 seconds by which
  \<open>CheckInherents\<close> checks the time.\<close>

theorem slot_duration_is_block_time:
  assumes "\<And>p. aura_slot_duration F p = 2 * p"
  shows "slot_duration (runtime_api F) = SLOT_DURATION
    \<and> slot_duration (runtime_api F) = MILLISECS_PER_BLOCK \<and> unat SLOT_DURATION = 2 * 6000
    \<and> version (runtime_api F) = runtime_version_of native_version"
  by (simp add: runtime_api_def assms unit_defs native_version_def)

definition sample_api :: "(unit, unit, unit, unit, unit, bool, unit, balance, balance, unit) api_framework" where
  "sample_api = \<lparr>aura_slot_duration = (\<lambda>p. 2 * p), aura_authorities = (\<lambda>w. []),
     executive_execute_block = (\<lambda>b w. w), executive_initialize_block = (\<lambda>h w. w),
     executive_apply_extrinsic = (\<lambda>x w. ((), w)), executive_finalize_block = (\<lambda>w. ((), w)),
     executive_validate_transaction = (\<lambda>s x h w. ()), executive_offchain_worker = (\<lambda>h w. w),
     runtime_metadata = [], create_extrinsics = (\<lambda>d. []), check_extrinsics = (\<lambda>d b. True),
     session_keys_generate = (\<lambda>s. []), session_keys_decode = (\<lambda>k. None),
     system_account_nonce = (\<lambda>a w. 0), payment_query_info = (\<lambda>x n w. 0),
     payment_query_fee_details = (\<lambda>x n w. 0), collect_collation = (\<lambda>w. [])\<rparr>"

theorem slot_duration_is_block_time_witness: "slot_duration (runtime_api sample_api) = 12000"
  using slot_duration_is_block_time [of sample_api]
  by (simp add: sample_api_def unit_defs)

end
