(* ===== verification/Node_Consensus.thy ===== *)
theory Node_Consensus
  imports Node_Service Node_Rpc Runtime_Api
begin

text \<open>
  What the node passes to the framework's Aura consensus (\<open>node/src/service.rs\<close>): the import
  queue of \<open>parachain_build_import_queue\<close> and the block builder that \<open>start_parachain_node\<close>
  gives to \<open>start_node_impl\<close>.  The system clock, the slot of a time, the slot duration of the
  runtime and the parachain inherent come from the framework, the record \<open>aura_framework\<close>.
  Here too is the native executor that both are built for.
\<close>

section \<open>The framework\<close>

record ('c, 'i, 'w) aura_framework =
  client_slot_duration :: "'c \<Rightarrow> string + moment"
  from_system_time :: "'w \<Rightarrow> moment"
  from_timestamp_and_duration :: "moment \<Rightarrow> moment \<Rightarrow> 64 word"
  parachain_inherent_at :: "bytes \<Rightarrow> bytes \<Rightarrow> para_id \<Rightarrow> 'w \<Rightarrow> 'i option"

text \<open>A slot proportion, \<open>SlotProportion::new(a / b)\<close>.\<close>

record slot_proportion =
  numerator :: nat
  denominator :: nat

section \<open>The native executor\<close>

text \<open>The generated dispatcher of the runtime's API is an argument.\<close>

record native_executor =
  executor_dispatch :: "string \<Rightarrow> bytes \<Rightarrow> bytes option"
  executor_native_version :: NativeVersion

definition TemplateRuntimeExecutor :: "(string \<Rightarrow> bytes \<Rightarrow> bytes option) \<Rightarrow> native_executor" where
  "TemplateRuntimeExecutor api_dispatch =
     \<lparr>executor_dispatch = api_dispatch, executor_native_version = native_version\<rparr>"

lemma executor_version_of_program:
  "runtime_version_of (executor_native_version (TemplateRuntimeExecutor dispatch))
     = cli_native_runtime_version (Cli_substrate E S) spec"
  by (simp add: TemplateRuntimeExecutor_def native_version_def Cli_substrate_def)

section \<open>Import queue\<close>

record ('c, 'w) import_queue_params =
  iq_block_import :: 'c
  iq_client :: 'c
  iq_inherents :: "'w \<Rightarrow> string + moment \<times> 64 word"
  iq_registry :: bool
  iq_native_version :: 'c
  iq_telemetry :: bool

definition parachain_build_import_queue ::
  "('c, 'i, 'w) aura_framework \<Rightarrow> (('c, 'w) import_queue_params \<Rightarrow> string + 'q) \<Rightarrow> 'c \<Rightarrow> bool \<Rightarrow> bool
     \<Rightarrow> string + 'q" where
  "parachain_build_import_queue A import_queue client registry telemetry =
     try_with (client_slot_duration A client) (\<lambda>slot_duration.
     import_queue
       \<lparr>iq_block_import = client,
        iq_client = client,
        iq_inherents = (\<lambda>w.
          let time = from_system_time A w;
              slot = from_timestamp_and_duration A time slot_duration
          in Inr (time, slot)),
        iq_registry = registry,
        iq_native_version = client,
        iq_telemetry = telemetry\<rparr>)"

section \<open>Block production\<close>

record ('c, 'r, 'i, 'w) aura_params =
  ac_proposer_client :: 'c
  ac_proposer_telemetry :: bool
  ac_inherents :: "bytes \<Rightarrow> bytes \<Rightarrow> 'w \<Rightarrow> string + moment \<times> 64 word \<times> 'i"
  ac_block_import :: 'c
  ac_relay_chain :: 'r
  ac_para_client :: 'c
  ac_backoff_authoring_blocks :: "unit option"
  ac_force_authoring :: bool
  ac_slot_duration :: moment
  ac_block_proposal_slot_portion :: slot_proportion
  ac_max_block_proposal_slot_portion :: "slot_proportion option"
  ac_telemetry :: bool

definition build_consensus ::
  "('c, 'i, 'w) aura_framework \<Rightarrow> para_id \<Rightarrow> 'c \<Rightarrow> bool \<Rightarrow> 'r \<Rightarrow> bool
     \<Rightarrow> string + ('c, 'r, 'i, 'w) aura_params" where
  "build_consensus A para_id client telemetry relay_chain_node force =
     try_with (client_slot_duration A client) (\<lambda>slot_duration.
     Inr \<lparr>ac_proposer_client = client,
          ac_proposer_telemetry = telemetry,
          ac_inherents = (\<lambda>relay_parent validation_data w.
            let parachain_inherent = parachain_inherent_at A relay_parent validation_data para_id w;
                time = from_system_time A w;
                slot = from_timestamp_and_duration A time slot_duration
            in case parachain_inherent of
                 None \<Rightarrow> Inl ''Failed to create parachain inherent''
               | Some i \<Rightarrow> Inr (time, slot, i)),
          ac_block_import = client,
          ac_relay_chain = relay_chain_node,
          ac_para_client = client,
          ac_backoff_authoring_blocks = None,
          ac_force_authoring = force,
          ac_slot_duration = slot_duration,
          ac_block_proposal_slot_portion = \<lparr>numerator = 1, denominator = 24\<rparr>,
          ac_max_block_proposal_slot_portion = Some \<lparr>numerator = 1, denominator = 16\<rparr>,
          ac_telemetry = telemetry\<rparr>)"

text \<open>The time a proportion leaves of a slot, in milliseconds.\<close>

definition proposing_time :: "slot_proportion \<Rightarrow> moment \<Rightarrow> nat" where
  "proposing_time p slot = unat slot * numerator p div denominator p"

section \<open>Properties\<close>

text \<open>What an importing node expects of a block and what an authoring node puts into it agree: at
  the same moment both compute the same time and slot, from the slot duration of the runtime;
  the author adds the parachain inherent and, without one, fails with just that message.  Both
  are refused if the runtime does not answer.\<close>

theorem author_and_importer_agree:
  assumes "parachain_build_import_queue A Inr client registry telemetry = Inr q"
  shows "\<exists>c. build_consensus A para_id client telemetry relay force = Inr c
    \<and> (\<forall>relay_parent validation w.
        ac_inherents c relay_parent validation w
          = (case parachain_inherent_at A relay_parent validation para_id w of
               None \<Rightarrow> Inl ''Failed to create parachain inherent''
             | Some i \<Rightarrow> (case iq_inherents q w of Inl e \<Rightarrow> Inl e | Inr (time, slot) \<Rightarrow> Inr (time, slot, i))))
    \<and> client_slot_duration A client = Inr (ac_slot_duration c)
    \<and> ac_force_authoring c = force \<and> ac_block_import c = iq_block_import q"
  using assms
  by (cases "client_slot_duration A client")
    (auto simp: parachain_build_import_queue_def build_consensus_def Let_def split: option.split)

definition sample_aura :: "(unit, string, moment) aura_framework" where
  "sample_aura = \<lparr>client_slot_duration = (\<lambda>c. Inr 12000), from_system_time = (\<lambda>w. w),
     from_timestamp_and_duration = (\<lambda>t d. t div d), parachain_inherent_at = (\<lambda>r v p w. None)\<rparr>"

theorem author_and_importer_agree_witness:
  "\<exists>c. build_consensus sample_aura 2000 () True () False = Inr c
     \<and> ac_inherents c [] [] 24000 = Inl ''Failed to create parachain inherent''"
proof -
  obtain q where "parachain_build_import_queue sample_aura Inr () True True = Inr q"
    by (simp add: parachain_build_import_queue_def sample_aura_def)
  from author_and_importer_agree [OF this, of 2000 "()" False]
  obtain c where "build_consensus sample_aura 2000 () True () False = Inr c"
    and "\<forall>r v w. ac_inherents c r v w = (case parachain_inherent_at sample_aura r v 2000 w of
               None \<Rightarrow> Inl ''Failed to create parachain inherent''
             | Some i \<Rightarrow> (case iq_inherents q w of Inl e \<Rightarrow> Inl e | Inr (time, slot) \<Rightarrow> Inr (time, slot, i)))"
    by blast
  then show ?thesis by (simp add: sample_aura_def)
qed

text \<open>On a client whose runtime is this one, an author proposes for 500 milliseconds, 750 if slots
  were skipped, as the comments say.\<close>

theorem proposing_times:
  assumes "build_consensus A para_id client telemetry relay force = Inr c"
    and "client_slot_duration A client = Inr (slot_duration (runtime_api F))"
    and "\<And>p. aura_slot_duration F p = 2 * p"
  shows "proposing_time (ac_block_proposal_slot_portion c) (ac_slot_duration c) = 500
    \<and> map_option (\<lambda>p. proposing_time p (ac_slot_duration c)) (ac_max_block_proposal_slot_portion c) = Some 750"
  using assms(1,2)
  by (auto simp: build_consensus_def runtime_api_def assms(3) unit_defs proposing_time_def)

theorem proposing_times_witness:
  "\<exists>c. build_consensus sample_aura 2000 () True () False = Inr c
     \<and> proposing_time (ac_block_proposal_slot_portion c) (ac_slot_duration c) = 500"
proof -
  obtain c where c: "build_consensus sample_aura 2000 () True () False = Inr c"
    by (simp add: build_consensus_def sample_aura_def)
  have "client_slot_duration sample_aura () = Inr (slot_duration (runtime_api sample_api))"
    by (simp add: sample_aura_def sample_api_def runtime_api_def unit_defs)
  from proposing_times [OF c this] c show ?thesis by (simp add: sample_api_def)
qed

end
