(* ===== verification/Node_Start.thy ===== *)
theory Node_Start
  imports Node_Consensus
begin

text \<open>
  \<open>start_parachain_node\<close> of \<open>node/src/service.rs\<close>: the start sequence of \<open>start_node_impl\<close> with
  the two closures of this node put in, the import queue of \<open>parachain_build_import_queue\<close> and
  the Aura consensus of \<open>build_consensus\<close>.  Where a start keeps its client, its metrics and its
  relay chain node is part of the opaque world, read by the record \<open>start_parts\<close>.
\<close>

section \<open>The start with the closures of this node\<close>

record ('c, 'r, 'i, 'q, 'w) start_parts =
  client_in :: "'w \<Rightarrow> 'c"
  registry_in :: "'w \<Rightarrow> bool"
  relay_node_in :: "'w \<Rightarrow> 'r"
  make_import_queue :: "('c, 'w) import_queue_params \<Rightarrow> string + 'q"
  put_import_queue :: "'q \<Rightarrow> 'w \<Rightarrow> 'w"
  put_consensus :: "('c, 'r, 'i, 'w) aura_params \<Rightarrow> 'w \<Rightarrow> 'w"

fun parachain_attempt ::
  "('c, 'r, 'i, 'q, 'w) start_parts \<Rightarrow> ('c, 'i, 'w) aura_framework \<Rightarrow> 'w service_host \<Rightarrow> para_id
     \<Rightarrow> startup \<Rightarrow> 'w \<Rightarrow> (string + unit) \<times> 'w" where
  "parachain_attempt P A F para_id (BuildImportQueue telemetry) w =
     (case parachain_build_import_queue A (make_import_queue P) (client_in P w) (registry_in P w) telemetry of
        Inl e \<Rightarrow> (Inl e, w)
      | Inr q \<Rightarrow> (Inr (), put_import_queue P q w))"
| "parachain_attempt P A F para_id (BuildConsensus telemetry force) w =
     (case build_consensus A para_id (client_in P w) telemetry (relay_node_in P w) force of
        Inl e \<Rightarrow> (Inl e, w)
      | Inr c \<Rightarrow> (Inr (), put_consensus P c w))"
| "parachain_attempt P A F para_id c w = attempt F c w"

definition start_parachain_node ::
  "('c, 'r, 'i, 'q, 'w) start_parts \<Rightarrow> ('c, 'i, 'w) aura_framework \<Rightarrow> 'w service_host
     \<Rightarrow> service_config \<Rightarrow> para_id \<Rightarrow> 'w \<Rightarrow> (string + unit) \<times> 'w" where
  "start_parachain_node P A F parachain_config para_id w =
     start_node_impl (F\<lparr>attempt := parachain_attempt P A F para_id\<rparr>) parachain_config para_id w"

section \<open>Lemmas\<close>

text \<open>Every call that a successful run attempted has succeeded.\<close>

lemma run_calls_tried:
  "run_calls F cs w = (Inr (), w') \<Longrightarrow> Try c \<in> set cs \<Longrightarrow> \<exists>u u'. attempt F c u = (Inr (), u')"
proof (induction cs arbitrary: w)
  case (Cons k cs)
  show ?case
  proof (cases k)
    case (Try c')
    with Cons.prems(1) obtain u where "attempt F c' w = (Inr (), u)" "run_calls F cs u = (Inr (), w')"
      by (cases "attempt F c' w"; cases "fst (attempt F c' w)") auto
    with Cons Try show ?thesis by auto
  next
    case (Do c')
    with Cons show ?thesis by auto
  next
    case (Relay t)
    with Cons.prems(1) obtain u where "run_calls F cs u = (Inr (), w')"
      by (cases "start_relay_node F t w"; cases "fst (start_relay_node F t w)") auto
    with Cons Relay show ?thesis by auto
  qed
qed simp

lemma parachain_import_tried:
  "parachain_attempt P A F para_id (BuildImportQueue t) u = (Inr (), u') \<Longrightarrow>
     \<exists>q. parachain_build_import_queue A (make_import_queue P) (client_in P u) (registry_in P u) t = Inr q"
  by (auto split: sum.splits)

lemma parachain_consensus_tried:
  "parachain_attempt P A F para_id (BuildConsensus t force) u = (Inr (), u') \<Longrightarrow>
     \<exists>c. build_consensus A para_id (client_in P u) t (relay_node_in P u) force = Inr c"
  by (auto split: sum.splits)

lemma import_queue_params_built:
  assumes "parachain_build_import_queue A build client registry telemetry = Inr q"
  shows "\<exists>p. parachain_build_import_queue A Inr client registry telemetry = Inr p \<and> build p = Inr q"
  using assms by (cases "client_slot_duration A client") (simp_all add: parachain_build_import_queue_def)

section \<open>Properties\<close>

text \<open>A node whose runtime cannot tell the slot duration does not come up: the start ends with
  an error while the components are built, before the relay chain node or the network.\<close>

theorem no_start_without_slot_duration:
  assumes "role_of config \<noteq> Light" and "\<And>w. \<exists>e. client_slot_duration A (client_in P w) = Inl e"
  shows "\<exists>e w'. start_parachain_node P A F config para_id w = (Inl e, w')
    \<and> new_partial_parts (F\<lparr>attempt := parachain_attempt P A F para_id\<rparr>) (prepare_node_config F config) w = (Inl e, w')"
proof -
  let ?F = "F\<lparr>attempt := parachain_attempt P A F para_id\<rparr>"
  have "\<forall>t u. \<exists>e. parachain_attempt P A F para_id (BuildImportQueue t) u = (Inl e, u)"
  proof (intro allI)
    fix t u
    show "\<exists>e. parachain_attempt P A F para_id (BuildImportQueue t) u = (Inl e, u)"
      using assms(2) [of u] by (auto simp: parachain_build_import_queue_def)
  qed
  then obtain E where queue: "parachain_attempt P A F para_id (BuildImportQueue t) u = (Inl (E t u), u)" for t u
    by metis
  have "\<exists>e w'. new_partial_parts ?F c u = (Inl e, w')" for c u
  proof -
    obtain r v where v: "start_telemetry ?F c u = (r, v)" by fastforce
    show ?thesis
    proof (cases r)
      case (Inr t)
      obtain r2 v2 where "parachain_attempt P A F para_id (NewFullParts t) v = (r2, v2)" by fastforce
      with queue v Inr show ?thesis
        by (cases r2) (simp_all add: new_partial_parts_def Let_def del: parachain_attempt.simps)
    qed (simp add: new_partial_parts_def v)
  qed
  then obtain e w' where e: "new_partial_parts ?F (prepare_node_config F config) w = (Inl e, w')" by blast
  with assms(1) show ?thesis by (simp add: start_parachain_node_def start_node_impl_def Let_def)
qed

text \<open>A collator that has started both imports and authors by the slot duration of one client: the
  inherents it expects of a block and those it puts into one agree on time and slot.\<close>

theorem started_collator_agrees:
  assumes "start_parachain_node P A F config para_id w = (Inr (), w')" and "role_of config = Authority"
    and "\<And>c. role_of (prepare_node_config F c) = role_of c" and "\<And>u. client_in P u = client"
  shows "\<exists>q c u v t. parachain_build_import_queue A Inr client (registry_in P u) t = Inr q
    \<and> build_consensus A para_id client t (relay_node_in P v) (force_authoring (prepare_node_config F config)) = Inr c
    \<and> client_slot_duration A client = Inr (ac_slot_duration c)
    \<and> (\<forall>relay_parent validation x i. parachain_inherent_at A relay_parent validation para_id x = Some i \<longrightarrow>
        ac_inherents c relay_parent validation x
          = (case iq_inherents q x of Inl e \<Rightarrow> Inl e | Inr (time, slot) \<Rightarrow> Inr (time, slot, i)))"
proof -
  let ?F = "F\<lparr>attempt := parachain_attempt P A F para_id\<rparr>" and ?c = "prepare_node_config F config"
  let ?t = "used_endpoints ?c \<noteq> None"
  have run: "run_calls ?F (startup_calls ?c para_id) w = (Inr (), w')"
    using assms(1,2) start_node_calls [of config ?F para_id w] by (simp add: start_parachain_node_def)
  have tried: "Try (BuildImportQueue ?t) \<in> set (startup_calls ?c para_id)"
    "Try (BuildConsensus ?t (force_authoring ?c)) \<in> set (startup_calls ?c para_id)"
    using assms(2,3) by (simp_all add: startup_calls_def Let_def is_authority_def)
  obtain u q where "parachain_build_import_queue A (make_import_queue P) client (registry_in P u) ?t = Inr q"
    using run_calls_tried [OF run tried(1)] parachain_import_tried assms(4) by fastforce
  from import_queue_params_built [OF this]
  obtain p where p: "parachain_build_import_queue A Inr client (registry_in P u) ?t = Inr p" by blast
  obtain v c where c: "build_consensus A para_id client ?t (relay_node_in P v) (force_authoring ?c) = Inr c"
    using run_calls_tried [OF run tried(2)] parachain_consensus_tried assms(4) by fastforce
  from author_and_importer_agree [OF p, of para_id "relay_node_in P v" "force_authoring ?c"] c
  have "client_slot_duration A client = Inr (ac_slot_duration c)"
    and "\<forall>relay_parent validation x. ac_inherents c relay_parent validation x
          = (case parachain_inherent_at A relay_parent validation para_id x of
               None \<Rightarrow> Inl ''Failed to create parachain inherent''
             | Some i \<Rightarrow> (case iq_inherents p x of Inl e \<Rightarrow> Inl e | Inr (time, slot) \<Rightarrow> Inr (time, slot, i)))"
    by auto
  with p c show ?thesis by (intro exI [of _ p] exI [of _ c] exI [of _ u] exI [of _ v] exI [of _ ?t]) simp
qed

text \<open>A start whose calls all succeed, over a world that only counts them.\<close>

definition counting_host :: "nat service_host" where
  "counting_host = \<lparr>perform = (\<lambda>c. Suc), attempt = (\<lambda>c n. (Inr (), Suc n)),
     build_polkadot_full_node = (\<lambda>t n. (Inr (), Suc n)), prepare_node_config = (\<lambda>c. c)\<rparr>"

definition counting_parts :: "(unit, unit, string, unit, nat) start_parts" where
  "counting_parts = \<lparr>client_in = (\<lambda>n. ()), registry_in = (\<lambda>n. True), relay_node_in = (\<lambda>n. ()),
     make_import_queue = (\<lambda>p. Inr ()), put_import_queue = (\<lambda>q. Suc), put_consensus = (\<lambda>c. Suc)\<rparr>"

definition counting_aura :: "(string + moment) \<Rightarrow> (unit, string, nat) aura_framework" where
  "counting_aura d = \<lparr>client_slot_duration = (\<lambda>c. d), from_system_time = of_nat,
     from_timestamp_and_duration = (\<lambda>t d. t div d), parachain_inherent_at = (\<lambda>r v p n. Some ''inherent'')\<rparr>"

theorem no_start_without_slot_duration_witness:
  "\<exists>e w'. start_parachain_node counting_parts (counting_aura (Inl ''no runtime'')) counting_host
     \<lparr>role_of = Full, telemetry_endpoints = None, force_authoring = False\<rparr> 2000 0 = (Inl e, w')"
  using no_start_without_slot_duration [of "\<lparr>role_of = Full, telemetry_endpoints = None, force_authoring = False\<rparr>"
      "counting_aura (Inl ''no runtime'')" counting_parts counting_host 2000 0]
  by (auto simp: counting_aura_def)

theorem started_collator_agrees_witness:
  "\<exists>c. build_consensus (counting_aura (Inr 12000)) 2000 () False () True = Inr c \<and> ac_slot_duration c = 12000"
proof -
  let ?config = "\<lparr>role_of = Authority, telemetry_endpoints = None, force_authoring = True\<rparr>"
  obtain w' where "start_parachain_node counting_parts (counting_aura (Inr 12000)) counting_host ?config 2000 0
      = (Inr (), w')"
    by (simp add: start_parachain_node_def start_node_impl_def new_partial_parts_def start_telemetry_def
        used_endpoints_def counting_host_def counting_parts_def counting_aura_def start_relay_node_def
        parachain_build_import_queue_def build_consensus_def is_authority_def Let_def)
  from started_collator_agrees [OF this, of "()"]
  obtain c t where "build_consensus (counting_aura (Inr 12000)) 2000 () t () True = Inr c"
    "client_slot_duration (counting_aura (Inr 12000)) () = Inr (ac_slot_duration c)"
    by (auto simp: counting_host_def counting_parts_def)
  then show ?thesis by (simp add: counting_aura_def build_consensus_def)
qed

end
